(* ===== verification/Prelude.thy ===== *)
theory Prelude
  imports Complex_Main "HOL-Library.List_Lexorder" "HOL-Library.Char_ord" "HOL-Library.Multiset"
begin

text \<open>
  Shared vocabulary of the development. A pandas column is a list of cells in row
  order; a cell that pandas shows as \<open>NaN\<close> (a missing value) is \<open>None\<close>.
  \<open>dropna\<close> is the step that every pandas reduction used by the dashboard
  (\<open>value_counts\<close>, \<open>mean\<close>, \<open>min\<close>, \<open>max\<close>, \<open>describe\<close>, \<open>groupby\<close>) performs
  first. The lemmas here are the generic facts on counting and filtering that the
  component theories share; the \<open>count_simps\<close> collection carries them into
  \<open>simp add:\<close> calls.
\<close>

named_theorems count_simps "counting facts over columns shared by the component proofs"

type_synonym 'a column = "'a option list"

primrec dropna :: "'a column \<Rightarrow> 'a list" where
  "dropna [] = []"
| "dropna (c # cs) = (case c of None \<Rightarrow> dropna cs | Some v \<Rightarrow> v # dropna cs)"

text \<open>The distinct values of a list in order of first appearance: \<open>Series.unique()\<close>
  and the key order of pandas' hash tables (\<open>remdups\<close> keeps the last occurrence).\<close>

definition unique :: "'a list \<Rightarrow> 'a list" where
  "unique xs = rev (remdups (rev xs))"

lemma dropna_append [simp]: "dropna (xs @ ys) = dropna xs @ dropna ys"
  by (induction xs) (auto split: option.splits)

lemma set_dropna [simp]: "set (dropna xs) = {v. Some v \<in> set xs}"
  by (induction xs) (auto split: option.splits)

lemma length_dropna_le [count_simps]: "length (dropna xs) \<le> length xs"
  by (induction xs) (auto split: option.splits)

lemma dropna_map_Some [simp]: "dropna (map Some xs) = xs"
  by (induction xs) auto

lemma length_dropna_all_Some:
  "None \<notin> set xs \<Longrightarrow> length (dropna xs) = length xs"
  by (induction xs) (auto split: option.splits simp: eq_commute [of None])

lemma length_dropna_filter:
  "length (dropna xs) = length (filter (\<lambda>c. c \<noteq> None) xs)"
  by (induction xs) (auto split: option.splits)

text \<open>Counting the distinct values of a list adds up to its length.\<close>

lemma sum_list_count_remdups [count_simps]:
  "sum_list (map (count_list xs) (remdups xs)) = length xs"
proof -
  have "sum_list (map (count_list xs) (remdups xs)) = sum (count_list xs) (set xs)"
    by (simp add: sum_list_distinct_conv_sum_set)
  also have "\<dots> = length xs"
    by (rule sum_count_set) auto
  finally show ?thesis .
qed

lemma set_unique [simp]: "set (unique xs) = set xs"
  by (simp add: unique_def)

lemma distinct_unique [simp]: "distinct (unique xs)"
  by (simp add: unique_def)

lemma sum_list_count_unique [count_simps]:
  "sum_list (map (count_list xs) (unique xs)) = length xs"
proof -
  have "sum_list (map (count_list xs) (unique xs)) = sum_list (map (count_list xs) (remdups xs))"
    by (simp add: sum_list_distinct_conv_sum_set)
  then show ?thesis by (simp add: sum_list_count_remdups)
qed

lemma sum_list_count_distinct [count_simps]:
  "distinct ks \<Longrightarrow> set xs \<subseteq> set ks \<Longrightarrow> sum_list (map (count_list xs) ks) = length xs"
  by (simp add: sum_list_distinct_conv_sum_set sum_count_set)

lemma count_list_filter_le [count_simps]:
  "count_list (filter P xs) x \<le> count_list xs x"
  by (induction xs) auto

lemma length_filter_filter_le [count_simps]:
  "length (filter P (filter Q xs)) \<le> length (filter P xs)"
  by (induction xs) auto

lemma count_list_filter_split [count_simps]:
  "count_list (filter P xs) x + count_list (filter (\<lambda>y. \<not> P y) xs) x = count_list xs x"
  by (induction xs) auto

lemma count_list_pos_iff [count_simps]: "0 < count_list xs x \<longleftrightarrow> x \<in> set xs"
  using count_list_0_iff [of xs x] by auto

lemma dropna_map_filter [count_simps]:
  "count_list (dropna (map f (filter P rs))) x = length (filter (\<lambda>r. P r \<and> f r = Some x) rs)"
  by (induction rs) (auto split: option.splits)

lemma count_dropna_map [count_simps]:
  "count_list (dropna (map f rs)) x = length (filter (\<lambda>r. f r = Some x) rs)"
  using dropna_map_filter [of f "\<lambda>_. True" rs x] by simp

text \<open>A list of pairs read as a lookup table, the way pandas reads an index.\<close>

lemma map_of_map_keys [simp]:
  "map_of (map (\<lambda>k. (k, f k)) ks) k = (if k \<in> set ks then Some (f k) else None)"
  by (induction ks) auto

lemma sum_list_map_of_nat:
  "sum_list (map (\<lambda>x. of_nat (f x)) xs) = (of_nat (sum_list (map f xs)) :: 'a::semiring_1)"
  by (induction xs) auto

lemma length_filter_disj:
  "\<forall>r\<in>set xs. \<not> (P r \<and> Q r) \<Longrightarrow>
     length (filter (\<lambda>r. P r \<or> Q r) xs) = length (filter P xs) + length (filter Q xs)"
  by (induction xs) auto

lemma sum_filter_keys:
  "distinct ks \<Longrightarrow>
     sum_list (map (\<lambda>k. length (filter (\<lambda>r. f r = Some k \<and> P r) xs)) ks) =
       length (filter (\<lambda>r. f r \<in> Some ` set ks \<and> P r) xs)"
proof (induction ks)
  case Nil
  then show ?case by simp
next
  case (Cons k ks)
  have "length (filter (\<lambda>r. f r \<in> Some ` set (k # ks) \<and> P r) xs) =
        length (filter (\<lambda>r. (f r = Some k \<and> P r) \<or> (f r \<in> Some ` set ks \<and> P r)) xs)"
    by (auto intro: arg_cong [where f = length] filter_cong)
  also have "\<dots> = length (filter (\<lambda>r. f r = Some k \<and> P r) xs) + length (filter (\<lambda>r. f r \<in> Some ` set ks \<and> P r) xs)"
    using Cons.prems by (intro length_filter_disj) auto
  finally show ?case using Cons by simp
qed

lemma sort_eq_Nil_iff [simp]: "sort xs = [] \<longleftrightarrow> xs = []"
  by (metis length_0_conv length_sort)

end
