(* ===== verification/PyFloat.thy ===== *)
theory PyFloat
  imports Prelude
begin

text \<open>
  The float64 values that pandas puts in its result columns. A finite value is modelled
  by the exact rational it stands for (\<open>Fin\<close>); \<open>NaN\<close> and the two infinities are
  constructors of their own, because the dashboard's divisions (\<open>churned / total\<close>,
  \<open>mean\<close> of an empty column) produce them. Rounding error of binary floats and the
  sign of zero are not modelled. \<open>fdiv\<close> and \<open>fmul\<close> follow IEEE 754 on these values;
  \<open>fround\<close> is numpy's \<open>round(decimals)\<close> (pandas \<open>Series.round\<close>), which rounds
  half to even.
\<close>

datatype fval = Fin rat | NaN | PInf | NInf

fun fneg :: "fval \<Rightarrow> fval" where
  "fneg (Fin a) = Fin (- a)"
| "fneg NaN = NaN"
| "fneg PInf = NInf"
| "fneg NInf = PInf"

text \<open>The sign of an infinite result: \<open>PInf\<close> for a positive factor, \<open>NInf\<close> otherwise.\<close>

definition inf_of_sign :: "rat \<Rightarrow> fval" where
  "inf_of_sign a = (if 0 < a then PInf else NInf)"

fun fdiv :: "fval \<Rightarrow> fval \<Rightarrow> fval" where
  "fdiv (Fin a) (Fin b) =
     (if b \<noteq> 0 then Fin (a / b) else if a = 0 then NaN else inf_of_sign a)"
| "fdiv NaN _ = NaN"
| "fdiv _ NaN = NaN"
| "fdiv (Fin a) PInf = Fin 0"
| "fdiv (Fin a) NInf = Fin 0"
| "fdiv PInf (Fin b) = (if b < 0 then NInf else PInf)"
| "fdiv NInf (Fin b) = (if b < 0 then PInf else NInf)"
| "fdiv _ _ = NaN"

fun fmul :: "fval \<Rightarrow> fval \<Rightarrow> fval" where
  "fmul (Fin a) (Fin b) = Fin (a * b)"
| "fmul NaN _ = NaN"
| "fmul _ NaN = NaN"
| "fmul (Fin a) PInf = (if a = 0 then NaN else inf_of_sign a)"
| "fmul (Fin a) NInf = (if a = 0 then NaN else inf_of_sign (- a))"
| "fmul PInf (Fin b) = (if b = 0 then NaN else inf_of_sign b)"
| "fmul NInf (Fin b) = (if b = 0 then NaN else inf_of_sign (- b))"
| "fmul PInf PInf = PInf"
| "fmul NInf NInf = PInf"
| "fmul _ _ = NInf"

text \<open>
  numpy's \<open>round\<close> scales by \<open>10^d\<close>, rounds to the nearest integer with ties to the
  even one (\<open>rint\<close>), and scales back.
\<close>

definition round_half_even :: "rat \<Rightarrow> int" where
  "round_half_even x =
     (let f = \<lfloor>x\<rfloor>; d = x - of_int f
      in if d < 1/2 then f else if 1/2 < d then f + 1 else if even f then f else f + 1)"

fun fround :: "nat \<Rightarrow> fval \<Rightarrow> fval" where
  "fround n (Fin a) = Fin (of_int (round_half_even (a * 10 ^ n)) / 10 ^ n)"
| "fround n v = v"

text \<open>A finite value within closed bounds; \<open>NaN\<close> and the infinities are in none.\<close>

fun fin_within :: "rat \<Rightarrow> rat \<Rightarrow> fval \<Rightarrow> bool" where
  "fin_within lo hi (Fin a) = (lo \<le> a \<and> a \<le> hi)"
| "fin_within lo hi v = False"

fun is_nan :: "fval \<Rightarrow> bool" where
  "is_nan NaN = True"
| "is_nan v = False"

subsection \<open>Rounding\<close>

lemma round_half_even_floor:
  "\<lfloor>x\<rfloor> \<le> round_half_even x \<and> round_half_even x \<le> \<lfloor>x\<rfloor> + 1"
  by (simp add: round_half_even_def Let_def)

lemma round_half_even_dist: "\<bar>x - of_int (round_half_even x)\<bar> \<le> 1/2"
proof -
  define f where "f = \<lfloor>x\<rfloor>"
  have "of_int f \<le> x" "x < of_int f + 1"
    unfolding f_def by linarith+
  then show ?thesis
    unfolding round_half_even_def Let_def f_def [symmetric] by (auto simp: abs_if)
qed

lemma round_half_even_of_int [simp]: "round_half_even (of_int n) = n"
  by (simp add: round_half_even_def)

lemma round_half_even_mono:
  assumes "x \<le> y" shows "round_half_even x \<le> round_half_even y"
proof (cases "\<lfloor>x\<rfloor> = \<lfloor>y\<rfloor>")
  case True
  with assms show ?thesis
    by (auto simp: round_half_even_def Let_def)
next
  case False
  with assms have "\<lfloor>x\<rfloor> + 1 \<le> \<lfloor>y\<rfloor>"
    by (meson floor_mono le_less zless_imp_add1_zle)
  then show ?thesis
    using round_half_even_floor [of x] round_half_even_floor [of y] by linarith
qed

text \<open>Rounding never leaves an interval whose ends are representable at that precision.\<close>

lemma fround_within:
  assumes "fin_within (of_int lo) (of_int hi) v"
  shows "fin_within (of_int lo) (of_int hi) (fround n v)"
proof (cases v)
  case (Fin a)
  let ?s = "(10::rat) ^ n"
  have s: "0 < ?s" by simp
  from assms Fin have "of_int lo * ?s \<le> a * ?s" "a * ?s \<le> of_int hi * ?s"
    by (simp_all add: mult_right_mono)
  have "round_half_even (of_int (lo * 10 ^ n)) \<le> round_half_even (a * ?s)"
    by (rule round_half_even_mono) (use \<open>of_int lo * ?s \<le> a * ?s\<close> in simp)
  moreover have "round_half_even (a * ?s) \<le> round_half_even (of_int (hi * 10 ^ n))"
    by (rule round_half_even_mono) (use \<open>a * ?s \<le> of_int hi * ?s\<close> in simp)
  ultimately have "lo * 10 ^ n \<le> round_half_even (a * ?s)" "round_half_even (a * ?s) \<le> hi * 10 ^ n"
    by (simp_all only: round_half_even_of_int)
  then have "of_int lo * ?s \<le> of_int (round_half_even (a * ?s))"
    "of_int (round_half_even (a * ?s)) \<le> of_int hi * ?s"
    by (metis of_int_le_iff of_int_mult of_int_numeral of_int_power)+
  with s Fin show ?thesis
    by (simp add: pos_le_divide_eq pos_divide_le_eq)
qed (use assms in simp_all)

lemma fround_nan_iff [simp]: "is_nan (fround n v) \<longleftrightarrow> is_nan v"
  by (cases v) simp_all

lemma fround_Fin_iff: "(\<exists>a. fround n v = Fin a) \<longleftrightarrow> (\<exists>a. v = Fin a)"
  by (cases v) simp_all

subsection \<open>Division of counts\<close>

text \<open>
  The dashboard divides a count of churned customers by a count of customers. Where the
  first is at most the second, the quotient is \<open>NaN\<close> exactly when both are zero and
  never infinite.
\<close>

lemma fdiv_counts:
  "fdiv (Fin (of_nat c)) (Fin (of_nat t)) =
     (if t = 0 then (if c = 0 then NaN else PInf) else Fin (of_nat c / of_nat t))"
  by (simp add: inf_of_sign_def)

lemma count_ratio_within:
  assumes "c \<le> t" "0 < t"
  shows "0 \<le> (of_nat c / of_nat t :: rat) * 100 \<and> (of_nat c / of_nat t :: rat) * 100 \<le> 100"
proof -
  from assms have "(of_nat c / of_nat t :: rat) \<le> 1"
    by (simp add: divide_le_eq_1)
  then have "(of_nat c / of_nat t :: rat) * 100 \<le> 1 * 100"
    by (rule mult_right_mono) simp
  then show ?thesis by simp
qed

lemma round_half_even_tie:
  assumes "\<bar>x - of_int (round_half_even x)\<bar> = 1/2"
  shows "even (round_half_even x)"
proof -
  define f where "f = \<lfloor>x\<rfloor>"
  have f: "of_int f \<le> x" "x < of_int f + 1"
    unfolding f_def by linarith+
  have "x - of_int f = 1/2"
  proof (rule ccontr)
    assume "x - of_int f \<noteq> 1/2"
    then consider "x - of_int f < 1/2" | "1/2 < x - of_int f" by linarith
    then show False
    proof cases
      case 1
      then have "round_half_even x = f" by (simp add: round_half_even_def Let_def f_def)
      with 1 f assms show False by simp
    next
      case 2
      then have "round_half_even x = f + 1" by (simp add: round_half_even_def Let_def f_def)
      with 2 f assms show False by (simp add: abs_if)
    qed
  qed
  then show ?thesis by (simp add: round_half_even_def Let_def f_def [symmetric])
qed

text \<open>
  C15: numpy's rounding to \<open>n\<close> decimals (\<open>Series.round\<close>, \<open>np.round\<close>) gives the
  multiple \<open>k / 10\<^sup>n\<close> nearest to the value: \<open>k\<close> is within half a unit of
  \<open>a 10\<^sup>n\<close>, and at an exact tie it is the even one (12.5 rounds to 12, 13.5 to 14).
\<close>

theorem fround_nearest_even:
  "\<exists>k. fround n (Fin a) = Fin (of_int k / 10 ^ n) \<and> \<bar>a * 10 ^ n - of_int k\<bar> \<le> 1/2 \<and>
       (\<bar>a * 10 ^ n - of_int k\<bar> = 1/2 \<longrightarrow> even k)"
  using round_half_even_dist [of "a * 10 ^ n"] round_half_even_tie [of "a * 10 ^ n"] by auto

end
