(* ===== verification/PdSeries.thy ===== *)
theory PdSeries
  imports PyFloat
begin

text \<open>
  The pandas Series operations that the dashboard composes. A Series is an association
  list from index labels to values, in index order. Modelled here:
  \<^item> \<open>value_counts\<close>: \<open>Series.value_counts()\<close> on an object or integer column
    (\<open>sort=True\<close>, \<open>dropna=True\<close>): one entry per distinct present value, ordered by
    descending count; ties keep the order of first occurrence, as numpy's sort does on
    the handful of groups the dashboard has (an insertion sort below 17 elements);
  \<^item> \<open>value_counts_cat\<close>: \<open>value_counts(sort=False)\<close> on a Categorical column:
    every category, in category order, with its count, zero included;
  \<^item> \<open>value_counts_normalize\<close>: \<open>value_counts(normalize=True)\<close>;
  \<^item> \<open>index_union\<close>: \<open>Index.union\<close> with its default \<open>sort=None\<close>, which every
    binary operation on two Series uses to align its operands: equal indexes are kept,
    an empty one yields the other, and otherwise the union is sorted;
  \<^item> \<open>series_div\<close>, \<open>series_scale\<close>, \<open>series_round\<close>: \<open>s / t\<close>, \<open>s * c\<close>,
    \<open>s.round(n)\<close>, a label missing on one side reading as \<open>NaN\<close>;
  \<^item> \<open>frame_of\<close>: \<open>pd.DataFrame({name: series, ...})\<close>, rows indexed by
    \<open>union_indexes\<close> of the columns' indexes (\<open>frame_index\<close>): the common index
    when all are equal, and otherwise the sorted union, an empty index included.
\<close>

type_synonym ('k, 'v) series = "('k \<times> 'v) list"

definition value_counts :: "'a column \<Rightarrow> ('a, nat) series" where
  "value_counts col =
     (let vs = dropna col
      in sort_key (\<lambda>(v, c). - int c) (map (\<lambda>v. (v, count_list vs v)) (unique vs)))"

definition value_counts_cat :: "'a list \<Rightarrow> 'a column \<Rightarrow> ('a, nat) series" where
  "value_counts_cat cats col = map (\<lambda>c. (c, count_list (dropna col) c)) cats"

definition as_float :: "('k, nat) series \<Rightarrow> ('k, fval) series" where
  "as_float s = map (\<lambda>(k, c). (k, Fin (of_nat c))) s"

definition value_counts_normalize :: "'a column \<Rightarrow> ('a, fval) series" where
  "value_counts_normalize col =
     (let vc = value_counts col; n = sum_list (map snd vc)
      in map (\<lambda>(k, c). (k, fdiv (Fin (of_nat c)) (Fin (of_nat n)))) vc)"

definition series_get :: "('k, fval) series \<Rightarrow> 'k \<Rightarrow> fval" where
  "series_get s k = (case map_of s k of None \<Rightarrow> NaN | Some v \<Rightarrow> v)"

definition index_union :: "'k::linorder list \<Rightarrow> 'k list \<Rightarrow> 'k list" where
  "index_union a b =
     (if a = b \<or> b = [] then a else if a = [] then b else sort (remdups (a @ b)))"

definition series_binop ::
  "(fval \<Rightarrow> fval \<Rightarrow> fval) \<Rightarrow> ('k::linorder, fval) series \<Rightarrow> ('k, fval) series \<Rightarrow> ('k, fval) series"
where
  "series_binop f s t =
     map (\<lambda>k. (k, f (series_get s k) (series_get t k))) (index_union (map fst s) (map fst t))"

definition series_div :: "('k::linorder, fval) series \<Rightarrow> ('k, fval) series \<Rightarrow> ('k, fval) series" where
  "series_div s t = series_binop fdiv s t"

definition series_scale :: "rat \<Rightarrow> ('k, fval) series \<Rightarrow> ('k, fval) series" where
  "series_scale c s = map (\<lambda>(k, v). (k, fmul v (Fin c))) s"

definition series_round :: "nat \<Rightarrow> ('k, fval) series \<Rightarrow> ('k, fval) series" where
  "series_round n s = map (\<lambda>(k, v). (k, fround n v)) s"

text \<open>
  A count read through an aligned index: a label that \<open>value_counts\<close> did not produce
  (count zero) reads as \<open>NaN\<close>.
\<close>

definition count_cell :: "nat \<Rightarrow> fval" where
  "count_cell n = (if n = 0 then NaN else Fin (of_nat n))"

definition frame_index :: "'k::linorder list list \<Rightarrow> 'k list" where
  "frame_index ixs =
     (case ixs of [] \<Rightarrow> [] | i # is \<Rightarrow> if list_all (\<lambda>j. j = i) is then i else sort (remdups (concat ixs)))"

definition frame_of :: "('k::linorder, fval) series list \<Rightarrow> ('k \<times> fval list) list" where
  "frame_of cols =
     map (\<lambda>k. (k, map (\<lambda>s. series_get s k) cols)) (frame_index (map (map fst) cols))"

subsection \<open>value_counts\<close>

lemma value_counts_mset:
  "mset (value_counts col) = mset (map (\<lambda>v. (v, count_list (dropna col) v)) (unique (dropna col)))"
  by (simp add: value_counts_def Let_def)

lemma value_counts_keys: "set (map fst (value_counts col)) = set (dropna col)"
  by (simp add: value_counts_def Let_def image_image)
lemma value_counts_fst_set [simp]: "fst ` set (value_counts col) = set (dropna col)"
  using value_counts_keys [of col] by simp

lemma value_counts_distinct: "distinct (map fst (value_counts col))"
proof -
  let ?ref = "map (\<lambda>v. (v, count_list (dropna col) v)) (unique (dropna col))"
  have "mset (map fst (value_counts col)) = mset (map fst ?ref)"
    by (simp only: mset_map value_counts_mset)
  moreover have "distinct (map fst ?ref)"
    by (simp add: comp_def)
  ultimately show ?thesis
    by (metis mset_eq_imp_distinct_iff)
qed

lemma value_counts_lookup:
  "map_of (value_counts col) v =
     (if v \<in> set (dropna col) then Some (count_list (dropna col) v) else None)"
proof -
  let ?ref = "map (\<lambda>v. (v, count_list (dropna col) v)) (unique (dropna col))"
  have "set (value_counts col) = set ?ref"
    by (metis set_mset_mset value_counts_mset)
  moreover have "distinct (map fst ?ref)"
    by (simp add: comp_def)
  ultimately have "map_of (value_counts col) = map_of ?ref"
    using value_counts_distinct map_of_inject_set by blast
  then show ?thesis by (simp only: map_of_map_keys set_unique)
qed

lemma value_counts_sum_counts: "sum_list (map snd (value_counts col)) = length (dropna col)"
proof -
  let ?ref = "map (\<lambda>v. (v, count_list (dropna col) v)) (unique (dropna col))"
  have "sum_list (map snd (value_counts col)) = sum_mset (mset (map snd (value_counts col)))"
    by (simp only: sum_mset_sum_list)
  also have "\<dots> = sum_mset (mset (map snd ?ref))"
    by (simp only: mset_map value_counts_mset)
  also have "\<dots> = sum_list (map snd ?ref)"
    by (simp only: sum_mset_sum_list)
  also have "\<dots> = length (dropna col)"
    by (simp add: comp_def sum_list_count_unique)
  finally show ?thesis .
qed

lemma value_counts_sorted: "sorted_wrt (\<lambda>a b. snd b \<le> snd a) (value_counts col)"
proof -
  have "sorted (map (\<lambda>(v, c). - int c) (value_counts col))"
    by (simp add: value_counts_def Let_def)
  then show ?thesis
    by (simp add: sorted_map case_prod_beta)
qed

lemma value_counts_cat_lookup:
  "distinct cats \<Longrightarrow> c \<in> set cats \<Longrightarrow> map_of (value_counts_cat cats col) c = Some (count_list (dropna col) c)"
  by (simp add: value_counts_cat_def)

lemma value_counts_cat_sum:
  "distinct cats \<Longrightarrow> set (dropna col) \<subseteq> set cats \<Longrightarrow>
     sum_list (map snd (value_counts_cat cats col)) = length (dropna col)"
  by (simp add: value_counts_cat_def comp_def sum_list_count_distinct)

subsection \<open>Alignment\<close>

lemma set_index_union [simp]: "set (index_union a b) = set a \<union> set b"
  by (auto simp: index_union_def)

lemma distinct_index_union: "distinct a \<Longrightarrow> distinct b \<Longrightarrow> distinct (index_union a b)"
  by (simp add: index_union_def)

lemma index_union_differ:
  "a \<noteq> b \<Longrightarrow> a \<noteq> [] \<Longrightarrow> b \<noteq> [] \<Longrightarrow> index_union a b = sort (remdups (a @ b))"
  by (simp add: index_union_def)

lemma index_union_sorted:
  "a \<noteq> b \<Longrightarrow> a \<noteq> [] \<Longrightarrow> b \<noteq> [] \<Longrightarrow> index_union a b = sorted_list_of_set (set a \<union> set b)"
  by (simp add: index_union_def flip: sorted_list_of_set_sort_remdups)

lemma index_union_self [simp]: "index_union a a = a"
  by (simp add: index_union_def)

lemma series_get_map [simp]:
  "series_get (map (\<lambda>k. (k, f k)) ks) k = (if k \<in> set ks then f k else NaN)"
  by (simp add: series_get_def)

lemma series_get_as_float:
  "series_get (as_float s) k = (case map_of s k of None \<Rightarrow> NaN | Some c \<Rightarrow> Fin (of_nat c))"
proof (induction s)
  case Nil
  then show ?case by (simp add: as_float_def series_get_def)
next
  case (Cons p s)
  then show ?case by (cases p) (simp add: as_float_def series_get_def)
qed

lemma keys_as_float [simp]: "map fst (as_float s) = map fst s"
  by (induction s) (auto simp: as_float_def)

lemma series_get_binop:
  "series_get (series_binop f s t) k =
     (if k \<in> set (map fst s) \<union> set (map fst t) then f (series_get s k) (series_get t k) else NaN)"
  unfolding series_binop_def by (simp del: set_map)

lemma keys_series_binop [simp]:
  "map fst (series_binop f s t) = index_union (map fst s) (map fst t)"
  by (simp add: series_binop_def comp_def)

lemma series_get_scale:
  "series_get (series_scale c s) k = (case map_of s k of None \<Rightarrow> NaN | Some v \<Rightarrow> fmul v (Fin c))"
proof (induction s)
  case Nil
  then show ?case by (simp add: series_scale_def series_get_def)
next
  case (Cons p s)
  then show ?case by (cases p) (simp add: series_scale_def series_get_def)
qed

lemma series_get_round:
  "series_get (series_round n s) k = fround n (series_get s k)"
proof (induction s)
  case Nil
  then show ?case by (simp add: series_round_def series_get_def)
next
  case (Cons p s)
  then show ?case by (cases p) (simp add: series_round_def series_get_def)
qed

lemma keys_series_scale [simp]: "map fst (series_scale c s) = map fst s"
  by (induction s) (auto simp: series_scale_def)

lemma keys_series_round [simp]: "map fst (series_round n s) = map fst s"
  by (induction s) (auto simp: series_round_def)

lemma fst_set_as_float [simp]: "fst ` set (as_float s) = fst ` set s"
  using keys_as_float [of s] by (metis set_map)

lemma fst_set_series_scale [simp]: "fst ` set (series_scale c s) = fst ` set s"
  using keys_series_scale [of c s] by (metis set_map)

lemma fst_set_series_round [simp]: "fst ` set (series_round n s) = fst ` set s"
  using keys_series_round [of n s] by (metis set_map)

lemma fst_set_series_binop [simp]:
  "fst ` set (series_binop f s t) = fst ` set s \<union> fst ` set t"
  using keys_series_binop [of f s t] by (metis set_index_union set_map)

lemma map_of_series_get:
  "map_of s k \<noteq> None \<Longrightarrow> map_of s k = Some (series_get s k)"
  by (auto simp: series_get_def)

lemma series_get_value_counts:
  "series_get (as_float (value_counts col)) k = count_cell (count_list (dropna col) k)"
  by (simp add: series_get_as_float value_counts_lookup count_cell_def count_list_0_iff)

lemma series_get_value_counts_cat:
  "distinct cats \<Longrightarrow> k \<in> set cats \<Longrightarrow>
     series_get (as_float (value_counts_cat cats col)) k = Fin (of_nat (count_list (dropna col) k))"
  by (simp add: series_get_as_float value_counts_cat_lookup)

lemma keys_value_counts_cat [simp]: "map fst (value_counts_cat cats col) = cats"
  by (simp add: value_counts_cat_def comp_def)

subsection \<open>DataFrame assembly\<close>

lemma set_frame_index [simp]: "set (frame_index ixs) = \<Union> (set ` set ixs)"
  by (cases ixs) (auto simp: frame_index_def list_all_iff)

lemma distinct_frame_index: "\<forall>i\<in>set ixs. distinct i \<Longrightarrow> distinct (frame_index ixs)"
  by (cases ixs) (simp_all add: frame_index_def)

lemma frame_index_differ:
  "\<not> list_all (\<lambda>j. j = i) is \<Longrightarrow> frame_index (i # is) = sorted_list_of_set (\<Union> (set ` set (i # is)))"
  by (simp add: frame_index_def sorted_list_of_set_sort_remdups [symmetric])

lemma keys_frame_of [simp]: "map fst (frame_of cols) = frame_index (map (map fst) cols)"
  by (simp add: frame_of_def comp_def)

lemma fst_set_frame_of [simp]: "fst ` set (frame_of cols) = (\<Union>s\<in>set cols. fst ` set s)"
  by (simp add: frame_of_def image_image)

lemma frame_of_mem:
  "(k, vals) \<in> set (frame_of cols) \<Longrightarrow>
     vals = map (\<lambda>s. series_get s k) cols \<and> k \<in> (\<Union>s\<in>set cols. fst ` set s)"
  by (auto simp: frame_of_def)

lemma map_of_frame_of:
  "map_of (frame_of cols) k =
     (if k \<in> (\<Union>s\<in>set cols. set (map fst s)) then Some (map (\<lambda>s. series_get s k) cols) else None)"
  by (simp add: frame_of_def)

lemma frame_index_same: "\<forall>j\<in>set is. j = i \<Longrightarrow> frame_index (i # is) = i"
  by (simp add: frame_index_def list_all_iff)

lemma keys_value_counts_normalize [simp]:
  "map fst (value_counts_normalize col) = map fst (value_counts col)"
  by (simp add: value_counts_normalize_def Let_def comp_def split_def)

lemma map_of_value_counts_normalize:
  "map_of (value_counts_normalize col) k =
     (if k \<in> set (dropna col)
      then Some (Fin (of_nat (count_list (dropna col) k) / of_nat (length (dropna col)))) else None)"
proof -
  have n: "sum_list (map snd (value_counts col)) = length (dropna col)"
    by (rule value_counts_sum_counts)
  have "map_of (value_counts_normalize col) k =
          map_option (\<lambda>c. fdiv (Fin (of_nat c)) (Fin (of_nat (length (dropna col))))) (map_of (value_counts col) k)"
    unfolding value_counts_normalize_def Let_def n map_of_map by (simp only: comp_def)
  moreover have "Some k \<in> set col \<Longrightarrow> dropna col \<noteq> []"
    by (induction col) (auto split: option.splits)
  ultimately show ?thesis
    by (auto simp: value_counts_lookup)
qed

lemma value_counts_mem:
  "(v, c) \<in> set (value_counts col) \<Longrightarrow> v \<in> set (dropna col) \<and> c = count_list (dropna col) v"
  using value_counts_lookup [of col v] value_counts_distinct [of col]
  by (simp split: if_splits)

text \<open>
  C11: \<open>value_counts\<close> lists each value present in the column once, with the number of
  its occurrences, in order of non-increasing count.
\<close>

theorem value_counts_correct:
  "distinct (map fst (value_counts col)) \<and>
   set (map fst (value_counts col)) = set (dropna col) \<and>
   map snd (value_counts col) = map (count_list (dropna col)) (map fst (value_counts col)) \<and>
   sorted_wrt (\<lambda>a b. snd b \<le> snd a) (value_counts col)"
proof -
  have "map snd (value_counts col) = map (count_list (dropna col)) (map fst (value_counts col))"
  proof (rule nth_equalityI)
    fix i assume i: "i < length (map snd (value_counts col))"
    obtain v c where vc: "value_counts col ! i = (v, c)" by fastforce
    from i vc have "(v, c) \<in> set (value_counts col)" by (metis length_map nth_mem)
    then have "map_of (value_counts col) v = Some c"
      by (rule map_of_is_SomeI [OF value_counts_distinct])
    then have "c = count_list (dropna col) v"
      by (simp add: value_counts_lookup split: if_splits)
    with vc i show
      "map snd (value_counts col) ! i = map (count_list (dropna col)) (map fst (value_counts col)) ! i"
      by simp
  qed simp
  then show ?thesis
    by (intro conjI value_counts_distinct value_counts_keys value_counts_sorted)
qed

end
