(* ===== verification/Cut.thy ===== *)
theory Cut
  imports Prelude
begin

text \<open>
  \<open>pd.cut(x, bins, labels)\<close> with its defaults \<open>right=True\<close>,
  \<open>include_lowest=False\<close>, \<open>ordered=True\<close>, \<open>duplicates='raise'\<close>, as pandas
  implements it (\<open>pandas/core/reshape/tile.py\<close>, \<open>cut\<close> and \<open>_bins_to_cuts\<close>):
  the four \<open>ValueError\<close>s it raises on the bins and labels, in the order it checks them,
  are the \<open>Inl\<close> values of \<open>pd_cut\<close>; each value is placed with numpy's binary
  search \<open>searchsorted(side='left')\<close>, and a value whose position is \<open>0\<close> or
  \<open>len(bins)\<close> (at or below the first edge, above the last, or missing) gets no bin.
  \<open>bucket_of\<close> is the interval reading of the same bins, \<open>(b\<^sub>i, b\<^sub>i\<^sub>+\<^sub>1]\<close>;
  the lemmas prove that the binary search counts the edges below the value and that
  the implementation assigns exactly the interval bucket.
\<close>

datatype cut_error = BinsNotMonotonic | BinEdgesNotUnique | LabelsNotUnique | LabelsLengthMismatch

text \<open>numpy \<open>binsearch<side::left>\<close>: the loop on \<open>[min_idx, max_idx)\<close>.\<close>

function searchsorted_from :: "rat list \<Rightarrow> rat \<Rightarrow> nat \<Rightarrow> nat \<Rightarrow> nat" where
  "searchsorted_from a x lo hi =
     (if lo < hi then
        (let mid = lo + (hi - lo) div 2
         in if a ! mid < x then searchsorted_from a x (Suc mid) hi else searchsorted_from a x lo mid)
      else lo)"
  by pat_completeness auto
termination
  by (relation "measure (\<lambda>(a, x, lo, hi). hi - lo)") auto

declare searchsorted_from.simps [simp del]

definition searchsorted_left :: "rat list \<Rightarrow> rat \<Rightarrow> nat" where
  "searchsorted_left a x = searchsorted_from a x 0 (length a)"

definition cut_value :: "rat list \<Rightarrow> 'l list \<Rightarrow> rat option \<Rightarrow> 'l option" where
  "cut_value bins labels x =
     (case x of
        None \<Rightarrow> None
      | Some v \<Rightarrow>
          (let i = searchsorted_left bins v
           in if i = 0 \<or> i = length bins then None else Some (labels ! (i - 1))))"

definition pd_cut :: "rat list \<Rightarrow> 'l list \<Rightarrow> rat column \<Rightarrow> cut_error + 'l column" where
  "pd_cut bins labels xs =
     (if \<not> sorted bins then Inl BinsNotMonotonic
      else if \<not> distinct bins \<and> length bins \<noteq> 2 then Inl BinEdgesNotUnique
      else if \<not> distinct labels then Inl LabelsNotUnique
      else if int (length labels) \<noteq> int (length bins) - 1 then Inl LabelsLengthMismatch
      else Inr (map (cut_value bins labels) xs))"

text \<open>The specification of a bin: the half-open interval \<open>(b\<^sub>i, b\<^sub>i\<^sub>+\<^sub>1]\<close> holding the value.\<close>

fun bucket_of :: "rat list \<Rightarrow> rat \<Rightarrow> nat option" where
  "bucket_of (a # b # bs) v = (if a < v \<and> v \<le> b then Some 0 else map_option Suc (bucket_of (b # bs) v))"
| "bucket_of _ v = None"

subsection \<open>The binary search counts the edges below the value\<close>

lemma length_filter_prefix:
  assumes "k \<le> length a" "\<forall>i<k. P (a ! i)" "\<forall>i. k \<le> i \<and> i < length a \<longrightarrow> \<not> P (a ! i)"
  shows "length (filter P a) = k"
proof -
  have "filter P (take k a) = take k a"
    using assms(2) by (auto simp: filter_id_conv in_set_conv_nth)
  moreover have "filter P (drop k a) = []"
    using assms(3) by (auto simp: filter_empty_conv in_set_conv_nth)
  ultimately have "filter P a = take k a"
    by (metis append_Nil2 append_take_drop_id filter_append)
  with assms(1) show ?thesis by simp
qed

lemma searchsorted_from_count:
  assumes "sorted a" "lo \<le> hi" "hi \<le> length a"
    "\<forall>i<lo. a ! i < x" "\<forall>i. hi \<le> i \<and> i < length a \<longrightarrow> x \<le> a ! i"
  shows "searchsorted_from a x lo hi = length (filter (\<lambda>b. b < x) a)"
  using assms
proof (induction a x lo hi rule: searchsorted_from.induct)
  case (1 a x lo hi)
  show ?case
  proof (cases "lo < hi")
    case False
    with "1.prems" have "lo = hi" by simp
    with "1.prems" have "length (filter (\<lambda>b. b < x) a) = lo"
      by (intro length_filter_prefix) auto
    with False show ?thesis by (simp add: searchsorted_from.simps)
  next
    case True
    define mid where "mid = lo + (hi - lo) div 2"
    have mid: "lo \<le> mid" "mid < hi" using True by (simp_all add: mid_def)
    show ?thesis
    proof (cases "a ! mid < x")
      case less: True
      have "\<forall>i<Suc mid. a ! i < x"
      proof (intro allI impI)
        fix i assume "i < Suc mid"
        then have "a ! i \<le> a ! mid"
          using "1.prems"(1,3) mid by (intro sorted_nth_mono) auto
        with less show "a ! i < x" by simp
      qed
      with "1.IH"(1) [OF True mid_def less] "1.prems" mid have
        "searchsorted_from a x (Suc mid) hi = length (filter (\<lambda>b. b < x) a)"
        by simp
      with True less show ?thesis
        by (simp add: searchsorted_from.simps [of a x lo hi] mid_def Let_def)
    next
      case geq: False
      have "\<forall>i. mid \<le> i \<and> i < length a \<longrightarrow> x \<le> a ! i"
      proof (intro allI impI)
        fix i assume "mid \<le> i \<and> i < length a"
        then have "a ! mid \<le> a ! i"
          using "1.prems"(1) by (intro sorted_nth_mono) auto
        with geq show "x \<le> a ! i" by simp
      qed
      with "1.IH"(2) [OF True mid_def geq] "1.prems" mid have
        "searchsorted_from a x lo mid = length (filter (\<lambda>b. b < x) a)"
        by simp
      with True geq show ?thesis
        by (simp add: searchsorted_from.simps [of a x lo hi] mid_def Let_def)
    qed
  qed
qed

lemma searchsorted_full_range:
  "sorted a \<Longrightarrow> searchsorted_from a x 0 (length a) = length (filter (\<lambda>b. b < x) a)"
  by (rule searchsorted_from_count) auto

subsection \<open>Interval specification of the bins\<close>

lemma filter_below_first:
  fixes l :: "rat list"
  assumes "sorted_wrt (<) (a # l)" "v \<le> a"
  shows "filter (\<lambda>b. b < v) l = []"
proof -
  have "\<not> b < v" if "b \<in> set l" for b
  proof -
    from assms(1) that have "a < b" by simp
    with assms(2) show ?thesis by linarith
  qed
  then show ?thesis by (simp add: filter_empty_conv)
qed

lemma bucket_of_count:
  "sorted_wrt (<) bins \<Longrightarrow>
     bucket_of bins v =
       (let c = length (filter (\<lambda>b. b < v) bins)
        in if c = 0 \<or> c = length bins then None else Some (c - 1))"
proof (induction bins v rule: bucket_of.induct)
  case (1 a b bs v)
  have IH: "bucket_of (b # bs) v =
      (let c = length (filter (\<lambda>b. b < v) (b # bs))
       in if c = 0 \<or> c = length (b # bs) then None else Some (c - 1))"
    if "\<not> (a < v \<and> v \<le> b)"
    using "1.IH" [OF that] "1.prems" by simp
  show ?case
  proof (cases "a < v")
    case False
    with "1.prems" have "filter (\<lambda>b. b < v) (b # bs) = []"
      by (intro filter_below_first) auto
    with False IH show ?thesis by (simp add: Let_def)
  next
    case True
    show ?thesis
    proof (cases "v \<le> b")
      case True
      with "1.prems" have "filter (\<lambda>b. b < v) bs = []"
        by (intro filter_below_first [of b]) auto
      with True \<open>a < v\<close> show ?thesis by (simp add: Let_def)
    next
      case False
      with \<open>a < v\<close> IH show ?thesis by (auto simp: Let_def)
    qed
  qed
qed (auto simp: Let_def)

lemma bucket_of_Some_iff:
  "sorted_wrt (<) bins \<Longrightarrow>
     bucket_of bins v = Some i \<longleftrightarrow> Suc i < length bins \<and> bins ! i < v \<and> v \<le> bins ! Suc i"
proof (induction bins v arbitrary: i rule: bucket_of.induct)
  case (1 a b bs v)
  show ?case
  proof (cases i)
    case 0
    have "bucket_of (b # bs) v = None" if "v \<le> b"
    proof -
      from "1.prems" have s: "sorted_wrt (<) (b # bs)" by simp
      from s that have "filter (\<lambda>x. x < v) bs = []" by (rule filter_below_first)
      with s that show ?thesis by (simp add: bucket_of_count Let_def)
    qed
    with 0 show ?thesis by auto
  next
    case (Suc j)
    have b_le: "b \<le> (b # bs) ! j" if "j < length (b # bs)"
    proof -
      from "1.prems" have "sorted_wrt (<) (b # bs)" by simp
      then have "sorted (b # bs)" by (rule strict_sorted_imp_sorted)
      with that have "(b # bs) ! 0 \<le> (b # bs) ! j" by (intro sorted_nth_mono) simp_all
      then show ?thesis by simp
    qed
    show ?thesis
    proof (cases "a < v \<and> v \<le> b")
      case True
      with Suc b_le show ?thesis by fastforce
    next
      case False
      with "1.IH" [OF False, of j] "1.prems" Suc show ?thesis by auto
    qed
  qed
qed auto

text \<open>The implementation places a value in the interval bucket.\<close>

lemma cut_value_bucket:
  "sorted_wrt (<) bins \<Longrightarrow>
     cut_value bins labels (Some v) = map_option (\<lambda>i. labels ! i) (bucket_of bins v)"
  by (simp add: cut_value_def searchsorted_left_def searchsorted_full_range strict_sorted_imp_sorted
      bucket_of_count Let_def)

lemma cut_value_None [simp]: "cut_value bins labels None = None"
  by (simp add: cut_value_def)

lemma cut_value_Some_iff:
  "sorted_wrt (<) bins \<Longrightarrow>
     cut_value bins labels (Some v) = Some l \<longleftrightarrow>
       (\<exists>i. Suc i < length bins \<and> bins ! i < v \<and> v \<le> bins ! Suc i \<and> l = labels ! i)"
  by (auto simp: cut_value_bucket bucket_of_Some_iff)

lemma cut_value_outside:
  "sorted_wrt (<) bins \<Longrightarrow> bins \<noteq> [] \<Longrightarrow> v \<le> hd bins \<or> last bins < v \<Longrightarrow>
     cut_value bins labels (Some v) = None"
proof -
  assume s: "sorted_wrt (<) bins" and ne: "bins \<noteq> []" and out: "v \<le> hd bins \<or> last bins < v"
  have "\<not> (Suc i < length bins \<and> bins ! i < v \<and> v \<le> bins ! Suc i)" for i
  proof
    assume i: "Suc i < length bins \<and> bins ! i < v \<and> v \<le> bins ! Suc i"
    then have "hd bins \<le> bins ! i" "bins ! Suc i \<le> last bins"
      using s ne by (auto simp: hd_conv_nth last_conv_nth intro!: sorted_nth_mono strict_sorted_imp_sorted)
    with i out show False by auto
  qed
  with s show ?thesis
    by (cases "cut_value bins labels (Some v)") (auto simp: cut_value_Some_iff)
qed

lemma bucket_of_defined:
  "sorted_wrt (<) bins \<Longrightarrow>
     bucket_of bins v \<noteq> None \<longleftrightarrow> 2 \<le> length bins \<and> hd bins < v \<and> v \<le> last bins"
proof (induction bins v rule: bucket_of.induct)
  case (1 a b bs v)
  show ?case
  proof (cases "a < v \<and> v \<le> b")
    case True
    have "b \<le> last (b # bs)"
      using "1.prems" by (cases bs) (auto simp: last_in_set less_imp_le)
    with True show ?thesis by simp
  next
    case False
    with "1.IH" "1.prems" have IH: "bucket_of (b # bs) v \<noteq> None \<longleftrightarrow>
        2 \<le> length (b # bs) \<and> b < v \<and> v \<le> last (b # bs)"
      by simp
    from "1.prems" have "a < b" by simp
    with False IH show ?thesis by (cases bs) auto
  qed
qed auto

lemma cut_value_defined:
  "sorted_wrt (<) bins \<Longrightarrow>
     cut_value bins labels (Some v) \<noteq> None \<longleftrightarrow> 2 \<le> length bins \<and> hd bins < v \<and> v \<le> last bins"
  using bucket_of_defined [of bins v] by (simp add: cut_value_bucket)

subsection \<open>Errors of pd.cut\<close>

lemma pd_cut_Inr:
  "sorted_wrt (<) bins \<Longrightarrow> distinct labels \<Longrightarrow> Suc (length labels) = length bins \<Longrightarrow>
     pd_cut bins labels xs = Inr (map (cut_value bins labels) xs)"
  by (auto simp: pd_cut_def strict_sorted_imp_sorted strict_sorted_iff)

lemma pd_cut_length:
  "pd_cut bins labels xs = Inr ys \<Longrightarrow> length ys = length xs"
  by (auto simp: pd_cut_def split: if_splits)

lemma pd_cut_nth:
  "pd_cut bins labels xs = Inr ys \<Longrightarrow> i < length xs \<Longrightarrow> ys ! i = cut_value bins labels (xs ! i)"
  by (auto simp: pd_cut_def split: if_splits)

subsection \<open>Properties of pd.cut\<close>

text \<open>
  C5: numpy's binary search \<open>searchsorted(side='left')\<close>, on sorted edges, returns the
  number of edges strictly below the value: the optimised routine computes the linear
  count it stands for.
\<close>

theorem searchsorted_left_count:
  "sorted a \<Longrightarrow> searchsorted_left a x = length (filter (\<lambda>b. b < x) a)"
  unfolding searchsorted_left_def by (rule searchsorted_from_count) auto

text \<open>
  C6: on strictly increasing edges with distinct labels, one fewer than the edges,
  \<open>pd.cut\<close> succeeds and labels every value with the interval
  \<open>(b\<^sub>i, b\<^sub>i\<^sub>+\<^sub>1]\<close> that holds it; a missing value or one outside all intervals
  gets no label.
\<close>

theorem pd_cut_refines_intervals:
  assumes "sorted_wrt (<) bins" "distinct labels" "Suc (length labels) = length bins"
  shows "pd_cut bins labels xs =
           Inr (map (\<lambda>x. Option.bind x (\<lambda>v. map_option (\<lambda>i. labels ! i) (bucket_of bins v))) xs)"
proof -
  have "cut_value bins labels x = Option.bind x (\<lambda>v. map_option (\<lambda>i. labels ! i) (bucket_of bins v))" for x
    using assms(1) by (cases x) (simp_all add: cut_value_bucket)
  with assms show ?thesis by (simp add: pd_cut_Inr)
qed

end
