(* ===== verification/PyBuiltins.thy ===== *)
theory PyBuiltins
  imports Prelude
begin

text \<open>
  The Python builtins the dashboard uses to build the heatmap's bins and labels
  (\<open>teleco_app.py\<close>, lines 152 to 154): \<open>range(start, stop, step)\<close>, which raises
  \<open>ValueError\<close> for a zero step, \<open>str\<close> of an integer (the f-string
  \<open>f"{i}-{i+step}"\<close>), and the slice \<open>bins[:-1]\<close>, which is \<open>butlast\<close>. A label is
  read back by \<open>parse_range_label\<close>; the round trip shows that distinct lower edges
  give distinct labels, which \<open>pd.cut\<close> requires of its labels.
  The heatmap panel (lines 159 to 163) also filters and renames columns with the string
  test \<open>'Churn' in col\<close> (\<open>str_contains\<close>) and \<open>col.replace(' Churn %', '')\<close>
  (\<open>str_replace\<close>, left-to-right replacement of non-overlapping occurrences; an empty
  pattern, which Python treats specially, is left unreplaced and does not occur here).
\<close>

datatype py_error = ValueError

definition py_range :: "int \<Rightarrow> int \<Rightarrow> int \<Rightarrow> py_error + int list" where
  "py_range start stop step =
     (if step = 0 then Inl ValueError
      else
        (let n = (if 0 < step then (stop - start + step - 1) div step
                  else (start - stop - step - 1) div (- step))
         in Inr (map (\<lambda>i. start + step * int i) [0..<nat n])))"

definition digit_char :: "nat \<Rightarrow> char" where
  "digit_char d = char_of (48 + d)"

fun py_str_nat :: "nat \<Rightarrow> string" where
  "py_str_nat n = (if n < 10 then [digit_char n] else py_str_nat (n div 10) @ [digit_char (n mod 10)])"

declare py_str_nat.simps [simp del]

definition py_str_int :: "int \<Rightarrow> string" where
  "py_str_int i = (if i < 0 then CHR ''-'' # py_str_nat (nat (- i)) else py_str_nat (nat i))"

definition range_label :: "int \<Rightarrow> int \<Rightarrow> string" where
  "range_label i step = py_str_int i @ ''-'' @ py_str_int (i + step)"

definition digit_value :: "char \<Rightarrow> nat" where
  "digit_value c = of_char c - 48"

definition parse_nat :: "string \<Rightarrow> nat" where
  "parse_nat s = foldl (\<lambda>acc c. 10 * acc + digit_value c) 0 s"

definition parse_range_label :: "string \<Rightarrow> int \<times> int" where
  "parse_range_label s =
     (int (parse_nat (takeWhile (\<lambda>c. c \<noteq> CHR ''-'') s)),
      int (parse_nat (drop 1 (dropWhile (\<lambda>c. c \<noteq> CHR ''-'') s))))"

text \<open>\<open>sub in s\<close> and \<open>s.replace(old, new)\<close> on strings.\<close>

fun str_contains :: "string \<Rightarrow> string \<Rightarrow> bool" where
  "str_contains sub [] = (sub = [])"
| "str_contains sub (c # s) = (take (length sub) (c # s) = sub \<or> str_contains sub s)"

function str_replace :: "string \<Rightarrow> string \<Rightarrow> string \<Rightarrow> string" where
  "str_replace old new [] = []"
| "str_replace old new (c # s) =
     (if old \<noteq> [] \<and> take (length old) (c # s) = old
      then new @ str_replace old new (drop (length old) (c # s))
      else c # str_replace old new s)"
  by pat_completeness auto
termination
  by (relation "measure (\<lambda>(old, new, s). length s)") auto

subsection \<open>range\<close>

lemma py_range_pos:
  "0 < step \<Longrightarrow>
     py_range start stop step = Inr (map (\<lambda>i. start + step * int i) [0..<nat ((stop - start + step - 1) div step)])"
  by (simp add: py_range_def)

lemma py_range_sorted:
  assumes "0 < step" "py_range start stop step = Inr xs"
  shows "sorted_wrt (<) xs"
proof -
  have s: "sorted_wrt (<) (map (\<lambda>i. start + step * int i) [0..<m])" for m
    unfolding sorted_wrt_iff_nth_less using assms(1) by auto
  from assms have "xs = map (\<lambda>i. start + step * int i) [0..<nat ((stop - start + step - 1) div step)]"
    by (simp add: py_range_pos)
  with s show ?thesis by simp
qed

lemma py_range_bounds:
  assumes "0 < step" "py_range start stop step = Inr xs" "x \<in> set xs"
  shows "start \<le> x \<and> x < stop"
proof -
  from assms obtain i where i: "i < nat ((stop - start + step - 1) div step)" "x = start + step * int i"
    by (auto simp: py_range_pos)
  then have "int i < (stop - start + step - 1) div step" by simp
  then have "int i + 1 \<le> (stop - start + step - 1) div step" by simp
  then have "step * (int i + 1) \<le> step * ((stop - start + step - 1) div step)"
    using assms(1) by simp
  also have "\<dots> \<le> stop - start + step - 1"
  proof -
    let ?q = "stop - start + step - 1"
    have "step * (?q div step) = ?q - ?q mod step" by (simp add: minus_mod_eq_mult_div)
    moreover have "0 \<le> ?q mod step" using assms(1) by simp
    ultimately show ?thesis by linarith
  qed
  finally have "step * int i < stop - start" by (simp add: algebra_simps)
  with i assms(1) show ?thesis by simp
qed

subsection \<open>str and the label round trip\<close>

lemma digit_char_simps [simp]:
  "digit_char 0 = CHR ''0''" "digit_char (Suc 0) = CHR ''1''" "digit_char 2 = CHR ''2''" "digit_char 3 = CHR ''3''"
  "digit_char 4 = CHR ''4''" "digit_char 5 = CHR ''5''" "digit_char 6 = CHR ''6''" "digit_char 7 = CHR ''7''"
  "digit_char 8 = CHR ''8''" "digit_char 9 = CHR ''9''"
  by code_simp+
lemma digit_value_digit_char [simp]: "d < 10 \<Longrightarrow> digit_value (digit_char d) = d"
  by (simp add: digit_value_def digit_char_def)

lemma digit_char_not_minus [simp]: "d < 10 \<Longrightarrow> digit_char d \<noteq> CHR ''-''"
proof
  assume "d < 10" "digit_char d = CHR ''-''"
  then have "of_char (digit_char d) = (of_char (CHR ''-'') :: nat)" by simp
  with \<open>d < 10\<close> show False by (simp add: digit_char_def)
qed

lemma minus_not_digit_char [simp]: "d < 10 \<Longrightarrow> CHR ''-'' \<noteq> digit_char d"
  using digit_char_not_minus by metis

lemma parse_nat_snoc: "parse_nat (s @ [c]) = 10 * parse_nat s + digit_value c"
  by (simp add: parse_nat_def)

lemma parse_py_str_nat [simp]: "parse_nat (py_str_nat n) = n"
proof (induction n rule: py_str_nat.induct)
  case (1 n)
  show ?case
  proof (cases "n < 10")
    case True
    then show ?thesis by (simp add: py_str_nat.simps [of n] parse_nat_def)
  next
    case False
    with "1.IH" show ?thesis by (simp add: py_str_nat.simps [of n] parse_nat_snoc)
  qed
qed

lemma minus_notin_py_str_nat [simp]: "CHR ''-'' \<notin> set (py_str_nat n)"
proof (induction n rule: py_str_nat.induct)
  case (1 n)
  then show ?case by (cases "n < 10") (simp_all add: py_str_nat.simps [of n])
qed

lemma parse_range_label:
  assumes "0 \<le> i" "0 \<le> i + step"
  shows "parse_range_label (range_label i step) = (i, i + step)"
proof -
  have t: "takeWhile (\<lambda>c. c \<noteq> CHR ''-'') (py_str_nat (nat i) @ rest) =
      py_str_nat (nat i) @ takeWhile (\<lambda>c. c \<noteq> CHR ''-'') rest" for rest
    by (rule takeWhile_append2) (use minus_notin_py_str_nat in blast)
  have d: "dropWhile (\<lambda>c. c \<noteq> CHR ''-'') (py_str_nat (nat i) @ rest) =
      dropWhile (\<lambda>c. c \<noteq> CHR ''-'') rest" for rest
    by (rule dropWhile_append2) (use minus_notin_py_str_nat in blast)
  show ?thesis
    using assms by (simp add: parse_range_label_def range_label_def py_str_int_def t d)
qed

lemma range_label_inj:
  assumes "\<forall>i\<in>set xs. 0 \<le> i" "0 \<le> step" "distinct xs"
  shows "distinct (map (\<lambda>i. range_label i step) xs)"
proof -
  have "inj_on (\<lambda>i. range_label i step) (set xs)"
  proof (rule inj_onI)
    fix a b assume "a \<in> set xs" "b \<in> set xs" "range_label a step = range_label b step"
    then have "parse_range_label (range_label a step) = parse_range_label (range_label b step)"
      by simp
    with assms(1,2) \<open>a \<in> set xs\<close> \<open>b \<in> set xs\<close> show "a = b"
      by (simp add: parse_range_label)
  qed
  with assms(3) show ?thesis by (simp add: distinct_map)
qed

subsection \<open>String search and replacement\<close>

lemma take_length_eq_iff: "take (length u) xs = u \<longleftrightarrow> (\<exists>v. xs = u @ v)"
  by (metis append_eq_conv_conj append_take_drop_id)

lemma str_contains_iff: "str_contains sub s \<longleftrightarrow> (\<exists>u v. s = u @ sub @ v)"
proof (induction s)
  case Nil
  then show ?case by simp
next
  case (Cons c s)
  have "(\<exists>u v. c # s = u @ sub @ v) \<longleftrightarrow> (\<exists>v. c # s = sub @ v) \<or> (\<exists>u v. s = u @ sub @ v)"
    by (auto simp: Cons_eq_append_conv)
  with Cons show ?case by (simp only: str_contains.simps take_length_eq_iff)
qed

lemma str_replace_no_match:
  assumes "old \<noteq> []" and "\<forall>p<length c. take (length old) (drop p (c @ old)) \<noteq> old"
  shows "str_replace old new (c @ old) = c @ new"
  using assms(2)
proof (induction c)
  case Nil
  from assms(1) obtain x xs where "old = x # xs" by (cases old) auto
  then show ?case by simp
next
  case (Cons x c)
  have "take (length old) (x # c @ old) \<noteq> old" using Cons.prems by (metis drop0 append_Cons length_Cons zero_less_Suc)
  moreover have "\<forall>p<length c. take (length old) (drop p (c @ old)) \<noteq> old"
    using Cons.prems by fastforce
  ultimately show ?case using Cons.IH by simp
qed

lemma churn_suffix_no_match:
  assumes "\<not> str_contains ''Churn'' c"
  shows "\<forall>p<length c. take (length '' Churn %'') (drop p (c @ '' Churn %'')) \<noteq> '' Churn %''"
proof (intro allI impI notI)
  fix p assume p: "p < length c" and m: "take (length '' Churn %'') (drop p (c @ '' Churn %'')) = '' Churn %''"
  let ?u = "drop p c"
  have l: "length '' Churn %'' = 8" by simp
  have d: "drop p (c @ '' Churn %'') = ?u @ '' Churn %''" using p by simp
  have m': "take 8 (?u @ '' Churn %'') = '' Churn %''" using m by (simp only: l d)
  show False
  proof (cases "8 \<le> length ?u")
    case True
    with m' have "take 8 ?u = '' Churn %''" by simp
    then have "c = (take p c @ '' '') @ ''Churn'' @ ('' %'' @ drop 8 ?u)"
      by (metis append_take_drop_id append.assoc append_Cons append_Nil)
    with assms show False by (metis str_contains_iff)
  next
    case False
    let ?k = "length ?u"
    have k: "?k \<in> set [1..<8]" using False p by simp
    from m' False have "?u @ take (8 - ?k) '' Churn %'' = '' Churn %''" by simp
    then have "take (8 - ?k) '' Churn %'' = drop ?k '' Churn %''"
      by (metis append_eq_conv_conj)
    with k show False by (auto simp del: upt_Suc simp: upt_rec)
  qed
qed

lemma churn_suffix_roundtrip:
  "\<not> str_contains ''Churn'' c \<Longrightarrow> str_replace '' Churn %'' [] (c @ '' Churn %'') = c"
  using str_replace_no_match [OF _ churn_suffix_no_match] by simp

end
