(* ===== verification/Frame.thy ===== *)
theory Frame
  imports PdSeries Cut PyBuiltins
begin

text \<open>
  The table the dashboard works on and the columns it derives
  (\<open>src/streamlit_dash/teleco_app.py\<close>). A row of \<open>telecom_churned_data.csv\<close> is
  the record \<open>customer\<close>: object columns are \<open>string option\<close> (\<open>None\<close> is a missing
  cell), the float columns \<open>MonthlyCharges\<close> and \<open>TotalCharges\<close> are
  \<open>rat option\<close>, and the integer columns \<open>CitizensStatus\<close> and \<open>tenure\<close>, which
  \<open>describe()\<close> reads as numbers and which an int64 column cannot leave empty, are
  \<open>int\<close>. \<open>load_data\<close> (lines 12 to 17) adds \<open>ChurnBinary\<close> and \<open>ChargeRange\<close>,
  giving a \<open>drow\<close>; the heatmap panel (lines 152 to 155) later adds
  \<open>TotalChargeRange\<close> to the same frame, giving an \<open>hrow\<close>. Each derivation either
  fails as a whole with the error \<open>pd.cut\<close> or \<open>range\<close> raises or yields one
  derived row per input row.
\<close>

record customer =
  customerID :: "string option"
  gender :: "string option"
  CitizensStatus :: int
  tenure :: int
  Contract :: "string option"
  TechSupport :: "string option"
  InternetService :: "string option"
  PaymentMethod :: "string option"
  MonthlyCharges :: "rat option"
  TotalCharges :: "rat option"
  Churn :: "string option"

record drow = customer +
  ChurnBinary :: "int option"
  ChargeRange :: "string option"

record hrow = drow +
  TotalChargeRange :: "string option"

datatype heat_error = RangeError py_error | BinError cut_error

text \<open>\<open>df['Churn'].map({'No': 0, 'Yes': 1})\<close>: a value outside the dictionary, or a
  missing one, becomes \<open>NaN\<close>.\<close>

definition churn_map :: "string option \<Rightarrow> int option" where
  "churn_map c = Option.bind c (map_of [(''No'', 0), (''Yes'', 1)])"

definition charge_bins :: "rat list" where
  "charge_bins = [0, 20, 40, 60, 80, 100, 120]"

definition charge_labels :: "string list" where
  "charge_labels = [''0-20'', ''21-40'', ''41-60'', ''61-80'', ''81-100'', ''101-120'']"

definition derive_row :: "customer \<Rightarrow> string option \<Rightarrow> drow" where
  "derive_row r cr = customer.extend r (drow.fields (churn_map (Churn r)) cr)"

definition load_data :: "customer list \<Rightarrow> cut_error + drow list" where
  "load_data df =
     (case pd_cut charge_bins charge_labels (map MonthlyCharges df) of
        Inl e \<Rightarrow> Inl e
      | Inr charge_range \<Rightarrow> Inr (map2 derive_row df charge_range))"

definition heat_step :: int where
  "heat_step = 500"

definition heat_bins :: "py_error + int list" where
  "heat_bins = py_range 0 9500 heat_step"

definition heat_labels :: "int list \<Rightarrow> string list" where
  "heat_labels bins = map (\<lambda>i. range_label i heat_step) (butlast bins)"

definition add_total_charge_range :: "drow list \<Rightarrow> heat_error + hrow list" where
  "add_total_charge_range df =
     (case heat_bins of
        Inl e \<Rightarrow> Inl (RangeError e)
      | Inr bins \<Rightarrow>
          (case pd_cut (map of_int bins) (heat_labels bins) (map TotalCharges df) of
             Inl e \<Rightarrow> Inl (BinError e)
           | Inr tcr \<Rightarrow> Inr (map2 (\<lambda>r t. drow.extend r (hrow.fields t)) df tcr)))"

subsection \<open>The churn flag\<close>

lemma churn_map_simps [simp]:
  "churn_map (Some ''No'') = Some 0"
  "churn_map (Some ''Yes'') = Some 1"
  "churn_map None = None"
  by (simp_all add: churn_map_def)

lemma churn_map_None_iff: "churn_map c = None \<longleftrightarrow> c \<noteq> Some ''No'' \<and> c \<noteq> Some ''Yes''"
  by (cases c) (auto simp: churn_map_def)

lemma churn_map_eq:
  "churn_map c = (if c = Some ''No'' then Some 0 else if c = Some ''Yes'' then Some 1 else None)"
  by (cases c) (auto simp: churn_map_def)

lemma churn_map_range: "churn_map c = Some b \<Longrightarrow> b = 0 \<or> b = 1"
  by (cases c) (auto simp: churn_map_def split: if_splits)

subsection \<open>The monthly-charge bins\<close>

lemma charge_bins_strict: "sorted_wrt (<) charge_bins"
  by (simp add: charge_bins_def)

lemma pd_cut_charge:
  "pd_cut charge_bins charge_labels xs = Inr (map (cut_value charge_bins charge_labels) xs)"
  by (rule pd_cut_Inr) (simp_all add: charge_bins_strict, simp_all add: charge_bins_def charge_labels_def)

lemma charge_bins_nth: "j < 7 \<Longrightarrow> charge_bins ! j = 20 * of_nat j"
proof -
  assume "j < 7"
  then consider "j = 0" | "j = 1" | "j = 2" | "j = 3" | "j = 4" | "j = 5" | "j = 6" by linarith
  then show ?thesis by cases (simp_all add: charge_bins_def)
qed

lemma cut_charge_Some_iff:
  "cut_value charge_bins charge_labels (Some v) = Some l \<longleftrightarrow>
     (\<exists>j<6. 20 * of_nat j < v \<and> v \<le> 20 * of_nat (Suc j) \<and> l = charge_labels ! j)"
proof -
  have len: "length charge_bins = 7" by (simp add: charge_bins_def)
  show ?thesis
    using charge_bins_nth
    by (auto simp: cut_value_Some_iff [OF charge_bins_strict] len)
qed

subsection \<open>load_data\<close>

lemma derive_row_fields [simp]:
  "ChurnBinary (derive_row r c) = churn_map (Churn r)"
  "ChargeRange (derive_row r c) = c"
  "customerID (derive_row r c) = customerID r"
  "gender (derive_row r c) = gender r"
  "CitizensStatus (derive_row r c) = CitizensStatus r"
  "tenure (derive_row r c) = tenure r"
  "Contract (derive_row r c) = Contract r"
  "TechSupport (derive_row r c) = TechSupport r"
  "InternetService (derive_row r c) = InternetService r"
  "PaymentMethod (derive_row r c) = PaymentMethod r"
  "MonthlyCharges (derive_row r c) = MonthlyCharges r"
  "TotalCharges (derive_row r c) = TotalCharges r"
  "Churn (derive_row r c) = Churn r"
  by (simp_all add: derive_row_def customer.defs drow.defs)

text \<open>The frame extended with \<open>TotalChargeRange\<close> keeps every other column.\<close>

lemma hrow_extend_fields [simp]:
  "TotalChargeRange (drow.extend r (hrow.fields t)) = t"
  "drow.truncate (drow.extend r (hrow.fields t)) = r"
  "customerID (drow.extend r (hrow.fields t)) = customerID r"
  "gender (drow.extend r (hrow.fields t)) = gender r"
  "CitizensStatus (drow.extend r (hrow.fields t)) = CitizensStatus r"
  "tenure (drow.extend r (hrow.fields t)) = tenure r"
  "Contract (drow.extend r (hrow.fields t)) = Contract r"
  "TechSupport (drow.extend r (hrow.fields t)) = TechSupport r"
  "InternetService (drow.extend r (hrow.fields t)) = InternetService r"
  "PaymentMethod (drow.extend r (hrow.fields t)) = PaymentMethod r"
  "MonthlyCharges (drow.extend r (hrow.fields t)) = MonthlyCharges r"
  "TotalCharges (drow.extend r (hrow.fields t)) = TotalCharges r"
  "Churn (drow.extend r (hrow.fields t)) = Churn r"
  "ChurnBinary (drow.extend r (hrow.fields t)) = ChurnBinary r"
  "ChargeRange (drow.extend r (hrow.fields t)) = ChargeRange r"
  by (simp_all add: customer.defs drow.defs hrow.defs)

lemma load_data_ok:
  "load_data df = Inr (map2 derive_row df (map (\<lambda>r. cut_value charge_bins charge_labels (MonthlyCharges r)) df))"
  by (simp add: load_data_def pd_cut_charge comp_def)

lemma length_load_data: "load_data df = Inr df' \<Longrightarrow> length df' = length df"
  by (auto simp: load_data_ok)

lemma load_data_nth:
  assumes "load_data df = Inr df'" "i < length df"
  shows "ChurnBinary (df' ! i) = churn_map (Churn (df ! i))"
    and "ChargeRange (df' ! i) = cut_value charge_bins charge_labels (MonthlyCharges (df ! i))"
    and "drow.more (df' ! i) = ()"
    and "customer.truncate (df' ! i) = customer.truncate (df ! i)"
  using assms by (auto simp: load_data_ok derive_row_def customer.defs drow.defs)

subsection \<open>The total-charge bins of the heatmap\<close>

lemma heat_bins_eq: "heat_bins = Inr (map (\<lambda>i. 500 * int i) [0..<19])"
  by (simp add: heat_bins_def heat_step_def py_range_def)

lemma heat_labels_eq:
  "heat_labels (map (\<lambda>i. 500 * int i) [0..<19]) =
     [''0-500'', ''500-1000'', ''1000-1500'', ''1500-2000'', ''2000-2500'', ''2500-3000'',
      ''3000-3500'', ''3500-4000'', ''4000-4500'', ''4500-5000'', ''5000-5500'', ''5500-6000'',
      ''6000-6500'', ''6500-7000'', ''7000-7500'', ''7500-8000'', ''8000-8500'', ''8500-9000'']"
  by (simp add: heat_labels_def heat_step_def range_label_def py_str_int_def py_str_nat.simps upt_rec)

lemma sorted_wrt_of_int: "sorted_wrt (<) xs \<Longrightarrow> sorted_wrt (<) (map (of_int :: int \<Rightarrow> rat) xs)"
  by (simp add: sorted_wrt_map)

lemma heat_bins_props:
  assumes "heat_bins = Inr bins"
  shows "sorted_wrt (<) bins" "\<forall>i\<in>set bins. 0 \<le> i \<and> i < 9500"
  using assms py_range_sorted [of heat_step 0 9500] py_range_bounds [of heat_step 0 9500]
  by (auto simp: heat_bins_def heat_step_def)

lemma heat_labels_distinct:
  assumes "heat_bins = Inr bins"
  shows "distinct (heat_labels bins)"
proof -
  from heat_bins_props [OF assms] have "distinct (butlast bins)" "\<forall>i\<in>set (butlast bins). 0 \<le> i"
    by (auto simp: strict_sorted_iff distinct_butlast dest: in_set_butlastD)
  then show ?thesis
    unfolding heat_labels_def by (rule range_label_inj [rotated 2]) (simp_all add: heat_step_def)
qed

lemma heat_labels_length: "heat_bins = Inr bins \<Longrightarrow> Suc (length (heat_labels bins)) = length bins"
  by (auto simp: heat_labels_def heat_bins_eq)

lemma add_total_charge_range_ok:
  assumes "heat_bins = Inr bins"
  shows "add_total_charge_range df =
           Inr (map2 (\<lambda>r t. drow.extend r (hrow.fields t)) df
                 (map (\<lambda>r. cut_value (map of_int bins) (heat_labels bins) (TotalCharges r)) df))"
proof -
  have "pd_cut (map of_int bins) (heat_labels bins) (map TotalCharges df) =
        Inr (map (cut_value (map of_int bins) (heat_labels bins)) (map TotalCharges df))"
    using heat_bins_props [OF assms] heat_labels_distinct [OF assms] heat_labels_length [OF assms]
    by (intro pd_cut_Inr) (simp_all add: sorted_wrt_of_int)
  then show ?thesis
    unfolding add_total_charge_range_def assms by (simp add: comp_def)
qed

subsection \<open>Properties of the derived columns\<close>

text \<open>
  C4: after \<open>load_data\<close>, a customer's \<open>ChargeRange\<close> is the label of the interval
  \<open>(20j, 20(j+1)]\<close> that holds its monthly charge; a missing charge, a charge of 0 or
  below, or one above 120 gets no range (pandas' \<open>right=True\<close>: an edge value belongs
  to the lower interval, and 0 itself to none).
\<close>

theorem charge_range_interval:
  assumes "load_data df = Inr df'" "i < length df"
  shows "ChargeRange (df' ! i) = Some l \<longleftrightarrow>
           (\<exists>v j. MonthlyCharges (df ! i) = Some v \<and> j < 6 \<and>
                  20 * of_nat j < v \<and> v \<le> 20 * of_nat (Suc j) \<and> l = charge_labels ! j)"
proof (cases "MonthlyCharges (df ! i)")
  case None
  with load_data_nth(2) [OF assms] show ?thesis by simp
next
  case (Some v)
  with load_data_nth(2) [OF assms] show ?thesis by (simp add: cut_charge_Some_iff)
qed

text \<open>
  C7: \<open>load_data\<close> never raises, whatever the table: the bins and labels of its
  \<open>pd.cut\<close> call pass every check, so it returns one derived row per input row, each
  keeping the input row's fields.
\<close>

theorem load_data_succeeds:
  "\<exists>df'. load_data df = Inr df' \<and> map customer.truncate df' = df"
proof -
  have "customer.truncate (derive_row r c) = r" for r :: customer and c
    by (simp add: derive_row_def customer.defs drow.defs)
  then have "map customer.truncate (map2 derive_row df cs) = df" if "length cs = length df" for cs
    using that by (induction df arbitrary: cs) (auto simp: length_Suc_conv)
  then show ?thesis by (auto simp: load_data_ok)
qed

text \<open>
  C8: the churn flag is missing exactly for the customers whose churn value is neither
  "Yes" nor "No" (a missing value included); otherwise it is 1 for "Yes" and 0 for "No".
  The source maps through a two-entry dictionary with no other branch, so such a value is
  silently a missing flag rather than an error.
\<close>

theorem churn_binary_unmapped:
  assumes "load_data df = Inr df'" "i < length df"
  shows "(ChurnBinary (df' ! i) = None \<longleftrightarrow> Churn (df ! i) \<noteq> Some ''No'' \<and> Churn (df ! i) \<noteq> Some ''Yes'') \<and>
         (Churn (df ! i) = Some ''Yes'' \<longrightarrow> ChurnBinary (df' ! i) = Some 1) \<and>
         (Churn (df ! i) = Some ''No'' \<longrightarrow> ChurnBinary (df' ! i) = Some 0)"
  using load_data_nth(1) [OF assms] churn_map_None_iff by auto

lemma heat_cut_defined:
  "cut_value (map of_int (map (\<lambda>i. 500 * int i) [0..<19])) (heat_labels (map (\<lambda>i. 500 * int i) [0..<19])) (Some v) \<noteq> None
     \<longleftrightarrow> 0 < v \<and> v \<le> 9000"
proof -
  let ?bins = "map (\<lambda>i. 500 * int i) [0..<19]"
  have s: "sorted_wrt (<) (map (of_int :: int \<Rightarrow> rat) ?bins)"
    using heat_bins_props(1) [OF heat_bins_eq] by (rule sorted_wrt_of_int)
  have "hd (map (of_int :: int \<Rightarrow> rat) ?bins) = 0" "last (map (of_int :: int \<Rightarrow> rat) ?bins) = 9000"
    by (simp_all add: upt_rec)
  moreover have "cut_value (map of_int ?bins) (heat_labels ?bins) (Some v) \<noteq> None \<longleftrightarrow>
      2 \<le> length (map (of_int :: int \<Rightarrow> rat) ?bins) \<and> hd (map of_int ?bins) < v \<and> v \<le> last (map of_int ?bins)"
    using s by (rule cut_value_defined)
  ultimately show ?thesis by simp
qed

text \<open>
  C10: the heatmap's bins are \<open>range(0, 9500, 500)\<close>, that is 19 edges from 0 to 9000,
  so 18 labels (not 19); a total charge gets a range exactly when it lies in
  \<open>(0, 9000]\<close>.
\<close>

theorem heat_buckets:
  "\<exists>bins. heat_bins = Inr bins \<and> length bins = 19 \<and> length (heat_labels bins) = 18 \<and>
     (\<forall>v. cut_value (map of_int bins) (heat_labels bins) (Some v) \<noteq> None \<longleftrightarrow> 0 < v \<and> v \<le> 9000)"
  using heat_cut_defined by (simp add: heat_bins_eq heat_labels_def)

end
