(* ===== verification/Stats.thy ===== *)
theory Stats
  imports PyFloat
begin

text \<open>
  The numeric reductions of pandas the dashboard calls, all with \<open>skipna=True\<close>:
  \<open>Series.mean()\<close> (the metric panel, lines 25 and 26), \<open>min()\<close> and \<open>max()\<close> (the
  total-charges summary, line 178). Missing values are dropped first; a column with no
  value left gives \<open>NaN\<close>, which is what pandas returns for the mean, the minimum and
  the maximum of an empty or all-missing float column.
\<close>

definition mean_skipna :: "rat column \<Rightarrow> fval" where
  "mean_skipna col =
     (let xs = dropna col in if xs = [] then NaN else Fin (sum_list xs / of_nat (length xs)))"

definition min_skipna :: "rat column \<Rightarrow> fval" where
  "min_skipna col = (let xs = dropna col in if xs = [] then NaN else Fin (Min (set xs)))"

definition max_skipna :: "rat column \<Rightarrow> fval" where
  "max_skipna col = (let xs = dropna col in if xs = [] then NaN else Fin (Max (set xs)))"

subsection \<open>The mean lies between the minimum and the maximum\<close>

lemma sum_list_lower: "\<forall>x\<in>set xs. a \<le> x \<Longrightarrow> of_nat (length xs) * a \<le> (sum_list xs :: rat)"
  by (induction xs) (auto simp: algebra_simps add_mono)

lemma sum_list_upper: "\<forall>x\<in>set xs. x \<le> a \<Longrightarrow> (sum_list xs :: rat) \<le> of_nat (length xs) * a"
  by (induction xs) (auto simp: algebra_simps add_mono)

lemma mean_between:
  assumes "xs \<noteq> []"
  shows "Min (set xs) \<le> sum_list xs / of_nat (length xs) \<and> sum_list xs / of_nat (length xs) \<le> (Max (set xs) :: rat)"
proof -
  have n: "0 < (of_nat (length xs) :: rat)" using assms by simp
  have "of_nat (length xs) * Min (set xs) \<le> sum_list xs"
    using assms by (intro sum_list_lower) simp
  moreover have "sum_list xs \<le> of_nat (length xs) * Max (set xs)"
    using assms by (intro sum_list_upper) simp
  ultimately show ?thesis
    using n by (simp add: pos_le_divide_eq pos_divide_le_eq mult.commute)
qed

lemma mean_skipna_Fin_iff: "(\<exists>m. mean_skipna col = Fin m) \<longleftrightarrow> dropna col \<noteq> []"
  by (simp add: mean_skipna_def Let_def)

end
