(* ===== verification/GroupTables.thy ===== *)
theory GroupTables
  imports Frame Stats
begin

text \<open>
  The aggregation panels of \<open>teleco_app.py\<close>, each built from the pandas operations of
  \<open>PdSeries\<close> the way the code composes them:
  \<^item> \<open>churn_pct_table key\<close>: the five "Churn by ..." tables of lines 55 to 91, one per
    dimension (\<open>CitizensStatus\<close>, \<open>Contract\<close>, \<open>TechSupport\<close>,
    \<open>InternetService\<close>, \<open>PaymentMethod\<close>): \<open>total = df[d].value_counts()\<close>,
    \<open>churned = df[df['Churn'] == 'Yes'][d].value_counts()\<close>,
    \<open>(churned / total * 100).round(2)\<close>, assembled with \<open>pd.DataFrame\<close>;
  \<^item> \<open>gender_table\<close> (lines 47 to 50): counts of all, churned and not churned customers;
  \<^item> \<open>total_customers\<close>, \<open>churn_rate\<close>, \<open>avg_monthly_charges\<close>: the metric panel
    (lines 24 to 26), before formatting;
  \<^item> \<open>churn_summary\<close> (lines 32 to 35): counts and rounded shares of each churn value.
  A row of a table is its index label and the list of its cells, in column order.
\<close>

definition churned :: "'a customer_scheme list \<Rightarrow> 'a customer_scheme list" where
  "churned df = filter (\<lambda>r. Churn r = Some ''Yes'') df"

definition not_churned :: "'a customer_scheme list \<Rightarrow> 'a customer_scheme list" where
  "not_churned df = filter (\<lambda>r. Churn r = Some ''No'') df"

definition churn_pct_table ::
  "('a customer_scheme \<Rightarrow> 'k::linorder option) \<Rightarrow> 'a customer_scheme list \<Rightarrow> ('k \<times> fval list) list"
where
  "churn_pct_table key df =
     (let total = value_counts (map key df);
          churned_counts = value_counts (map key (churned df));
          percent = series_round 2 (series_scale 100 (series_div (as_float churned_counts) (as_float total)))
      in frame_of [as_float total, as_float churned_counts, percent])"

definition citizenship_table :: "drow list \<Rightarrow> (int \<times> fval list) list" where
  "citizenship_table df = churn_pct_table (\<lambda>r. Some (CitizensStatus r)) df"

definition contract_table :: "drow list \<Rightarrow> (string \<times> fval list) list" where
  "contract_table df = churn_pct_table Contract df"

definition tech_table :: "drow list \<Rightarrow> (string \<times> fval list) list" where
  "tech_table df = churn_pct_table TechSupport df"

definition internet_table :: "drow list \<Rightarrow> (string \<times> fval list) list" where
  "internet_table df = churn_pct_table InternetService df"

definition pay_table :: "drow list \<Rightarrow> (string \<times> fval list) list" where
  "pay_table df = churn_pct_table PaymentMethod df"

definition gender_table :: "drow list \<Rightarrow> (string \<times> fval list) list" where
  "gender_table df =
     frame_of [as_float (value_counts (map gender df)),
               as_float (value_counts (map gender (churned df))),
               as_float (value_counts (map gender (not_churned df)))]"

definition total_customers :: "drow list \<Rightarrow> nat" where
  "total_customers df = length df"

definition churn_rate :: "drow list \<Rightarrow> fval" where
  "churn_rate df = fmul (mean_skipna (map (\<lambda>r. map_option of_int (ChurnBinary r)) df)) (Fin 100)"

definition avg_monthly_charges :: "drow list \<Rightarrow> fval" where
  "avg_monthly_charges df = mean_skipna (map MonthlyCharges df)"

definition churn_summary :: "drow list \<Rightarrow> (string \<times> fval list) list" where
  "churn_summary df =
     frame_of [as_float (value_counts (map Churn df)),
               series_round 2 (series_scale 100 (value_counts_normalize (map Churn df)))]"

text \<open>
  The monthly-charge table (lines 124 to 129): \<open>ChargeRange\<close> is a Categorical column,
  so \<open>value_counts(sort=False)\<close> lists every range in bin order, empty ones with count
  0, and both count Series share one index; the rows are then renumbered from 1.
  A row is (number, range, count, churned, percentage).
\<close>

definition charge_range_summary :: "drow list \<Rightarrow> (nat \<times> string \<times> fval \<times> fval \<times> fval) list" where
  "charge_range_summary df =
     (let range_count = value_counts_cat charge_labels (map ChargeRange df);
          churned_by_range = value_counts_cat charge_labels (map ChargeRange (churned df));
          percentage_range =
            series_round 2 (series_scale 100 (series_div (as_float churned_by_range) (as_float range_count)));
          summary = frame_of [as_float range_count, as_float churned_by_range, percentage_range]
      in map2 (\<lambda>i (rng, vals). (i, rng, vals ! 0, vals ! 1, vals ! 2)) [1..<Suc (length summary)] summary)"

text \<open>The total-charges summary (lines 176 to 179): a two-row table of minimum and maximum.\<close>

definition total_charge_summary :: "drow list \<Rightarrow> (string \<times> fval) list" where
  "total_charge_summary df =
     [(''Minimum'', min_skipna (map TotalCharges df)), (''Maximum'', max_skipna (map TotalCharges df))]"

text \<open>The number of rows whose dimension holds a given value: what \<open>value_counts\<close> counts.\<close>

definition group_count :: "('r \<Rightarrow> 'k option) \<Rightarrow> 'r list \<Rightarrow> 'k \<Rightarrow> nat" where
  "group_count key df k = length (filter (\<lambda>r. key r = Some k) df)"

subsection \<open>Counting lemmas\<close>

lemma count_dropna_group [count_simps]: "count_list (dropna (map key df)) k = group_count key df k"
  by (simp add: group_count_def count_dropna_map)

lemma group_count_churned_le [count_simps]: "group_count key (churned df) k \<le> group_count key df k"
  unfolding group_count_def churned_def by (rule length_filter_filter_le)

lemma group_count_pos_iff [count_simps]: "0 < group_count key df k \<longleftrightarrow> Some k \<in> key ` set df"
  by (simp add: count_list_pos_iff flip: count_dropna_group)

lemma sum_group_count:
  "distinct ks \<Longrightarrow> set ks = {k. Some k \<in> key ` set df} \<Longrightarrow>
     sum_list (map (group_count key df) ks) = length (dropna (map key df))"
proof -
  assume "distinct ks" "set ks = {k. Some k \<in> key ` set df}"
  then have "sum_list (map (count_list (dropna (map key df))) ks) = length (dropna (map key df))"
    by (intro sum_list_count_distinct) auto
  moreover have "count_list (dropna (map key df)) = group_count key df"
    by (rule ext) (rule count_dropna_group)
  ultimately show ?thesis by simp
qed

lemma length_dropna_all:
  "\<forall>r\<in>set df. key r \<noteq> None \<Longrightarrow> length (dropna (map key df)) = length df"
  by (induction df) auto

subsection \<open>The churn-percentage tables\<close>

lemma churn_pct_keys:
  "fst ` set (churn_pct_table key df) = {k. Some k \<in> key ` set df}"
  by (auto simp: churn_pct_table_def Let_def series_div_def churned_def)

lemma churn_pct_keys_distinct: "distinct (map fst (churn_pct_table key df))"
  by (simp add: churn_pct_table_def Let_def series_div_def distinct_frame_index value_counts_distinct
      distinct_index_union)

lemma churn_pct_cells:
  assumes "0 < group_count key df k"
  shows "map_of (churn_pct_table key df) k =
     Some [Fin (of_nat (group_count key df k)),
           count_cell (group_count key (churned df) k),
           fround 2 (fmul (fdiv (count_cell (group_count key (churned df) k))
                                (Fin (of_nat (group_count key df k)))) (Fin 100))]"
proof -
  have k: "Some k \<in> key ` set df"
    using assms by (simp add: group_count_pos_iff)
  then have "map_of (series_div (as_float (value_counts (map key (churned df))))
                                (as_float (value_counts (map key df)))) k =
             Some (fdiv (count_cell (group_count key (churned df) k)) (count_cell (group_count key df k)))"
    by (simp add: series_div_def series_binop_def series_get_value_counts count_dropna_group)
  moreover have "count_cell (group_count key df k) = Fin (of_nat (group_count key df k))"
    using assms by (simp add: count_cell_def)
  ultimately show ?thesis
    using k by (simp add: churn_pct_table_def Let_def map_of_frame_of series_get_value_counts
        count_dropna_group series_get_round series_get_scale series_div_def)
qed

lemma churn_pct_row_mem:
  assumes "(k, vals) \<in> set (churn_pct_table key df)"
  shows "0 < group_count key df k" "map_of (churn_pct_table key df) k = Some vals"
proof -
  from assms have "k \<in> fst ` set (churn_pct_table key df)"
    by (metis fst_conv image_eqI)
  then show "0 < group_count key df k"
    by (simp add: churn_pct_keys group_count_pos_iff)
  show "map_of (churn_pct_table key df) k = Some vals"
    using assms churn_pct_keys_distinct by (rule map_of_is_SomeI [rotated])
qed

lemma value_counts_Nil_iff: "value_counts col = [] \<longleftrightarrow> (\<forall>x\<in>set col. x = None)"
proof -
  have e: "value_counts col = [] \<longleftrightarrow> set (dropna col) = {}"
    by (metis value_counts_keys set_empty map_is_Nil_conv)
  show ?thesis
  proof
    assume "value_counts col = []"
    with e have "\<forall>v. Some v \<notin> set col" by simp
    then show "\<forall>x\<in>set col. x = None" by (metis not_None_eq)
  next
    assume "\<forall>x\<in>set col. x = None"
    then have "set (dropna col) = {}" by auto
    with e show "value_counts col = []" by simp
  qed
qed

lemma churn_pct_index:
  "map fst (churn_pct_table key df) =
     (if map fst (value_counts (map key (churned df))) = map fst (value_counts (map key df))
      then map fst (value_counts (map key df)) else sorted_list_of_set {k. Some k \<in> key ` set df})"
proof -
  let ?a = "map fst (value_counts (map key df))" and ?b = "map fst (value_counts (map key (churned df)))"
  have sub: "set ?b \<subseteq> set ?a" by (auto simp: churned_def)
  have S: "set ?a \<union> set ?b \<union> set (index_union ?b ?a) = {k. Some k \<in> key ` set df}"
    using sub by auto
  show ?thesis
  proof (cases "?b = ?a")
    case True
    then show ?thesis
      by (simp add: churn_pct_table_def Let_def series_div_def frame_index_same)
  next
    case False
    then have "\<not> list_all (\<lambda>j. j = ?a) [?b, index_union ?b ?a]" by simp
    from frame_index_differ [OF this] False S show ?thesis
      by (simp add: churn_pct_table_def Let_def series_div_def Un_assoc)
  qed
qed

lemma count_cell_percent:
  "0 < t \<Longrightarrow>
     fround 2 (fmul (fdiv (count_cell c) (Fin (of_nat t))) (Fin 100)) =
       (if c = 0 then NaN else fround 2 (Fin (of_nat c / of_nat t * 100)))"
  by (simp add: count_cell_def)

text \<open>
  C1: a "Churn by ..." table has a row exactly for each value present in its column;
  the row holds the number of customers with that value, the number of churned ones,
  and their share in percent rounded to two decimals. When no customer with that value
  churned, the churned cell and the percentage are NaN (the churned counts have no such
  label and the aligned division reads it as missing), not 0.
\<close>

theorem churn_pct_table_row:
  "map_of (churn_pct_table key df) k =
     (let t = group_count key df k; c = group_count key (churned df) k
      in if t = 0 then None
         else Some [Fin (of_nat t), count_cell c,
                    (if c = 0 then NaN else fround 2 (Fin (of_nat c / of_nat t * 100)))])"
proof (cases "group_count key df k = 0")
  case True
  then have "k \<notin> fst ` set (churn_pct_table key df)"
    using churn_pct_keys [of key df] group_count_pos_iff [of key df k] by auto
  with True show ?thesis by (simp add: map_of_eq_None_iff)
next
  case False
  then show ?thesis
    by (simp add: churn_pct_cells count_cell_percent Let_def)
qed

text \<open>
  C2: in every row of a "Churn by ..." table the churned count is at most the total, the
  percentage is NaN exactly when no customer of the row churned, and otherwise it is a
  finite value between 0 and 100: no division by zero or infinity can appear.
\<close>

theorem churn_pct_percent_bounds:
  assumes "(k, vals) \<in> set (churn_pct_table key df)"
  shows "group_count key (churned df) k \<le> group_count key df k \<and>
         (vals ! 2 = NaN \<longleftrightarrow> group_count key (churned df) k = 0) \<and>
         (vals ! 2 \<noteq> NaN \<longrightarrow> fin_within 0 100 (vals ! 2))"
proof -
  let ?t = "group_count key df k" and ?c = "group_count key (churned df) k"
  have t: "0 < ?t" and m: "map_of (churn_pct_table key df) k = Some vals"
    using churn_pct_row_mem [OF assms] by simp_all
  have le: "?c \<le> ?t" by (rule group_count_churned_le)
  from m t have v: "vals ! 2 = (if ?c = 0 then NaN else fround 2 (Fin (of_nat ?c / of_nat ?t * 100)))"
    by (auto simp: churn_pct_cells count_cell_percent)
  have "fin_within (of_int 0) (of_int 100) (fround 2 (Fin (of_nat ?c / of_nat ?t * 100)))"
    using count_ratio_within [OF le t] by (intro fround_within) simp
  then have "fin_within 0 100 (fround 2 (Fin (of_nat ?c / of_nat ?t * 100)))" by simp
  moreover have "fround 2 (Fin (of_nat ?c / of_nat ?t * 100)) \<noteq> NaN" by simp
  ultimately show ?thesis using le v by auto
qed

text \<open>
  C3: for a dimension with no missing value, the Total column of its table lists the
  group sizes and they add up to the number of customers.
\<close>

theorem churn_pct_total_sum:
  assumes "\<forall>r\<in>set df. key r \<noteq> None"
  shows "map (\<lambda>(k, vals). vals ! 0) (churn_pct_table key df) =
           map (\<lambda>(k, vals). Fin (of_nat (group_count key df k))) (churn_pct_table key df) \<and>
         sum_list (map (\<lambda>(k, vals). group_count key df k) (churn_pct_table key df)) = length df"
proof
  show "map (\<lambda>(k, vals). vals ! 0) (churn_pct_table key df) =
          map (\<lambda>(k, vals). Fin (of_nat (group_count key df k))) (churn_pct_table key df)"
  proof (rule map_cong [OF refl])
    fix p assume p: "p \<in> set (churn_pct_table key df)"
    obtain k vals where [simp]: "p = (k, vals)" by fastforce
    from p have "0 < group_count key df k" "map_of (churn_pct_table key df) k = Some vals"
      using churn_pct_row_mem by simp_all
    then show "(case p of (k, vals) \<Rightarrow> vals ! 0) = (case p of (k, vals) \<Rightarrow> Fin (of_nat (group_count key df k)))"
      by (auto simp: churn_pct_cells)
  qed
  have "sum_list (map (\<lambda>(k, vals). group_count key df k) (churn_pct_table key df)) =
        sum_list (map (group_count key df) (map fst (churn_pct_table key df)))"
    by (simp add: split_def comp_def)
  also have "\<dots> = length (dropna (map key df))"
    by (rule sum_group_count) (simp_all add: churn_pct_keys_distinct churn_pct_keys)
  also have "\<dots> = length df"
    using assms by (rule length_dropna_all)
  finally show "sum_list (map (\<lambda>(k, vals). group_count key df k) (churn_pct_table key df)) = length df" .
qed

subsection \<open>Metrics, the gender table and the charge-range table\<close>

lemma churn_flags:
  "dropna (map (\<lambda>r. map_option (of_int :: int \<Rightarrow> rat) (churn_map (Churn r))) df) =
     map (\<lambda>r. if Churn r = Some ''Yes'' then 1 else 0)
       (filter (\<lambda>r. Churn r = Some ''Yes'' \<or> Churn r = Some ''No'') df)"
  by (induction df) (auto simp: churn_map_eq)

lemma sum_churn_flags:
  "sum_list (map (\<lambda>r. if P r then 1 else 0) (filter (\<lambda>r. P r \<or> Q r) xs)) =
     (of_nat (length (filter P xs)) :: rat)"
  by (induction xs) auto

lemma group_count_split:
  "\<forall>r\<in>set df. Churn r = Some ''Yes'' \<or> Churn r = Some ''No'' \<Longrightarrow>
     group_count key df k = group_count key (churned df) k + group_count key (not_churned df) k"
  by (induction df) (auto simp: group_count_def churned_def not_churned_def)

lemma churn_flags_load:
  "load_data df = Inr df' \<Longrightarrow>
     map (\<lambda>r. map_option of_int (ChurnBinary r)) df' =
       map (\<lambda>r. map_option (of_int :: int \<Rightarrow> rat) (churn_map (Churn r))) df"
  by (rule nth_equalityI) (simp_all add: length_load_data load_data_nth(1))

lemma churn_rate_NaN_iff:
  assumes "load_data df = Inr df'"
  shows "churn_rate df' = NaN \<longleftrightarrow> \<not> (\<exists>r\<in>set df. Churn r = Some ''Yes'' \<or> Churn r = Some ''No'')"
  by (auto simp: churn_rate_def mean_skipna_def Let_def churn_flags_load [OF assms] churn_flags filter_empty_conv)

text \<open>
  C9: the churn-rate metric is the share of "Yes" among the customers whose churn value is
  "Yes" or "No", in percent; customers with any other churn value drop out of numerator and
  denominator alike (the mean skips the missing flags), and with none left the rate is NaN.
\<close>

theorem churn_rate_formula:
  assumes "load_data df = Inr df'"
  shows "churn_rate df' =
           (let y = length (filter (\<lambda>r. Churn r = Some ''Yes'') df);
                n = length (filter (\<lambda>r. Churn r = Some ''No'') df)
            in if y + n = 0 then NaN else Fin (of_nat y / of_nat (y + n) * 100))"
proof -
  let ?Y = "\<lambda>r. Churn r = Some ''Yes''" and ?N = "\<lambda>r. Churn r = Some ''No''"
  note m = churn_flags_load [OF assms]
  have len: "length (filter (\<lambda>r. ?Y r \<or> ?N r) df) = length (filter ?Y df) + length (filter ?N df)"
    by (rule length_filter_disj) auto
  show ?thesis
    by (auto simp: churn_rate_def mean_skipna_def m churn_flags sum_churn_flags len Let_def filter_empty_conv)
qed

text \<open>
  C12: the rows of a "Churn by ..." table are not in the order of \<open>value_counts\<close>: as soon
  as some customer churned and the churned counts are ordered differently from the totals,
  pandas aligns the two Series on the sorted union of their labels, and the table lists its
  values in ascending label order.
\<close>

theorem churn_pct_rows_sorted:
  assumes "map fst (value_counts (map key (churned df))) \<noteq> []"
    and "map fst (value_counts (map key (churned df))) \<noteq> map fst (value_counts (map key df))"
  shows "map fst (churn_pct_table key df) = sorted_list_of_set {k. Some k \<in> key ` set df}"
  using assms(2) by (simp add: churn_pct_index)

text \<open>
  C13: when nobody with a value in the dimension churned, the churned Series is empty and
  differs from the totals' index, so \<open>pd.DataFrame\<close> sorts the union: the table lists
  the present values in ascending order (not by count), each with its count and NaN in
  the Churned and Percentage% columns.
\<close>

theorem churn_pct_nobody_churned:
  assumes "\<forall>r\<in>set (churned df). key r = None" and "\<exists>r\<in>set df. key r \<noteq> None"
  shows "churn_pct_table key df =
           map (\<lambda>k. (k, [Fin (of_nat (group_count key df k)), NaN, NaN])) (sorted_list_of_set {k. Some k \<in> key ` set df})"
proof -
  let ?T = "churn_pct_table key df"
  have b: "map fst (value_counts (map key (churned df))) = []"
    using assms(1) by (simp add: value_counts_Nil_iff)
  have a: "map fst (value_counts (map key df)) \<noteq> []"
    using assms(2) by (auto simp: value_counts_Nil_iff)
  have keys: "map fst ?T = sorted_list_of_set {k. Some k \<in> key ` set df}"
    using a b by (simp add: churn_pct_index)
  have z: "group_count key (churned df) k = 0" for k
    using assms(1) by (auto simp: group_count_def filter_empty_conv)
  have "snd p = [Fin (of_nat (group_count key df (fst p))), NaN, NaN]" if "p \<in> set ?T" for p
  proof -
    obtain k vals where p: "p = (k, vals)" by (cases p)
    from churn_pct_row_mem [OF that [unfolded p]] have "0 < group_count key df k" "map_of ?T k = Some vals"
      by blast+
    with churn_pct_cells [of key df k] show ?thesis by (simp add: p z count_cell_def)
  qed
  then have "map (\<lambda>p. (fst p, [Fin (of_nat (group_count key df (fst p))), NaN, NaN])) ?T = ?T"
    by (intro map_idI) (simp add: prod_eq_iff)
  then have "?T = map (\<lambda>k. (k, [Fin (of_nat (group_count key df k)), NaN, NaN])) (map fst ?T)"
    by (simp add: comp_def)
  then show ?thesis by (simp only: keys)
qed

text \<open>
  C14: when every churn value is "Yes" or "No", each row of the gender table splits its
  count into churned and not churned customers; a group with nobody in one of the two
  shows NaN there (the Series has no such label), not 0.
\<close>

theorem gender_table_split:
  assumes "\<forall>r\<in>set df. Churn r = Some ''Yes'' \<or> Churn r = Some ''No''"
    and "(k, vals) \<in> set (gender_table df)"
  shows "vals = [Fin (of_nat (group_count gender df k)), count_cell (group_count gender (churned df) k),
                 count_cell (group_count gender (not_churned df) k)] \<and>
         group_count gender df k = group_count gender (churned df) k + group_count gender (not_churned df) k"
proof -
  from frame_of_mem [OF assms(2) [unfolded gender_table_def]] have
    v: "vals = [count_cell (group_count gender df k), count_cell (group_count gender (churned df) k),
                count_cell (group_count gender (not_churned df) k)]"
    and k: "Some k \<in> gender ` set df \<or> Some k \<in> gender ` set (churned df) \<or> Some k \<in> gender ` set (not_churned df)"
    by (auto simp: series_get_value_counts count_dropna_group)
  from k have "Some k \<in> gender ` set df"
    by (auto simp: churned_def not_churned_def)
  then have "count_cell (group_count gender df k) = Fin (of_nat (group_count gender df k))"
    by (simp add: count_cell_def group_count_pos_iff [symmetric])
  with v group_count_split [OF assms(1)] show ?thesis by simp
qed

text \<open>
  C16: the average-monthly-charge metric, when it is a number, lies between the smallest
  and the largest monthly charge present.
\<close>

theorem avg_monthly_between:
  assumes "avg_monthly_charges df = Fin m"
  shows "Min (set (dropna (map MonthlyCharges df))) \<le> m \<and> m \<le> Max (set (dropna (map MonthlyCharges df)))"
proof -
  let ?xs = "dropna (map MonthlyCharges df)"
  from assms have ne: "?xs \<noteq> []" and m: "m = sum_list ?xs / of_nat (length ?xs)"
    by (auto simp: avg_monthly_charges_def mean_skipna_def Let_def split: if_splits)
  from mean_between [OF ne] m show ?thesis by simp
qed

lemma charge_labels_distinct: "distinct charge_labels"
  by (simp add: charge_labels_def)

lemma zip_upt_Suc:
  "zip [Suc 0..<Suc n] xs = map (\<lambda>(i, x). (Suc i, x)) (zip [0..<n] xs)"
proof -
  have "[Suc 0..<Suc n] = map Suc [0..<n]" by (simp add: map_Suc_upt)
  then show ?thesis by (simp add: zip_map1 split_def del: upt_Suc)
qed

lemma charge_summary_keys:
  "frame_index (map (map fst)
     [as_float (value_counts_cat charge_labels c1), as_float (value_counts_cat charge_labels c2),
      series_round 2 (series_scale 100 (series_div (as_float (value_counts_cat charge_labels c2))
                                                   (as_float (value_counts_cat charge_labels c1))))])
   = charge_labels"
  by (simp add: series_div_def frame_index_def)

lemma charge_summary_cell:
  assumes "l \<in> set charge_labels"
  shows "series_get (series_round 2 (series_scale 100
            (series_div (as_float (value_counts_cat charge_labels (map ChargeRange (churned df))))
                        (as_float (value_counts_cat charge_labels (map ChargeRange df)))))) l =
         (if group_count ChargeRange df l = 0 then NaN
          else fround 2 (Fin (of_nat (group_count ChargeRange (churned df) l) /
                              of_nat (group_count ChargeRange df l) * 100)))"
proof -
  have le: "group_count ChargeRange (churned df) l \<le> group_count ChargeRange df l"
    by (rule group_count_churned_le)
  show ?thesis
    using assms le
    by (simp add: series_get_round series_get_scale series_div_def series_binop_def charge_labels_distinct
        series_get_value_counts_cat count_dropna_group inf_of_sign_def)
qed

text \<open>
  C17: the monthly-charge table has one row per range, numbered from 1 in bin order;
  each row holds the number of customers in the range and of churned ones (a 0 stays 0,
  since the column is Categorical), and the churned share rounded to two decimals, which
  is NaN exactly for a range with no customer.
\<close>

theorem charge_range_summary_rows:
  "charge_range_summary df =
     map (\<lambda>(i, l). (Suc i, l, Fin (of_nat (group_count ChargeRange df l)),
                    Fin (of_nat (group_count ChargeRange (churned df) l)),
                    (if group_count ChargeRange df l = 0 then NaN
                     else fround 2 (Fin (of_nat (group_count ChargeRange (churned df) l) /
                                         of_nat (group_count ChargeRange df l) * 100)))))
       (zip [0..<length charge_labels] charge_labels)"
proof -
  let ?cnt = "value_counts_cat charge_labels (map ChargeRange df)"
    and ?ch = "value_counts_cat charge_labels (map ChargeRange (churned df))"
  let ?pct = "series_round 2 (series_scale 100 (series_div (as_float ?ch) (as_float ?cnt)))"
  have rows: "frame_of [as_float ?cnt, as_float ?ch, ?pct] =
      map (\<lambda>l. (l, [Fin (of_nat (group_count ChargeRange df l)), Fin (of_nat (group_count ChargeRange (churned df) l)),
                     (if group_count ChargeRange df l = 0 then NaN
                      else fround 2 (Fin (of_nat (group_count ChargeRange (churned df) l) /
                                          of_nat (group_count ChargeRange df l) * 100)))])) charge_labels"
    unfolding frame_of_def charge_summary_keys
    by (rule map_cong [OF refl])
      (simp add: charge_summary_cell series_get_value_counts_cat charge_labels_distinct count_dropna_group)
  show ?thesis
    by (simp add: charge_range_summary_def Let_def rows zip_upt_Suc zip_map2 split_def comp_def del: upt_Suc)
qed

text \<open>
  C19: the churn-distribution table keeps the order of \<open>value_counts\<close> (most frequent
  churn value first), since both of its columns are indexed alike; each row holds the
  count of a churn value and its share of the present churn values in percent, rounded to
  two decimals.
\<close>

theorem churn_summary_rows:
  "churn_summary df =
     map (\<lambda>(v, c). (v, [Fin (of_nat c), fround 2 (Fin (of_nat c / of_nat (length (dropna (map Churn df))) * 100))]))
       (value_counts (map Churn df))"
proof -
  let ?col = "map Churn df"
  let ?vc = "value_counts ?col" and ?n = "length (dropna ?col)"
  have idx: "frame_index [map fst ?vc, map fst ?vc] = map fst ?vc"
    by (rule frame_index_same) simp
  have cell: "(v, [series_get (as_float ?vc) v, series_get (series_round 2 (series_scale 100 (value_counts_normalize ?col))) v]) =
                (v, [Fin (of_nat c), fround 2 (Fin (of_nat c / of_nat ?n * 100))])"
    if "(v, c) \<in> set ?vc" for v c
    using value_counts_mem [OF that]
    by (auto simp: series_get_value_counts count_cell_def series_get_round series_get_scale
                   map_of_value_counts_normalize count_list_0_iff)
  have "churn_summary df =
          map (\<lambda>p. (fst p, [series_get (as_float ?vc) (fst p),
                            series_get (series_round 2 (series_scale 100 (value_counts_normalize ?col))) (fst p)])) ?vc"
    by (simp add: churn_summary_def frame_of_def idx comp_def)
  also have "\<dots> = map (\<lambda>(v, c). (v, [Fin (of_nat c), fround 2 (Fin (of_nat c / of_nat ?n * 100))])) ?vc"
    by (rule map_cong [OF refl]) (use cell in auto)
  finally show ?thesis .
qed
text \<open>
  C20: the total-charges summary shows two numbers a and b exactly when both are total
  charges present in the frame and every present total charge lies between them.
\<close>

theorem total_charge_summary_extremes:
  "total_charge_summary df = [(''Minimum'', Fin a), (''Maximum'', Fin b)] \<longleftrightarrow>
     Some a \<in> set (map TotalCharges df) \<and> Some b \<in> set (map TotalCharges df) \<and>
     (\<forall>x. Some x \<in> set (map TotalCharges df) \<longrightarrow> a \<le> x \<and> x \<le> b)"
proof -
  let ?xs = "dropna (map TotalCharges df)"
  have S: "set ?xs = {x. Some x \<in> set (map TotalCharges df)}" by (rule set_dropna)
  have "total_charge_summary df = [(''Minimum'', Fin a), (''Maximum'', Fin b)] \<longleftrightarrow>
          ?xs \<noteq> [] \<and> Min (set ?xs) = a \<and> Max (set ?xs) = b"
    by (simp add: total_charge_summary_def min_skipna_def max_skipna_def Let_def)
  also have "\<dots> \<longleftrightarrow> a \<in> set ?xs \<and> b \<in> set ?xs \<and> (\<forall>x\<in>set ?xs. a \<le> x \<and> x \<le> b)"
    by (auto simp del: set_dropna intro: Min_eqI Max_eqI)
  finally show ?thesis by (simp only: S mem_Collect_eq Ball_def)
qed

end
