(* ===== verification/CrossTab.thy ===== *)
theory CrossTab
  imports Frame
begin

text \<open>
  The heatmap panel of \<open>teleco_app.py\<close> (lines 157 to 163): two pivot tables of the
  frame by \<open>TotalChargeRange\<close> (rows) and \<open>Contract\<close> (columns), one counting the
  customer ids of each cell and one taking the share of "Yes" among the churn values of
  each cell, scaled by 100; the second's columns are renamed \<open>"<contract> Churn %"\<close>,
  the two are concatenated side by side and rounded to one decimal, the columns whose name
  contains "Churn" are selected and the suffix is removed again; that frame is drawn.
  A frame here is its row index with its named columns, each a list of cells aligned with
  the index (\<open>pframe\<close>).

  \<open>pivot_table\<close> follows pandas' \<open>pivot_table(..., observed=True)\<close>: rows with a
  missing row or column key are dropped (groupby's \<open>dropna\<close>), only observed
  categories become rows, in category order, the observed column keys become columns in
  sorted order, and a (row, column) pair with no customer is \<open>NaN\<close>. The aggregate of a
  non-empty group is never \<open>NaN\<close>, so pandas' \<open>dropna=True\<close> removes no row or
  column. \<open>frame_concat\<close> is \<open>pd.concat(axis=1)\<close>: equal indexes are kept, and
  otherwise the outer union in order of appearance is taken and the cells reindexed.
\<close>

type_synonym ('i, 'c) pframe = "'i list \<times> ('c \<times> fval list) list"

definition pivot_keyed :: "('r \<Rightarrow> 'i option) \<Rightarrow> ('r \<Rightarrow> 'c option) \<Rightarrow> 'r list \<Rightarrow> 'r list" where
  "pivot_keyed idx col df = filter (\<lambda>r. idx r \<noteq> None \<and> col r \<noteq> None) df"

definition pivot_group :: "('r \<Rightarrow> 'i option) \<Rightarrow> ('r \<Rightarrow> 'c option) \<Rightarrow> 'r list \<Rightarrow> 'i \<Rightarrow> 'c \<Rightarrow> 'r list" where
  "pivot_group idx col df i c = filter (\<lambda>r. idx r = Some i \<and> col r = Some c) df"

definition pivot_table ::
  "('r \<Rightarrow> 'i option) \<Rightarrow> ('r \<Rightarrow> 'c::linorder option) \<Rightarrow> 'i list \<Rightarrow> ('r list \<Rightarrow> fval) \<Rightarrow> 'r list \<Rightarrow> ('i, 'c) pframe"
where
  "pivot_table idx col cats agg df =
     (let keyed = pivot_keyed idx col df;
          ix = filter (\<lambda>i. i \<in> set (dropna (map idx keyed))) cats;
          cs = sort (remdups (dropna (map col keyed)))
      in (ix, map (\<lambda>c. (c, map (\<lambda>i. let g = pivot_group idx col keyed i c
                                     in if g = [] then NaN else agg g) ix)) cs))"

text \<open>\<open>aggfunc='count'\<close> on a column: its present values; and
  \<open>aggfunc=lambda x: (x == 'Yes').mean()\<close>, where a missing value compares unequal.\<close>

definition agg_count :: "('r \<Rightarrow> 'v option) \<Rightarrow> 'r list \<Rightarrow> fval" where
  "agg_count v g = Fin (of_nat (length (dropna (map v g))))"

definition agg_yes_mean :: "('r \<Rightarrow> string option) \<Rightarrow> 'r list \<Rightarrow> fval" where
  "agg_yes_mean v g = fdiv (Fin (of_nat (length (filter (\<lambda>r. v r = Some ''Yes'') g)))) (Fin (of_nat (length g)))"

definition frame_scale :: "rat \<Rightarrow> ('i, 'c) pframe \<Rightarrow> ('i, 'c) pframe" where
  "frame_scale a t = (fst t, map (\<lambda>(n, vs). (n, map (\<lambda>v. fmul v (Fin a)) vs)) (snd t))"

definition frame_round :: "nat \<Rightarrow> ('i, 'c) pframe \<Rightarrow> ('i, 'c) pframe" where
  "frame_round d t = (fst t, map (\<lambda>(n, vs). (n, map (fround d) vs)) (snd t))"

definition frame_rename :: "('c \<Rightarrow> 'd) \<Rightarrow> ('i, 'c) pframe \<Rightarrow> ('i, 'd) pframe" where
  "frame_rename f t = (fst t, map (\<lambda>(n, vs). (f n, vs)) (snd t))"

definition frame_select :: "('c \<Rightarrow> bool) \<Rightarrow> ('i, 'c) pframe \<Rightarrow> ('i, 'c) pframe" where
  "frame_select P t = (fst t, filter (\<lambda>(n, vs). P n) (snd t))"

definition reindex :: "'i list \<Rightarrow> fval list \<Rightarrow> 'i list \<Rightarrow> fval list" where
  "reindex old vs new = map (\<lambda>i. case map_of (zip old vs) i of None \<Rightarrow> NaN | Some v \<Rightarrow> v) new"

definition frame_concat :: "('i, 'c) pframe \<Rightarrow> ('i, 'c) pframe \<Rightarrow> ('i, 'c) pframe" where
  "frame_concat s t =
     (if fst s = fst t then (fst s, snd s @ snd t)
      else let ix = unique (fst s @ fst t)
           in (ix, map (\<lambda>(n, vs). (n, reindex (fst s) vs ix)) (snd s) @
                   map (\<lambda>(n, vs). (n, reindex (fst t) vs ix)) (snd t)))"

definition heat_count_table :: "string list \<Rightarrow> hrow list \<Rightarrow> (string, string) pframe" where
  "heat_count_table cats df = pivot_table TotalChargeRange Contract cats (agg_count customerID) df"

definition heat_churn_table :: "string list \<Rightarrow> hrow list \<Rightarrow> (string, string) pframe" where
  "heat_churn_table cats df =
     frame_rename (\<lambda>c. c @ '' Churn %'')
       (frame_scale 100 (pivot_table TotalChargeRange Contract cats (agg_yes_mean Churn) df))"

definition heat_final_table :: "string list \<Rightarrow> hrow list \<Rightarrow> (string, string) pframe" where
  "heat_final_table cats df = frame_round 1 (frame_concat (heat_count_table cats df) (heat_churn_table cats df))"

definition heat_churn_pct :: "string list \<Rightarrow> hrow list \<Rightarrow> (string, string) pframe" where
  "heat_churn_pct cats df =
     frame_rename (str_replace '' Churn %'' [])
       (frame_select (str_contains ''Churn'') (heat_final_table cats df))"

definition heat_panel :: "drow list \<Rightarrow> heat_error + (string, string) pframe" where
  "heat_panel df =
     (case heat_bins of
        Inl e \<Rightarrow> Inl (RangeError e)
      | Inr bins \<Rightarrow>
          (case add_total_charge_range df of
             Inl e \<Rightarrow> Inl e
           | Inr hdf \<Rightarrow> Inr (heat_churn_pct (heat_labels bins) hdf)))"

text \<open>The total of a grid of cells, missing cells counting 0: \<open>table.sum().sum()\<close>.\<close>

fun fin_part :: "fval \<Rightarrow> rat" where
  "fin_part (Fin a) = a"
| "fin_part _ = 0"

definition grid_sum :: "('i, 'c) pframe \<Rightarrow> rat" where
  "grid_sum t = sum_list (map (\<lambda>(n, vs). sum_list (map fin_part vs)) (snd t))"

subsection \<open>Pivot tables\<close>

lemma pivot_group_keyed [simp]: "pivot_group idx col (pivot_keyed idx col df) i c = pivot_group idx col df i c"
  by (auto simp: pivot_group_def pivot_keyed_def intro: filter_cong)

lemma pivot_keyed_index:
  "i \<in> set (dropna (map idx (pivot_keyed idx col df))) \<longleftrightarrow> (\<exists>r\<in>set df. idx r = Some i \<and> col r \<noteq> None)"
  by (force simp: pivot_keyed_def)

lemma pivot_table_eq:
  "pivot_table idx col cats agg df =
     (filter (\<lambda>i. \<exists>r\<in>set df. idx r = Some i \<and> col r \<noteq> None) cats,
      map (\<lambda>c. (c, map (\<lambda>i. let g = pivot_group idx col df i c in if g = [] then NaN else agg g)
                     (filter (\<lambda>i. \<exists>r\<in>set df. idx r = Some i \<and> col r \<noteq> None) cats)))
        (sort (remdups (dropna (map col (pivot_keyed idx col df))))))"
  unfolding pivot_table_def Let_def pivot_group_keyed pivot_keyed_index ..

lemma pivot_table_names:
  "(n, vs) \<in> set (snd (pivot_table idx col cats agg df)) \<Longrightarrow> \<exists>r\<in>set df. col r = Some n"
  by (auto simp: pivot_table_eq pivot_keyed_def)

lemma fst_pivot_table: "fst (pivot_table idx col cats agg df) = fst (pivot_table idx col cats agg' df)"
  by (simp add: pivot_table_eq)

lemma churn_suffix_contains: "str_contains ''Churn'' (c @ '' Churn %'')"
  unfolding str_contains_iff by (rule exI [of _ "c @ '' ''"], rule exI [of _ "'' %''"]) simp

subsection \<open>The heatmap frame\<close>

lemma heat_churn_pct_eq:
  assumes "\<forall>r\<in>set df. \<forall>c. Contract r = Some c \<longrightarrow> \<not> str_contains ''Churn'' c"
  shows "heat_churn_pct cats df =
           frame_round 1 (frame_scale 100 (pivot_table TotalChargeRange Contract cats (agg_yes_mean Churn) df))"
proof -
  let ?P = "pivot_table TotalChargeRange Contract cats (agg_yes_mean Churn) df"
  let ?C = "heat_count_table cats df"
  have ix: "fst ?C = fst ?P"
    unfolding heat_count_table_def by (rule fst_pivot_table)
  have names: "\<not> str_contains ''Churn'' n" if "(n, vs) \<in> set (snd (pivot_table TotalChargeRange Contract cats agg df))" for n vs agg
    using pivot_table_names [OF that] assms by blast
  have c: "filter (\<lambda>(n, vs). str_contains ''Churn'' n) (map (\<lambda>(n, vs). (n, map (fround 1) vs)) (snd ?C)) = []"
    using names [where agg = "agg_count customerID"] by (auto simp: heat_count_table_def filter_empty_conv)
  have r: "\<forall>p\<in>set (snd ?P). str_replace '' Churn %'' [] (fst p @ '' Churn %'') = fst p"
    using names churn_suffix_roundtrip by fastforce
  show ?thesis
    using c r
    by (simp add: heat_churn_pct_def heat_final_table_def frame_concat_def heat_churn_table_def ix
          frame_round_def frame_scale_def frame_rename_def frame_select_def churn_suffix_contains
          comp_def split_def map_eq_conv)
qed

lemma agg_yes_mean_nonempty:
  "g \<noteq> [] \<Longrightarrow>
     agg_yes_mean v g = Fin (of_nat (length (filter (\<lambda>r. v r = Some ''Yes'') g)) / of_nat (length g))"
  by (simp add: agg_yes_mean_def)

subsection \<open>When the heatmap frame is empty\<close>

lemma pivot_table_cols_Nil: "snd (pivot_table idx col cats agg df) = [] \<longleftrightarrow> pivot_keyed idx col df = []"
proof -
  have "dropna (map col (pivot_keyed idx col df)) = [] \<longleftrightarrow> pivot_keyed idx col df = []"
    by (induction df) (auto simp: pivot_keyed_def)
  then show ?thesis by (simp add: pivot_table_eq)
qed

lemma heat_churn_pct_fst:
  "fst (heat_churn_pct cats hdf) = filter (\<lambda>i. \<exists>r\<in>set hdf. TotalChargeRange r = Some i \<and> Contract r \<noteq> None) cats"
  by (simp add: heat_churn_pct_def heat_final_table_def frame_concat_def heat_churn_table_def
      heat_count_table_def frame_round_def frame_scale_def frame_rename_def frame_select_def pivot_table_eq)

lemma heat_churn_pct_cols_Nil:
  "snd (heat_churn_pct cats hdf) = [] \<longleftrightarrow> pivot_keyed TotalChargeRange Contract hdf = []"
proof -
  let ?P = "pivot_table TotalChargeRange Contract cats (agg_yes_mean Churn) hdf"
  let ?C = "heat_count_table cats hdf"
  have ix: "fst ?C = fst ?P"
    unfolding heat_count_table_def by (rule fst_pivot_table)
  have "snd (heat_churn_pct cats hdf) = [] \<longleftrightarrow>
          filter (\<lambda>(n, vs). str_contains ''Churn'' n) (map (\<lambda>(n, vs). (n, map (fround 1) vs)) (snd ?C)) = [] \<and>
          snd ?P = []"
    by (simp add: heat_churn_pct_def heat_final_table_def frame_concat_def heat_churn_table_def ix
          frame_round_def frame_scale_def frame_rename_def frame_select_def churn_suffix_contains
          comp_def split_def)
  moreover have "snd ?P = [] \<Longrightarrow> snd ?C = []"
    by (simp add: heat_count_table_def pivot_table_cols_Nil)
  ultimately show ?thesis by (auto simp: pivot_table_cols_Nil)
qed

lemma heat_churn_pct_empty_iff:
  "(fst (heat_churn_pct cats hdf) = [] \<or> snd (heat_churn_pct cats hdf) = []) \<longleftrightarrow>
     \<not> (\<exists>r\<in>set hdf. TotalChargeRange r \<in> Some ` set cats \<and> Contract r \<noteq> None)"
  by (auto simp: heat_churn_pct_fst heat_churn_pct_cols_Nil filter_empty_conv pivot_keyed_def)

text \<open>
  C21: when no contract name contains "Churn", each cell of the heatmap frame, for a
  total-charge range and a contract, is NaN if no customer has both, and otherwise the
  share of churn values equal to "Yes" among all customers of the cell, in percent,
  rounded to one decimal; customers whose churn value is missing or neither "Yes" nor
  "No" count as not churned.
\<close>

theorem heat_churn_pct_cells:
  assumes "\<forall>r\<in>set hdf. \<forall>c. Contract r = Some c \<longrightarrow> \<not> str_contains ''Churn'' c"
    and "heat_churn_pct cats hdf = (ix, cols)" and "(c, vs) \<in> set cols" and "i < length ix"
  shows "vs ! i =
           (let g = filter (\<lambda>r. TotalChargeRange r = Some (ix ! i) \<and> Contract r = Some c) hdf
            in if g = [] then NaN
               else fround 1 (Fin (of_nat (length (filter (\<lambda>r. Churn r = Some ''Yes'') g)) / of_nat (length g) * 100)))"
  using assms(2-4)
  by (auto simp: heat_churn_pct_eq [OF assms(1)] pivot_table_eq frame_round_def frame_scale_def
        Let_def pivot_group_def agg_yes_mean_nonempty)

text \<open>
  C22: when no contract name contains "Churn", the heatmap has a row for each
  total-charge range that some customer with a contract falls in, in range order, and
  no row for an empty range (\<open>observed=True\<close>), and a column for each contract of a
  customer with a range, in sorted order.
\<close>

theorem heat_churn_pct_shape:
  assumes "\<forall>r\<in>set hdf. \<forall>c. Contract r = Some c \<longrightarrow> \<not> str_contains ''Churn'' c"
  shows "fst (heat_churn_pct cats hdf) =
           filter (\<lambda>l. \<exists>r\<in>set hdf. TotalChargeRange r = Some l \<and> Contract r \<noteq> None) cats \<and>
         map fst (snd (heat_churn_pct cats hdf)) =
           sort (remdups (dropna (map Contract (filter (\<lambda>r. TotalChargeRange r \<noteq> None) hdf))))"
proof -
  have "dropna (map Contract (pivot_keyed TotalChargeRange Contract hdf)) =
          dropna (map Contract (filter (\<lambda>r. TotalChargeRange r \<noteq> None) hdf))"
    by (induction hdf) (auto simp: pivot_keyed_def)
  then show ?thesis
    by (simp add: heat_churn_pct_eq [OF assms] pivot_table_eq frame_round_def frame_scale_def comp_def split_def)
qed

text \<open>
  C23: the heatmap panel never raises: its \<open>range\<close> and \<open>pd.cut\<close> calls succeed on
  every frame, the column \<open>TotalChargeRange\<close> is added leaving every other column as it
  was, and the panel draws the frame built from it with the labels of the bins.
\<close>

theorem heat_panel_succeeds:
  "\<exists>bins hdf. heat_bins = Inr bins \<and> add_total_charge_range df = Inr hdf \<and>
     map drow.truncate hdf = df \<and> heat_panel df = Inr (heat_churn_pct (heat_labels bins) hdf)"
proof -
  obtain bins where b: "heat_bins = Inr bins" using heat_bins_eq by blast
  let ?hdf = "map2 (\<lambda>r t. drow.extend r (hrow.fields t)) df
                (map (\<lambda>r. cut_value (map of_int bins) (heat_labels bins) (TotalCharges r)) df)"
  have a: "add_total_charge_range df = Inr ?hdf" by (rule add_total_charge_range_ok [OF b])
  have t: "map drow.truncate ?hdf = df"
    by (induction df) auto
  show ?thesis
    by (rule exI [of _ bins], rule exI [of _ ?hdf]) (simp only: a b t heat_panel_def sum.case simp_thms)
qed

lemma heat_count_cell:
  "fin_part (let g = pivot_group TotalChargeRange Contract hdf i c in if g = [] then NaN else agg_count customerID g) =
     of_nat (length (filter (\<lambda>r. TotalChargeRange r = Some i \<and> Contract r = Some c \<and> customerID r \<noteq> None) hdf))"
  by (auto simp: pivot_group_def agg_count_def length_dropna_filter filter_filter conj_assoc filter_empty_conv Let_def)

text \<open>
  C24: the cells of the heatmap's count table add up to the number of customers with a
  total-charge range, a contract and a customer id: customers missing the range (a total
  charge of 0 or less, above 9000, or missing) or the contract are dropped from the grid
  without being reported.
\<close>

theorem heat_count_total:
  assumes "distinct cats"
  shows "grid_sum (heat_count_table cats hdf) =
           of_nat (length (filter (\<lambda>r. TotalChargeRange r \<in> Some ` set cats \<and> Contract r \<noteq> None \<and> customerID r \<noteq> None) hdf))"
proof -
  let ?ix = "filter (\<lambda>i. \<exists>r\<in>set hdf. TotalChargeRange r = Some i \<and> Contract r \<noteq> None) cats"
  let ?cs = "sort (remdups (dropna (map Contract (pivot_keyed TotalChargeRange Contract hdf))))"
  let ?Q = "\<lambda>r. TotalChargeRange r \<in> Some ` set cats \<and> customerID r \<noteq> None"
  have col: "sum_list (map (\<lambda>i. of_nat (length (filter (\<lambda>r. TotalChargeRange r = Some i \<and> Contract r = Some c \<and> customerID r \<noteq> None) hdf))) ?ix)
             = (of_nat (length (filter (\<lambda>r. Contract r = Some c \<and> ?Q r) hdf)) :: rat)" for c
  proof -
    have "sum_list (map (\<lambda>i. length (filter (\<lambda>r. TotalChargeRange r = Some i \<and> Contract r = Some c \<and> customerID r \<noteq> None) hdf)) ?ix)
          = length (filter (\<lambda>r. TotalChargeRange r \<in> Some ` set ?ix \<and> Contract r = Some c \<and> customerID r \<noteq> None) hdf)"
      using assms by (intro sum_filter_keys) simp
    also have "\<dots> = length (filter (\<lambda>r. Contract r = Some c \<and> ?Q r) hdf)"
      by (auto intro!: arg_cong [where f = length] filter_cong)
    finally show ?thesis by (simp only: sum_list_map_of_nat)
  qed
  have "grid_sum (heat_count_table cats hdf) =
          sum_list (map (\<lambda>c. sum_list (map (\<lambda>i. of_nat (length (filter (\<lambda>r. TotalChargeRange r = Some i \<and> Contract r = Some c \<and> customerID r \<noteq> None) hdf))) ?ix)) ?cs)"
    by (simp add: grid_sum_def heat_count_table_def pivot_table_eq heat_count_cell comp_def del: Let_def)
  also have "\<dots> = sum_list (map (\<lambda>c. of_nat (length (filter (\<lambda>r. Contract r = Some c \<and> ?Q r) hdf))) ?cs)"
    by (simp only: col)
  also have "\<dots> = of_nat (sum_list (map (\<lambda>c. length (filter (\<lambda>r. Contract r = Some c \<and> ?Q r) hdf)) ?cs))"
    by (rule sum_list_map_of_nat)
  also have "sum_list (map (\<lambda>c. length (filter (\<lambda>r. Contract r = Some c \<and> ?Q r) hdf)) ?cs) =
             length (filter (\<lambda>r. Contract r \<in> Some ` set ?cs \<and> ?Q r) hdf)"
    by (rule sum_filter_keys) simp
  also have "\<dots> = length (filter (\<lambda>r. TotalChargeRange r \<in> Some ` set cats \<and> Contract r \<noteq> None \<and> customerID r \<noteq> None) hdf)"
  proof (rule arg_cong [where f = length], rule filter_cong [OF refl])
    fix r assume r: "r \<in> set hdf"
    show "(Contract r \<in> Some ` set ?cs \<and> ?Q r) \<longleftrightarrow>
          (TotalChargeRange r \<in> Some ` set cats \<and> Contract r \<noteq> None \<and> customerID r \<noteq> None)"
    proof
      assume "Contract r \<in> Some ` set ?cs \<and> ?Q r"
      then show "TotalChargeRange r \<in> Some ` set cats \<and> Contract r \<noteq> None \<and> customerID r \<noteq> None"
        by auto
    next
      assume B: "TotalChargeRange r \<in> Some ` set cats \<and> Contract r \<noteq> None \<and> customerID r \<noteq> None"
      then obtain c where c: "Contract r = Some c" by auto
      from B r have "r \<in> set (pivot_keyed TotalChargeRange Contract hdf)"
        by (auto simp: pivot_keyed_def)
      then have "Some c \<in> set (map Contract (pivot_keyed TotalChargeRange Contract hdf))"
        using c by (metis image_eqI set_map)
      then have "c \<in> set ?cs" by simp
      with B c show "Contract r \<in> Some ` set ?cs \<and> ?Q r" by auto
    qed
  qed
  finally show ?thesis .
qed

text \<open>
  On a table with no customers the heatmap frame is empty: no row and no column
  (not a grid of all ranges by all contracts with empty cells).
\<close>

theorem heat_panel_empty: "heat_panel [] = Inr ([], [])"
  by (simp add: heat_panel_def heat_bins_eq add_total_charge_range_ok heat_churn_pct_def heat_final_table_def
       heat_count_table_def heat_churn_table_def pivot_table_eq pivot_keyed_def frame_concat_def frame_round_def
       frame_scale_def frame_rename_def frame_select_def)
end
