(* ===== verification/Describe.thy ===== *)
theory Describe
  imports Frame Stats
begin

text \<open>
  \<open>df[['CitizensStatus', 'tenure', 'MonthlyCharges', 'TotalCharges']].describe()\<close>
  (line 40): for each numeric column the count of present values, their mean, sample
  standard deviation (\<open>ddof=1\<close>), minimum, the 25\%, 50\% and 75\% quantiles and the
  maximum. Quantiles are pandas' default linear interpolation (numpy's \<open>'linear'\<close>
  method): on the sorted values \<open>s\<close> of length \<open>n\<close> the quantile \<open>q\<close> sits at the
  virtual index \<open>(n - 1) q\<close>, between \<open>s ! lo\<close> and \<open>s ! hi\<close> with \<open>lo\<close> its floor and
  \<open>hi = min (lo + 1) (n - 1)\<close>. The three quantile levels are exact binary fractions. The
  standard deviation is the square root of a rational variance and is kept as
  \<open>SqrtOf v\<close>, the exact real \<open>\<surd>v\<close>; a column with fewer than two values has
  standard deviation \<open>NaN\<close>, with none all statistics but the count are \<open>NaN\<close>.
\<close>

datatype stat = Num fval | SqrtOf rat

text \<open>numpy's \<open>_lerp\<close> between the neighbours of a virtual index of a sorted array.\<close>

definition lerp_at :: "rat list \<Rightarrow> rat \<Rightarrow> rat" where
  "lerp_at s pos =
     (let lo = nat \<lfloor>pos\<rfloor>; hi = min (Suc lo) (length s - 1); frac = pos - of_int \<lfloor>pos\<rfloor>
      in s ! lo + (s ! hi - s ! lo) * frac)"

definition quantile_linear :: "rat list \<Rightarrow> rat \<Rightarrow> fval" where
  "quantile_linear xs q =
     (if xs = [] then NaN else Fin (lerp_at (sort xs) (of_nat (length xs - 1) * q)))"

definition var_sample :: "rat list \<Rightarrow> rat" where
  "var_sample xs =
     (let m = sum_list xs / of_nat (length xs)
      in sum_list (map (\<lambda>x. (x - m)\<^sup>2) xs) / of_nat (length xs - 1))"

definition std_skipna :: "rat column \<Rightarrow> stat" where
  "std_skipna col = (let xs = dropna col in if length xs \<le> 1 then Num NaN else SqrtOf (var_sample xs))"

definition describe_col :: "rat column \<Rightarrow> (string \<times> stat) list" where
  "describe_col col =
     (let xs = dropna col
      in [(''count'', Num (Fin (of_nat (length xs)))), (''mean'', Num (mean_skipna col)),
          (''std'', std_skipna col), (''min'', Num (min_skipna col)),
          (''25%'', Num (quantile_linear xs (1/4))), (''50%'', Num (quantile_linear xs (1/2))),
          (''75%'', Num (quantile_linear xs (3/4))), (''max'', Num (max_skipna col))])"

definition describe_table :: "'a customer_scheme list \<Rightarrow> (string \<times> (string \<times> stat) list) list" where
  "describe_table df =
     [(''CitizensStatus'', describe_col (map (\<lambda>r. Some (of_int (CitizensStatus r))) df)),
      (''tenure'', describe_col (map (\<lambda>r. Some (of_int (tenure r))) df)),
      (''MonthlyCharges'', describe_col (map MonthlyCharges df)),
      (''TotalCharges'', describe_col (map TotalCharges df))]"

text \<open>The textbook median, the reference for the 50\% row.\<close>

definition median_ref :: "rat list \<Rightarrow> rat" where
  "median_ref xs =
     (let s = sort xs; n = length xs
      in if odd n then s ! (n div 2) else (s ! (n div 2 - 1) + s ! (n div 2)) / 2)"

subsection \<open>Linear interpolation\<close>

lemma floor_nat_parts:
  assumes "0 \<le> (p :: rat)"
  shows "of_int \<lfloor>p\<rfloor> = (of_nat (nat \<lfloor>p\<rfloor>) :: rat)" "0 \<le> p - of_int \<lfloor>p\<rfloor>" "p - of_int \<lfloor>p\<rfloor> < 1"
  using assms by (simp_all add: of_nat_nat floor_less_cancel)

lemma floor_nat_le: "0 \<le> p \<Longrightarrow> of_nat (nat \<lfloor>p\<rfloor>) \<le> (p :: rat)"
  by (simp add: of_nat_nat)

lemma lerp_at_between:
  assumes "sorted s" "s \<noteq> []" "0 \<le> p" "p \<le> of_nat (length s - 1)"
  shows "s ! nat \<lfloor>p\<rfloor> \<le> lerp_at s p"
    and "lerp_at s p \<le> s ! min (Suc (nat \<lfloor>p\<rfloor>)) (length s - 1)"
proof -
  let ?lo = "nat \<lfloor>p\<rfloor>" let ?hi = "min (Suc ?lo) (length s - 1)" let ?f = "p - of_int \<lfloor>p\<rfloor>"
  have "of_nat ?lo \<le> p" by (rule floor_nat_le [OF assms(3)])
  then have "(of_nat ?lo :: rat) \<le> of_nat (length s - 1)" using assms(4) by linarith
  then have lo: "?lo \<le> length s - 1" by (simp only: of_nat_le_iff)
  have "?lo \<le> ?hi" using lo by auto
  moreover have "?hi < length s" using assms(2) by (simp add: min.strict_coboundedI2)
  ultimately have "s ! ?lo \<le> s ! ?hi" by (rule sorted_nth_mono [OF assms(1)])
  then have d: "0 \<le> s ! ?hi - s ! ?lo" by simp
  have f: "0 \<le> ?f" "?f < 1" by (fact floor_nat_parts(2) [OF assms(3)], fact floor_nat_parts(3) [OF assms(3)])
  have e: "lerp_at s p = s ! ?lo + (s ! ?hi - s ! ?lo) * ?f" by (simp only: lerp_at_def Let_def)
  have "0 \<le> (s ! ?hi - s ! ?lo) * ?f" using d f(1) by (rule mult_nonneg_nonneg)
  then show "s ! ?lo \<le> lerp_at s p" unfolding e by linarith
  have "(s ! ?hi - s ! ?lo) * ?f \<le> s ! ?hi - s ! ?lo"
    using mult_left_mono [OF less_imp_le [OF f(2)] d] by simp
  then show "lerp_at s p \<le> s ! ?hi" unfolding e by linarith
qed

lemma lerp_at_nat: "k < length s \<Longrightarrow> lerp_at s (of_nat k) = s ! k"
  by (simp add: lerp_at_def)

lemma lerp_at_mono:
  assumes "sorted s" "s \<noteq> []" "0 \<le> p" "p \<le> p'" "p' \<le> of_nat (length s - 1)"
  shows "lerp_at s p \<le> lerp_at s p'"
proof (cases "\<lfloor>p\<rfloor> = \<lfloor>p'\<rfloor>")
  case True
  let ?lo = "nat \<lfloor>p\<rfloor>" let ?hi = "min (Suc ?lo) (length s - 1)"
  have "of_nat ?lo \<le> p" by (rule floor_nat_le [OF assms(3)])
  then have "(of_nat ?lo :: rat) \<le> of_nat (length s - 1)" using assms(4,5) by linarith
  then have "?lo \<le> length s - 1" by (simp only: of_nat_le_iff)
  then have "?lo \<le> ?hi" by simp
  moreover have "?hi < length s" using assms(2) by (simp add: min.strict_coboundedI2)
  ultimately have "s ! ?lo \<le> s ! ?hi" by (rule sorted_nth_mono [OF assms(1)])
  then have "0 \<le> s ! ?hi - s ! ?lo" by simp
  moreover have "p - of_int \<lfloor>p\<rfloor> \<le> p' - of_int \<lfloor>p'\<rfloor>" using assms(4) True by simp
  ultimately have "(s ! ?hi - s ! ?lo) * (p - of_int \<lfloor>p\<rfloor>) \<le> (s ! ?hi - s ! ?lo) * (p' - of_int \<lfloor>p'\<rfloor>)"
    by (rule mult_left_mono [rotated])
  then show ?thesis unfolding lerp_at_def Let_def True by simp
next
  case False
  have "\<lfloor>p\<rfloor> \<le> \<lfloor>p'\<rfloor>" by (rule floor_mono [OF assms(4)])
  with False have lt: "\<lfloor>p\<rfloor> < \<lfloor>p'\<rfloor>" by simp
  have "0 \<le> \<lfloor>p\<rfloor>" using assms(3) by simp
  with lt have nlt: "nat \<lfloor>p\<rfloor> < nat \<lfloor>p'\<rfloor>" using nat_less_eq_zless by blast
  have p': "0 \<le> p'" using assms(3,4) by linarith
  have "of_nat (nat \<lfloor>p'\<rfloor>) \<le> p'" by (rule floor_nat_le [OF p'])
  then have "(of_nat (nat \<lfloor>p'\<rfloor>) :: rat) \<le> of_nat (length s - 1)" using assms(5) by linarith
  then have "nat \<lfloor>p'\<rfloor> \<le> length s - 1" by (simp only: of_nat_le_iff)
  moreover have "0 < length s" using assms(2) by simp
  ultimately have lo': "nat \<lfloor>p'\<rfloor> < length s" by linarith
  have "min (Suc (nat \<lfloor>p\<rfloor>)) (length s - 1) \<le> nat \<lfloor>p'\<rfloor>"
    by (rule min.coboundedI1) (rule Suc_leI [OF nlt])
  then have mid: "s ! min (Suc (nat \<lfloor>p\<rfloor>)) (length s - 1) \<le> s ! nat \<lfloor>p'\<rfloor>"
    using assms(1) lo' by (simp add: sorted_nth_mono)
  have pl: "p \<le> of_nat (length s - 1)" using assms(4,5) by linarith
  have a: "lerp_at s p \<le> s ! min (Suc (nat \<lfloor>p\<rfloor>)) (length s - 1)"
    by (rule lerp_at_between(2) [OF assms(1-3) pl])
  have b: "s ! nat \<lfloor>p'\<rfloor> \<le> lerp_at s p'"
    by (rule lerp_at_between(1) [OF assms(1,2) p' assms(5)])
  show ?thesis by (rule order_trans [OF order_trans [OF a mid] b])
qed

lemma sorted_nth0_Min:
  assumes "sorted s" "s \<noteq> []"
  shows "s ! 0 = Min (set s)"
proof (rule Min_eqI [symmetric])
  show "finite (set s)" by simp
  show "s ! 0 \<in> set s" using assms(2) by simp
  fix y assume "y \<in> set s"
  then obtain i where "i < length s" "y = s ! i" by (auto simp: in_set_conv_nth)
  then show "s ! 0 \<le> y" using assms(1) by (simp add: sorted_nth_mono)
qed

lemma sorted_nth_last_Max:
  assumes "sorted s" "s \<noteq> []"
  shows "s ! (length s - 1) = Max (set s)"
proof (rule Max_eqI [symmetric])
  show "finite (set s)" by simp
  show "s ! (length s - 1) \<in> set s" using assms(2) by simp
  fix y assume "y \<in> set s"
  then obtain i where "i < length s" "y = s ! i" by (auto simp: in_set_conv_nth)
  then show "y \<le> s ! (length s - 1)" using assms(1) by (simp add: sorted_nth_mono)
qed

lemma quantile_linear_lerp:
  "xs \<noteq> [] \<Longrightarrow> quantile_linear xs q = Fin (lerp_at (sort xs) (of_nat (length (sort xs) - 1) * q))"
  by (simp add: quantile_linear_def)

lemma quantile_linear_mono:
  assumes "xs \<noteq> []" "0 \<le> q" "q \<le> q'" "q' \<le> 1"
  shows "lerp_at (sort xs) (of_nat (length (sort xs) - 1) * q) \<le> lerp_at (sort xs) (of_nat (length (sort xs) - 1) * q')"
proof (rule lerp_at_mono)
  let ?n = "of_nat (length (sort xs) - 1) :: rat"
  show "sorted (sort xs)" "sort xs \<noteq> []" using assms(1) by simp_all
  show "0 \<le> ?n * q" using assms(2) by simp
  show "?n * q \<le> ?n * q'" using assms(3) by (simp add: mult_left_mono)
  show "?n * q' \<le> ?n" using assms(4) by (simp add: mult_left_le)
qed

lemma lerp_at_endpoints:
  assumes "xs \<noteq> []"
  shows "lerp_at (sort xs) (of_nat (length (sort xs) - 1) * 0) = Min (set xs)"
    and "lerp_at (sort xs) (of_nat (length (sort xs) - 1) * 1) = Max (set xs)"
proof -
  let ?s = "sort xs"
  have s: "sorted ?s" "?s \<noteq> []" using assms by simp_all
  have "lerp_at ?s (of_nat (length ?s - 1) * 0) = ?s ! 0" using lerp_at_nat [of 0 ?s] s(2) by simp
  also have "\<dots> = Min (set xs)" using sorted_nth0_Min [OF s] by simp
  finally show "lerp_at ?s (of_nat (length ?s - 1) * 0) = Min (set xs)" .
  have "length ?s - 1 < length ?s" using s(2) by simp
  then have "lerp_at ?s (of_nat (length ?s - 1) * 1) = ?s ! (length ?s - 1)"
    unfolding mult_1_right by (rule lerp_at_nat)
  also have "\<dots> = Max (set xs)" using sorted_nth_last_Max [OF s] by simp
  finally show "lerp_at ?s (of_nat (length ?s - 1) * 1) = Max (set xs)" .
qed

text \<open>
  C25: for a column with at least one value, the rows min, 25\%, 50\%, 75\% and max of
  \<open>describe()\<close> are numbers, in non-decreasing order.
\<close>

theorem describe_quantiles_ordered:
  assumes "dropna col \<noteq> []"
  shows "\<exists>a b c d e. drop 3 (map snd (describe_col col)) =
            [Num (Fin a), Num (Fin b), Num (Fin c), Num (Fin d), Num (Fin e)] \<and>
            a \<le> b \<and> b \<le> c \<and> c \<le> d \<and> d \<le> e"
proof -
  let ?xs = "dropna col" let ?s = "sort ?xs" let ?n = "of_nat (length ?s - 1) :: rat"
  let ?L = "\<lambda>q. lerp_at ?s (?n * q)"
  note lo = lerp_at_endpoints(1) [OF assms, symmetric] and hi = lerp_at_endpoints(2) [OF assms, symmetric]
  have m: "?L q \<le> ?L q'" if "0 \<le> q" "q \<le> q'" "q' \<le> 1" for q q'
    using quantile_linear_mono [OF assms that] .
  have eq: "drop 3 (map snd (describe_col col)) =
      [Num (Fin (?L 0)), Num (Fin (?L (1/4))), Num (Fin (?L (1/2))), Num (Fin (?L (3/4))), Num (Fin (?L 1))]"
    using assms by (simp add: describe_col_def min_skipna_def max_skipna_def Let_def lo hi quantile_linear_lerp del: set_dropna)
  have "?L 0 \<le> ?L (1/4)" "?L (1/4) \<le> ?L (1/2)" "?L (1/2) \<le> ?L (3/4)" "?L (3/4) \<le> ?L 1"
    by (rule m; simp)+
  with eq show ?thesis by blast
qed

lemma lerp_at_half:
  assumes "Suc k < length s"
  shows "lerp_at s (of_nat k + 1/2) = (s ! k + s ! Suc k) / 2"
proof -
  have f: "\<lfloor>of_nat k + 1/2 :: rat\<rfloor> = int k" by (rule floor_unique) simp_all
  have h: "min (Suc k) (length s - 1) = Suc k" using assms by simp
  have "lerp_at s (of_nat k + 1/2) = s ! k + (s ! Suc k - s ! k) * (1/2)"
    by (simp only: lerp_at_def Let_def f h nat_int of_int_of_nat_eq add_diff_cancel_left')
  also have "\<dots> = (s ! k + s ! Suc k) / 2" by (simp add: algebra_simps)
  finally show ?thesis .
qed

text \<open>
  C26: the 50\% row of \<open>describe()\<close> is the textbook median: the middle value of the
  sorted column for an odd count, the mean of the two middle values for an even one.
\<close>

theorem quantile_half_median:
  assumes "xs \<noteq> []"
  shows "quantile_linear xs (1/2) = Fin (median_ref xs)"
proof -
  let ?s = "sort xs" let ?n = "length xs"
  have q: "quantile_linear xs (1/2) = Fin (lerp_at ?s (of_nat (?n - 1) * (1/2)))"
    using assms by (simp add: quantile_linear_def)
  show ?thesis
  proof (cases "odd ?n")
    case True
    then obtain k where n: "?n = Suc (2 * k)" by (metis oddE Suc_eq_plus1 add.commute)
    then have "of_nat (?n - 1) * (1/2) = (of_nat k :: rat)" by simp
    moreover have "lerp_at ?s (of_nat k) = ?s ! k" using n by (intro lerp_at_nat) simp
    ultimately show ?thesis using True n by (simp add: q median_ref_def)
  next
    case False
    with assms obtain k where n: "?n = Suc (Suc (2 * k))"
      by (metis evenE length_0_conv mult_0_right not0_implies_Suc add_Suc_right mult_2 add_Suc)
    then have "of_nat (?n - 1) * (1/2) = (of_nat k + 1/2 :: rat)" by (simp add: field_simps)
    then have "quantile_linear xs (1/2) = Fin (lerp_at ?s (of_nat k + 1/2))" by (simp only: q)
    also have "lerp_at ?s (of_nat k + 1/2) = (?s ! k + ?s ! Suc k) / 2"
      using n by (intro lerp_at_half) simp
    also have "(?s ! k + ?s ! Suc k) / 2 = median_ref xs"
      using n by (simp add: median_ref_def Let_def)
    finally show ?thesis .
  qed
qed

lemma sum_list_nonneg_eq_0_iff:
  "\<forall>x\<in>set xs. 0 \<le> f x \<Longrightarrow> sum_list (map f xs) = (0 :: rat) \<longleftrightarrow> (\<forall>x\<in>set xs. f x = 0)"
proof (induction xs)
  case Nil
  then show ?case by simp
next
  case (Cons a xs)
  have "0 \<le> sum_list (map f xs)" using Cons.prems by (intro sum_list_nonneg) auto
  then have "f a + sum_list (map f xs) = 0 \<longleftrightarrow> f a = 0 \<and> sum_list (map f xs) = 0"
    using Cons.prems by (intro add_nonneg_eq_0_iff) auto
  with Cons show ?case by simp
qed

lemma mean_const: "xs \<noteq> [] \<Longrightarrow> \<forall>x\<in>set xs. x = c \<Longrightarrow> sum_list xs / of_nat (length xs) = (c :: rat)"
proof -
  assume "xs \<noteq> []" "\<forall>x\<in>set xs. x = c"
  then have "xs = replicate (length xs) c" by (simp add: replicate_length_same)
  then have "sum_list xs = of_nat (length xs) * c" by (metis sum_list_replicate length_replicate)
  with \<open>xs \<noteq> []\<close> show ?thesis by simp
qed

lemma var_sample_zero_iff:
  assumes "xs \<noteq> []"
  shows "var_sample xs = 0 \<longleftrightarrow> (\<forall>x\<in>set xs. x = hd xs)"
proof (cases "length xs = 1")
  case True
  then obtain a where "xs = [a]" by (metis One_nat_def length_0_conv length_Suc_conv)
  then show ?thesis by (simp add: var_sample_def)
next
  case False
  let ?m = "sum_list xs / of_nat (length xs)"
  have d: "(of_nat (length xs - 1) :: rat) \<noteq> 0" using False assms by (cases xs) auto
  have sq: "sum_list (map (\<lambda>x. (x - ?m)\<^sup>2) xs) = 0 \<longleftrightarrow> (\<forall>x\<in>set xs. x = ?m)"
    by (simp add: sum_list_nonneg_eq_0_iff)
  have eq: "(\<forall>x\<in>set xs. x = ?m) \<longleftrightarrow> (\<forall>x\<in>set xs. x = hd xs)"
  proof
    assume a: "\<forall>x\<in>set xs. x = ?m"
    moreover have "hd xs \<in> set xs" using assms by simp
    ultimately have "hd xs = ?m" by blast
    with a show "\<forall>x\<in>set xs. x = hd xs" by simp
  next
    assume "\<forall>x\<in>set xs. x = hd xs"
    then show "\<forall>x\<in>set xs. x = ?m" using mean_const [OF assms] by simp
  qed
  have v: "var_sample xs = sum_list (map (\<lambda>x. (x - ?m)\<^sup>2) xs) / of_nat (length xs - 1)"
    by (simp only: var_sample_def Let_def)
  show ?thesis unfolding v divide_eq_0_iff sq eq using d by (simp only: simp_thms)
qed

lemma var_sample_nonneg: "0 \<le> var_sample xs"
proof -
  have "0 \<le> sum_list (map (\<lambda>x. (x - sum_list xs / of_nat (length xs))\<^sup>2) xs)"
    by (intro sum_list_nonneg) auto
  then show ?thesis unfolding var_sample_def Let_def by (rule divide_nonneg_nonneg) simp
qed

text \<open>
  C27: the std row of \<open>describe()\<close> is NaN exactly when the column has fewer than two
  values; otherwise it is the square root of a non-negative variance, which is zero exactly
  when all values are equal.
\<close>

theorem std_skipna_cases:
  "(std_skipna col = Num NaN \<longleftrightarrow> length (dropna col) \<le> 1) \<and>
   (\<forall>v. std_skipna col = SqrtOf v \<longrightarrow>
      0 \<le> v \<and> (v = 0 \<longleftrightarrow> (\<forall>x\<in>set (dropna col). x = hd (dropna col))))"
proof (cases "length (dropna col) \<le> 1")
  case True
  then show ?thesis by (simp add: std_skipna_def Let_def)
next
  case False
  then have ne: "dropna col \<noteq> []" by auto
  have s: "std_skipna col = SqrtOf (var_sample (dropna col))"
    using False by (simp add: std_skipna_def Let_def)
  note z = var_sample_zero_iff [OF ne] and nn = var_sample_nonneg [of "dropna col"]
  show ?thesis unfolding s using False z nn by (auto simp del: set_dropna)
qed

end
