(* ===== verification/Charts.thy ===== *)
theory Charts
  imports GroupTables Describe
begin

text \<open>
  What the charts of \<open>teleco_app.py\<close> draw, as data (the drawing itself is not modelled):
  \<^item> the count plots \<open>sns.countplot(data=df, x=X, hue='Churn')\<close> of lines 99 to 111 and
    134: one bar per (x level, hue level), its height the number of rows with both; the
    levels follow seaborn's \<open>categorical_order\<close>: the categories of a Categorical
    column, the sorted distinct values of a numeric one, and otherwise the distinct values
    in order of first appearance, missing values dropped;
  \<^item> the box plot \<open>sns.boxplot(data=df, x='Churn', y='MonthlyCharges', hue='Churn')\<close>
    of line 114: for each churn level matplotlib's \<open>boxplot_stats\<close> with
    \<open>whis=1.5\<close> on the present monthly charges of the level: the quartiles by linear
    interpolation, the whiskers at the most extreme values within 1.5 IQR of the box
    (or at the box edge when there is none), and the values outside the whiskers as
    fliers;
  \<^item> the regression line \<open>sns.regplot(x='MonthlyCharges', y='ChurnBinary', ci=None)\<close>
    of line 144: the rows with both values present, and the coefficients
    \<open>pinv(X) y\<close> of the design matrix \<open>X = [1, x]\<close> that seaborn's \<open>fit_fast\<close>
    computes: the ordinary least-squares line when the x values are not all equal, and
    for a constant x value \<open>c\<close> the minimum-norm solution \<open>(m, m c) / (1 + c\<^sup>2)\<close>
    with \<open>m\<close> the mean of y. With at most one point seaborn sets \<open>fit_reg = False\<close>
    and draws no line (\<open>None\<close>), only the scatter.
\<close>

definition appearance_order :: "'a column \<Rightarrow> 'a list" where
  "appearance_order col = unique (dropna col)"

definition countplot_bars ::
  "'x list \<Rightarrow> 'h list \<Rightarrow> ('r \<Rightarrow> 'x option) \<Rightarrow> ('r \<Rightarrow> 'h option) \<Rightarrow> 'r list \<Rightarrow> ('x \<times> 'h \<times> nat) list"
where
  "countplot_bars xs hs x hue df =
     concat (map (\<lambda>a. map (\<lambda>b. (a, b, length (filter (\<lambda>r. x r = Some a \<and> hue r = Some b) df))) hs) xs)"

definition churn_count_plot :: "drow list \<Rightarrow> (string \<times> string \<times> nat) list" where
  "churn_count_plot df =
     countplot_bars (appearance_order (map Churn df)) (appearance_order (map Churn df)) Churn Churn df"

definition citizenship_plot :: "drow list \<Rightarrow> (int \<times> string \<times> nat) list" where
  "citizenship_plot df =
     countplot_bars (sort (unique (map CitizensStatus df))) (appearance_order (map Churn df))
       (\<lambda>r. Some (CitizensStatus r)) Churn df"

definition contract_plot :: "drow list \<Rightarrow> (string \<times> string \<times> nat) list" where
  "contract_plot df =
     countplot_bars (appearance_order (map Contract df)) (appearance_order (map Churn df)) Contract Churn df"

definition tech_plot :: "drow list \<Rightarrow> (string \<times> string \<times> nat) list" where
  "tech_plot df =
     countplot_bars (appearance_order (map TechSupport df)) (appearance_order (map Churn df)) TechSupport Churn df"

definition internet_plot :: "drow list \<Rightarrow> (string \<times> string \<times> nat) list" where
  "internet_plot df =
     countplot_bars (appearance_order (map InternetService df)) (appearance_order (map Churn df))
       InternetService Churn df"

definition charge_range_plot :: "drow list \<Rightarrow> (string \<times> string \<times> nat) list" where
  "charge_range_plot df =
     countplot_bars charge_labels (appearance_order (map Churn df)) ChargeRange Churn df"

record box =
  q1 :: rat
  med :: rat
  q3 :: rat
  whislo :: rat
  whishi :: rat
  fliers :: "rat list"

definition the_fin :: "fval \<Rightarrow> rat" where
  "the_fin v = (case v of Fin a \<Rightarrow> a | _ \<Rightarrow> 0)"

definition boxplot_stats :: "rat list \<Rightarrow> box option" where
  "boxplot_stats xs =
     (if xs = [] then None
      else let a = the_fin (quantile_linear xs (1/4)); m = the_fin (quantile_linear xs (1/2));
               b = the_fin (quantile_linear xs (3/4)); iqr = b - a;
               loval = a - 3/2 * iqr; hival = b + 3/2 * iqr;
               hi_in = filter (\<lambda>x. x \<le> hival) xs; lo_in = filter (\<lambda>x. loval \<le> x) xs;
               wh = (if hi_in = [] \<or> Max (set hi_in) < b then b else Max (set hi_in));
               wl = (if lo_in = [] \<or> a < Min (set lo_in) then a else Min (set lo_in))
           in Some \<lparr>q1 = a, med = m, q3 = b, whislo = wl, whishi = wh,
                    fliers = filter (\<lambda>x. x < wl) xs @ filter (\<lambda>x. wh < x) xs\<rparr>)"

definition monthly_box_plot :: "drow list \<Rightarrow> (string \<times> box option) list" where
  "monthly_box_plot df =
     map (\<lambda>c. (c, boxplot_stats (dropna (map MonthlyCharges (filter (\<lambda>r. Churn r = Some c) df)))))
       (appearance_order (map Churn df))"

definition reg_points :: "drow list \<Rightarrow> (rat \<times> rat) list" where
  "reg_points df =
     concat (map (\<lambda>r. case (MonthlyCharges r, ChurnBinary r) of
                         (Some x, Some y) \<Rightarrow> [(x, of_int y)] | _ \<Rightarrow> []) df)"

definition mean_of :: "rat list \<Rightarrow> rat" where
  "mean_of xs = sum_list xs / of_nat (length xs)"

definition regplot_fit :: "(rat \<times> rat) list \<Rightarrow> (rat \<times> rat) option" where
  "regplot_fit ps =
     (if ps = [] then None
      else let xs = map fst ps; ys = map snd ps; mx = mean_of xs; my = mean_of ys;
               sxx = sum_list (map (\<lambda>x. (x - mx)\<^sup>2) xs);
               sxy = sum_list (map (\<lambda>(x, y). (x - mx) * (y - my)) ps)
           in if sxx \<noteq> 0 then let b = sxy / sxx in Some (my - b * mx, b)
              else let c = hd xs in Some (my / (1 + c\<^sup>2), my * c / (1 + c\<^sup>2)))"

definition regression_line :: "drow list \<Rightarrow> (rat \<times> rat) option" where
  "regression_line df = (let ps = reg_points df in if length ps \<le> 1 then None else regplot_fit ps)"

text \<open>The least-squares criterion a fitted line \<open>y = a + b x\<close> is judged by.\<close>

definition sse :: "(rat \<times> rat) list \<Rightarrow> rat \<Rightarrow> rat \<Rightarrow> rat" where
  "sse ps a b = sum_list (map (\<lambda>(x, y). (y - (a + b * x))\<^sup>2) ps)"

subsection \<open>Count plots\<close>

lemma countplot_bars_mem:
  "(a, b, n) \<in> set (countplot_bars xs hs x hue df) \<longleftrightarrow>
     a \<in> set xs \<and> b \<in> set hs \<and> n = length (filter (\<lambda>r. x r = Some a \<and> hue r = Some b) df)"
  by (auto simp: countplot_bars_def)

lemma appearance_order_mem [simp]: "a \<in> set (appearance_order (map f df)) \<longleftrightarrow> Some a \<in> f ` set df"
  by (auto simp: appearance_order_def)

lemma appearance_order_self:
  "r \<in> set df \<Longrightarrow> f r \<in> Some ` set (appearance_order (map f df)) \<longleftrightarrow> f r \<noteq> None"
  by (force simp: appearance_order_def)

lemma sum_list_concat_map: "sum_list (concat xss) = sum_list (map sum_list xss)"
  by (induction xss) simp_all

lemma countplot_bars_total:
  assumes "distinct xs" "distinct hs"
  shows "sum_list (map (\<lambda>(a, b, n). n) (countplot_bars xs hs x hue df)) =
           length (filter (\<lambda>r. x r \<in> Some ` set xs \<and> hue r \<in> Some ` set hs) df)"
proof -
  have inner: "sum_list (map (\<lambda>b. length (filter (\<lambda>r. x r = Some a \<and> hue r = Some b) df)) hs) =
                 length (filter (\<lambda>r. x r = Some a \<and> hue r \<in> Some ` set hs) df)" for a
  proof -
    have "sum_list (map (\<lambda>b. length (filter (\<lambda>r. hue r = Some b \<and> x r = Some a) df)) hs) =
            length (filter (\<lambda>r. hue r \<in> Some ` set hs \<and> x r = Some a) df)"
      using assms(2) by (rule sum_filter_keys)
    then show ?thesis by (simp add: conj_commute)
  qed
  have "sum_list (map (\<lambda>(a, b, n). n) (countplot_bars xs hs x hue df)) =
          sum_list (map (\<lambda>a. sum_list (map (\<lambda>b. length (filter (\<lambda>r. x r = Some a \<and> hue r = Some b) df)) hs)) xs)"
    by (simp add: countplot_bars_def map_concat sum_list_concat_map comp_def)
  also have "\<dots> = sum_list (map (\<lambda>a. length (filter (\<lambda>r. x r = Some a \<and> hue r \<in> Some ` set hs) df)) xs)"
    by (simp only: inner)
  also have "\<dots> = length (filter (\<lambda>r. x r \<in> Some ` set xs \<and> hue r \<in> Some ` set hs) df)"
    using assms(1) by (rule sum_filter_keys)
  finally show ?thesis .
qed

text \<open>
  C28: the bars of the contract count plot add up to the number of customers with both a
  contract and a churn value: every such customer is drawn in exactly one bar.
\<close>

theorem contract_plot_total:
  "sum_list (map (\<lambda>(a, b, n). n) (contract_plot df)) =
     length (filter (\<lambda>r. Contract r \<noteq> None \<and> Churn r \<noteq> None) df)"
proof -
  have "sum_list (map (\<lambda>(a, b, n). n) (contract_plot df)) =
          length (filter (\<lambda>r. Contract r \<in> Some ` set (appearance_order (map Contract df)) \<and>
                              Churn r \<in> Some ` set (appearance_order (map Churn df))) df)"
    unfolding contract_plot_def by (rule countplot_bars_total) (simp_all add: appearance_order_def)
  also have "\<dots> = length (filter (\<lambda>r. Contract r \<noteq> None \<and> Churn r \<noteq> None) df)"
    by (rule arg_cong [where f = length], rule filter_cong [OF refl]) (simp add: appearance_order_self)
  finally show ?thesis .
qed

text \<open>
  C29: each "Yes" bar of the contract count plot shows the churned count of the
  "Churn by Contract" table for that contract: the table has a row for the contract, and
  its Churned cell is the bar height (NaN when the height is 0).
\<close>

theorem contract_plot_matches_table:
  assumes "(a, ''Yes'', n) \<in> set (contract_plot df)"
  shows "\<exists>vals. map_of (contract_table df) a = Some vals \<and> vals ! 1 = count_cell n"
proof -
  from assms have a: "Some a \<in> Contract ` set df"
    and n: "n = length (filter (\<lambda>r. Contract r = Some a \<and> Churn r = Some ''Yes'') df)"
    by (simp_all add: contract_plot_def countplot_bars_mem)
  have t: "0 < group_count Contract df a" using a by (simp add: group_count_pos_iff)
  have "n = group_count Contract (churned df) a"
    by (simp add: n group_count_def churned_def conj_commute)
  with churn_pct_cells [OF t] show ?thesis by (simp add: contract_table_def)
qed

subsection \<open>Box plot\<close>

lemma Min_filter_ge: "filter P xs \<noteq> [] \<Longrightarrow> Min (set xs) \<le> Min (set (filter P xs))"
  by (rule Min_antimono) (auto simp: filter_empty_conv)

lemma Max_filter_le: "filter P xs \<noteq> [] \<Longrightarrow> Max (set (filter P xs)) \<le> Max (set xs)"
  by (rule Max_mono) (auto simp: filter_empty_conv)

text \<open>
  C30: every box of the box plot is ordered: the smallest value \<open>\<le>\<close> lower whisker
  \<open>\<le>\<close> first quartile \<open>\<le>\<close> median \<open>\<le>\<close> third quartile \<open>\<le>\<close> upper
  whisker \<open>\<le>\<close> the largest value; the fliers are values of the group, and every other
  value lies between the whiskers.
\<close>

theorem boxplot_stats_ordered:
  assumes "boxplot_stats xs = Some bx"
  shows "Min (set xs) \<le> whislo bx \<and> whislo bx \<le> q1 bx \<and> q1 bx \<le> med bx \<and> med bx \<le> q3 bx \<and>
         q3 bx \<le> whishi bx \<and> whishi bx \<le> Max (set xs) \<and> set (fliers bx) \<subseteq> set xs \<and>
         (\<forall>x\<in>set xs. x \<notin> set (fliers bx) \<longrightarrow> whislo bx \<le> x \<and> x \<le> whishi bx)"
proof -
  have ne: "xs \<noteq> []" using assms by (auto simp: boxplot_stats_def)
  let ?n = "of_nat (length (sort xs) - 1) :: rat"
  let ?L = "\<lambda>q. lerp_at (sort xs) (?n * q)"
  have m: "?L q \<le> ?L q'" if "0 \<le> q" "q \<le> q'" "q' \<le> 1" for q q'
    using quantile_linear_mono [OF ne that] .
  have L0: "Min (set xs) \<le> ?L (1/4)" using m [of 0 "1/4"] lerp_at_endpoints(1) [OF ne] by simp
  have L1: "?L (3/4) \<le> Max (set xs)" using m [of "3/4" 1] lerp_at_endpoints(2) [OF ne] by simp
  have ab: "?L (1/4) \<le> ?L (1/2)" "?L (1/2) \<le> ?L (3/4)" by (rule m; simp)+
  let ?a = "?L (1/4)" and ?b = "?L (3/4)"
  let ?lo = "filter (\<lambda>x. ?a - 3/2 * (?b - ?a) \<le> x) xs" and ?hi = "filter (\<lambda>x. x \<le> ?b + 3/2 * (?b - ?a)) xs"
  define wl where "wl = (if ?lo = [] \<or> ?a < Min (set ?lo) then ?a else Min (set ?lo))"
  define wh where "wh = (if ?hi = [] \<or> Max (set ?hi) < ?b then ?b else Max (set ?hi))"
  have bx: "bx = \<lparr>q1 = ?a, med = ?L (1/2), q3 = ?b, whislo = wl, whishi = wh,
                   fliers = filter (\<lambda>x. x < wl) xs @ filter (\<lambda>x. wh < x) xs\<rparr>"
  proof -
    have "boxplot_stats xs = Some \<lparr>q1 = ?a, med = ?L (1/2), q3 = ?b, whislo = wl, whishi = wh,
                   fliers = filter (\<lambda>x. x < wl) xs @ filter (\<lambda>x. wh < x) xs\<rparr>"
      unfolding boxplot_stats_def quantile_linear_lerp [OF ne] the_fin_def fval.case Let_def wl_def wh_def
      using ne by (simp only: if_False)
    with assms show ?thesis by simp
  qed
  have wl: "Min (set xs) \<le> wl \<and> wl \<le> ?a"
    using L0 Min_filter_ge [of _ xs] by (auto simp: wl_def)
  have wh: "?b \<le> wh \<and> wh \<le> Max (set xs)"
    using L1 Max_filter_le [of _ xs] by (auto simp: wh_def)
  show ?thesis using wl wh ab by (auto simp: bx)
qed

subsection \<open>Regression line\<close>

lemma sse_decomp:
  "sse ps a b =
     sse ps b0 b1 + 2 * (b0 - a) * sum_list (map (\<lambda>(x, y). y - (b0 + b1 * x)) ps)
     + 2 * (b1 - b) * sum_list (map (\<lambda>(x, y). x * (y - (b0 + b1 * x))) ps)
     + sum_list (map (\<lambda>(x, y). ((b0 - a) + (b1 - b) * x)\<^sup>2) ps)"
  by (induction ps) (auto simp: sse_def algebra_simps power2_eq_square)

lemma sum_resid:
  fixes ps :: "(rat \<times> rat) list"
  shows "sum_list (map (\<lambda>(x, y). y - (b0 + b1 * x)) ps) =
     sum_list (map snd ps) - of_nat (length ps) * b0 - b1 * sum_list (map fst ps)"
  by (induction ps) (auto simp: algebra_simps)

lemma sum_x_resid:
  fixes ps :: "(rat \<times> rat) list"
  shows "sum_list (map (\<lambda>(x, y). x * (y - (b0 + b1 * x))) ps) =
     sum_list (map (\<lambda>(x, y). x * y) ps) - b0 * sum_list (map fst ps) - b1 * sum_list (map (\<lambda>(x, y). x * x) ps)"
  by (induction ps) (auto simp: algebra_simps)

lemma sxx_expand:
  fixes ps :: "(rat \<times> rat) list"
  shows "sum_list (map (\<lambda>x. (x - m)\<^sup>2) (map fst ps)) =
     sum_list (map (\<lambda>(x, y). x * x) ps) - 2 * m * sum_list (map fst ps) + of_nat (length ps) * m * m"
  by (induction ps) (auto simp: algebra_simps power2_eq_square)

lemma sxy_expand:
  fixes ps :: "(rat \<times> rat) list"
  shows "sum_list (map (\<lambda>(x, y). (x - mx) * (y - my)) ps) =
     sum_list (map (\<lambda>(x, y). x * y) ps) - my * sum_list (map fst ps) - mx * sum_list (map snd ps)
     + of_nat (length ps) * mx * my"
  by (induction ps) (auto simp: algebra_simps)

lemma sum_x_resid_const:
  fixes ps :: "(rat \<times> rat) list"
  shows "\<forall>p\<in>set ps. fst p = c \<Longrightarrow>
     sum_list (map (\<lambda>(x, y). x * (y - (b0 + b1 * x))) ps) = c * sum_list (map (\<lambda>(x, y). y - (b0 + b1 * x)) ps)"
  by (induction ps) (auto simp: algebra_simps)

lemma sum_fst_const:
  fixes ps :: "(rat \<times> rat) list"
  shows "\<forall>p\<in>set ps. fst p = c \<Longrightarrow> sum_list (map fst ps) = of_nat (length ps) * c"
  by (induction ps) (auto simp: algebra_simps)

lemma pinv_const_line: "(m :: rat) / (1 + c\<^sup>2) + m * c / (1 + c\<^sup>2) * c = m"
proof -
  have d: "1 + c\<^sup>2 \<noteq> 0" by (metis add_pos_nonneg less_irrefl zero_less_one zero_le_power2)
  have "m / (1 + c\<^sup>2) + m * c / (1 + c\<^sup>2) * c = (m + m * c\<^sup>2) / (1 + c\<^sup>2)"
    by (simp add: add_divide_distrib power2_eq_square)
  also have "m + m * c\<^sup>2 = m * (1 + c\<^sup>2)" by (simp add: algebra_simps)
  finally show ?thesis using d by simp
qed

lemma regplot_normal_equations:
  assumes "regplot_fit ps = Some (b0, b1)"
  shows "sum_list (map (\<lambda>(x, y). y - (b0 + b1 * x)) ps) = 0 \<and>
         sum_list (map (\<lambda>(x, y). x * (y - (b0 + b1 * x))) ps) = 0"
proof -
  have ne: "ps \<noteq> []" using assms by (auto simp: regplot_fit_def)
  let ?n = "of_nat (length ps) :: rat"
  let ?Sx = "sum_list (map fst ps)" and ?Sy = "sum_list (map snd ps)"
  let ?mx = "mean_of (map fst ps)" and ?my = "mean_of (map snd ps)"
  let ?sxx = "sum_list (map (\<lambda>x. (x - ?mx)\<^sup>2) (map fst ps))"
  let ?sxy = "sum_list (map (\<lambda>(x, y). (x - ?mx) * (y - ?my)) ps)"
  have n: "?n \<noteq> 0" using ne by simp
  have mx: "?n * ?mx = ?Sx" and my: "?n * ?my = ?Sy" using n by (simp_all add: mean_of_def)
  show ?thesis
  proof (cases "?sxx = 0")
    case False
    then have b: "b1 = ?sxy / ?sxx" "b0 = ?my - b1 * ?mx"
      using assms ne by (auto simp: regplot_fit_def Let_def)
    have r: "sum_list (map (\<lambda>(x, y). y - (b0 + b1 * x)) ps) = 0"
      unfolding sum_resid b(2) using mx my by (simp add: algebra_simps)
    have sxx: "?sxx = sum_list (map (\<lambda>(x, y). x * x) ps) - ?mx * ?Sx"
      unfolding sxx_expand using mx by (simp add: algebra_simps power2_eq_square)
    have sxy: "?sxy = sum_list (map (\<lambda>(x, y). x * y) ps) - ?my * ?Sx"
      unfolding sxy_expand mx [symmetric] my [symmetric] by (simp add: algebra_simps)
    have "b1 * ?sxx = ?sxy" using False b(1) by simp
    then have "sum_list (map (\<lambda>(x, y). x * (y - (b0 + b1 * x))) ps) = 0"
      unfolding sum_x_resid b(2) sxx sxy by (simp add: algebra_simps)
    with r show ?thesis ..
  next
    case True
    have "\<forall>x\<in>set (map fst ps). (x - ?mx)\<^sup>2 = 0"
      using True by (subst (asm) sum_list_nonneg_eq_0_iff) auto
    then have allm: "\<forall>p\<in>set ps. fst p = ?mx" by auto
    let ?c = "hd (map fst ps)"
    have "?c \<in> set (map fst ps)" using ne by (simp del: set_map)
    then have c: "?c = ?mx" using allm by auto
    then have allc: "\<forall>p\<in>set ps. fst p = ?c" using allm by simp
    have b: "b0 = ?my / (1 + ?c\<^sup>2)" "b1 = ?my * ?c / (1 + ?c\<^sup>2)"
      using assms ne True by (auto simp: regplot_fit_def Let_def)
    have "b0 + b1 * ?c = ?my"
      unfolding b by (rule pinv_const_line)
    with my have sy: "?Sy = ?n * (b0 + b1 * ?c)" by simp
    have sx: "?Sx = ?n * ?c" using sum_fst_const [OF allc] by simp
    have r: "sum_list (map (\<lambda>(x, y). y - (b0 + b1 * x)) ps) = 0"
      unfolding sum_resid sx sy by (simp add: algebra_simps)
    with sum_x_resid_const [OF allc] show ?thesis by simp
  qed
qed

text \<open>
  C31: the regression line drawn is a least-squares line: no line \<open>y = a + b x\<close> has a
  smaller sum of squared residuals on the plotted points, and it passes through their
  mean point; this holds also when all x values are equal, where seaborn's pseudo-inverse
  picks the minimum-norm coefficients.
\<close>

theorem regplot_least_squares:
  assumes "regplot_fit ps = Some (b0, b1)"
  shows "(\<forall>a b. sse ps b0 b1 \<le> sse ps a b) \<and> b0 + b1 * mean_of (map fst ps) = mean_of (map snd ps)"
proof
  note ne = regplot_normal_equations [OF assms]
  show "\<forall>a b. sse ps b0 b1 \<le> sse ps a b"
  proof (intro allI)
    fix a b
    have "0 \<le> sum_list (map (\<lambda>(x, y). ((b0 - a) + (b1 - b) * x)\<^sup>2) ps)"
      by (intro sum_list_nonneg) auto
    then show "sse ps b0 b1 \<le> sse ps a b"
      using ne by (subst sse_decomp [of ps a b b0 b1]) simp
  qed
  have p: "ps \<noteq> []" using assms by (auto simp: regplot_fit_def)
  then have n: "(of_nat (length ps) :: rat) \<noteq> 0" by simp
  from ne have "sum_list (map (\<lambda>(x, y). y - (b0 + b1 * x)) ps) = 0" ..
  then have "sum_list (map snd ps) - of_nat (length ps) * b0 - b1 * sum_list (map fst ps) = 0"
    by (simp only: sum_resid)
  then have "sum_list (map snd ps) = of_nat (length ps) * (b0 + b1 * (sum_list (map fst ps) / of_nat (length ps)))"
    using n by (simp add: algebra_simps)
  then show "b0 + b1 * mean_of (map fst ps) = mean_of (map snd ps)"
    using n by (simp add: mean_of_def)
qed

lemma length_reg_points:
  "length (reg_points df) = length (filter (\<lambda>r. MonthlyCharges r \<noteq> None \<and> ChurnBinary r \<noteq> None) df)"
  by (induction df) (auto simp: reg_points_def split: option.splits)

lemma regplot_fit_None: "regplot_fit ps = None \<longleftrightarrow> ps = []"
  by (auto simp: regplot_fit_def Let_def split: if_splits)


end
