(* ===== verification/PyFormat.thy ===== *)
theory PyFormat
  imports PyBuiltins PyFloat
begin

text \<open>
  Python's string formatting used by the metric panel (lines 23 to 25):
  \<open>f"{n:,}"\<close> on an integer (\<open>fmt_thousands\<close>: groups of three digits separated by
  commas) and \<open>f"{x:.2f}"\<close> on a float (\<open>fmt_fixed 2\<close>: the value rounded half to even
  at two decimals, printed with exactly two decimals, a minus sign for a negative value,
  \<open>nan\<close> and \<open>inf\<close> for the special values). Floats are the exact rationals of
  \<open>PyFloat\<close>, so the rounding is that of the exact value. \<open>parse_decimal\<close> reads a
  non-negative decimal string back; it states what a printed number means.
\<close>

definition zfill :: "nat \<Rightarrow> string \<Rightarrow> string" where
  "zfill d s = replicate (d - length s) (CHR ''0'') @ s"

function fmt_thousands :: "nat \<Rightarrow> string" where
  "fmt_thousands n =
     (if n < 1000 then py_str_nat n
      else fmt_thousands (n div 1000) @ '','' @ zfill 3 (py_str_nat (n mod 1000)))"
  by pat_completeness auto
termination
  by (relation "measure id") auto

declare fmt_thousands.simps [simp del]

definition fmt_fixed :: "nat \<Rightarrow> fval \<Rightarrow> string" where
  "fmt_fixed d v =
     (case v of
        NaN \<Rightarrow> ''nan'' | PInf \<Rightarrow> ''inf'' | NInf \<Rightarrow> ''-inf''
      | Fin a \<Rightarrow>
          (let m = nat \<bar>round_half_even (a * 10 ^ d)\<bar>
           in (if a < 0 then ''-'' else []) @ py_str_nat (m div 10 ^ d) @
              (if d = 0 then [] else ''.'' @ zfill d (py_str_nat (m mod 10 ^ d)))))"

definition parse_decimal :: "string \<Rightarrow> rat" where
  "parse_decimal s =
     (let i = takeWhile (\<lambda>c. c \<noteq> CHR ''.'') s; f = drop 1 (dropWhile (\<lambda>c. c \<noteq> CHR ''.'') s)
      in of_nat (parse_nat i) + of_nat (parse_nat f) / 10 ^ length f)"

subsection \<open>Digits\<close>

lemma parse_nat_Nil [simp]: "parse_nat [] = 0"
  by (simp add: parse_nat_def)

lemma parse_nat_append: "parse_nat (a @ b) = parse_nat a * 10 ^ length b + parse_nat b"
  by (induction b rule: rev_induct) (simp_all add: parse_nat_snoc flip: append_assoc)

lemma foldl_zeros: "foldl (\<lambda>acc c. 10 * acc + digit_value c) 0 (replicate k (CHR ''0'')) = 0"
  by (induction k) (simp_all add: digit_value_def)

lemma parse_zfill [simp]: "parse_nat (zfill d s) = parse_nat s"
  by (simp add: zfill_def parse_nat_append parse_nat_def foldl_zeros)

lemma digit_char_ne: "d < 10 \<Longrightarrow> of_char c < (48 :: nat) \<Longrightarrow> digit_char d \<noteq> c"
proof
  assume "d < 10" "of_char c < (48 :: nat)" "digit_char d = c"
  then have "of_char (digit_char d) < (48 :: nat)" by simp
  with \<open>d < 10\<close> show False by (simp add: digit_char_def)
qed

lemma py_str_nat_digits: "c \<in> set (py_str_nat n) \<Longrightarrow> c \<in> digit_char ` {..<10}"
proof (induction n rule: py_str_nat.induct)
  case (1 n)
  then show ?case by (cases "n < 10") (auto simp: py_str_nat.simps [of n])
qed

lemma dot_notin_py_str_nat [simp]: "CHR ''.'' \<notin> set (py_str_nat n)"
proof
  assume "CHR ''.'' \<in> set (py_str_nat n)"
  then obtain d where "d < 10" "CHR ''.'' = digit_char d" using py_str_nat_digits by blast
  moreover have "digit_char d \<noteq> CHR ''.''" if "d < 10" for d using that by (rule digit_char_ne) simp
  ultimately show False by metis
qed

lemma comma_notin_py_str_nat [simp]: "CHR '','' \<notin> set (py_str_nat n)"
proof
  assume "CHR '','' \<in> set (py_str_nat n)"
  then obtain d where "d < 10" "CHR '','' = digit_char d" using py_str_nat_digits by blast
  moreover have "digit_char d \<noteq> CHR '',''" if "d < 10" for d using that by (rule digit_char_ne) simp
  ultimately show False by metis
qed

lemma length_py_str_nat: "0 < d \<Longrightarrow> n < 10 ^ d \<Longrightarrow> length (py_str_nat n) \<le> d"
proof (induction n arbitrary: d rule: py_str_nat.induct)
  case (1 n)
  show ?case
  proof (cases "n < 10")
    case True
    with "1.prems" show ?thesis by (simp add: py_str_nat.simps [of n])
  next
    case False
    then obtain d' where d: "d = Suc d'" using "1.prems" by (cases d) auto
    have "n div 10 < 10 ^ d'" using "1.prems"(2) d by (simp add: less_mult_imp_div_less mult.commute)
    moreover have "0 < d'" using False "1.prems"(2) d by (cases d') auto
    ultimately have "length (py_str_nat (n div 10)) \<le> d'" using "1.IH" False by blast
    with False d show ?thesis by (simp add: py_str_nat.simps [of n])
  qed
qed

lemma length_zfill: "length s \<le> d \<Longrightarrow> length (zfill d s) = d"
  by (simp add: zfill_def)

lemma set_zfill: "set (zfill d s) \<subseteq> insert (CHR ''0'') (set s)"
  by (auto simp: zfill_def)

subsection \<open>Round trips\<close>

lemma digit_value_zero [simp]: "digit_value (CHR ''0'') = 0"
  by (simp add: digit_value_def)

lemma parse_nat_zero [simp]: "parse_nat ''0'' = 0"
  by (simp add: parse_nat_def)

lemma py_str_nat_ne [simp]: "py_str_nat n \<noteq> []"
  by (subst py_str_nat.simps) simp

lemma hd_py_str_nat_zero: "hd (py_str_nat n) = CHR ''0'' \<Longrightarrow> n = 0"
proof (induction n rule: py_str_nat.induct)
  case (1 n)
  show ?case
  proof (cases "n < 10")
    case True
    with "1.prems" have "digit_char n = digit_char 0" by (simp add: py_str_nat.simps [of n])
    then have "digit_value (digit_char n) = digit_value (digit_char 0)" by simp
    with True show ?thesis by simp
  next
    case False
    with "1.prems" have "hd (py_str_nat (n div 10)) = CHR ''0''" by (simp add: py_str_nat.simps [of n])
    with "1.IH" False have "n div 10 = 0" by blast
    with False show ?thesis by simp
  qed
qed

lemma zero_digit: "CHR ''0'' \<in> digit_char ` {..<10}"
  by (rule image_eqI [of _ _ 0]) simp_all

text \<open>
  C33: \<open>f"{n:,}"\<close> prints the decimal digits of \<open>n\<close> in groups: a leading group of
  one to three digits, with no leading zero unless the number is 0, then groups of
  exactly three digits, each after a comma; the digits read back as \<open>n\<close>.
\<close>

theorem fmt_thousands_groups:
  "\<exists>g gs. fmt_thousands n = g @ concat (map (\<lambda>x. CHR '','' # x) gs) \<and>
     g \<noteq> [] \<and> length g \<le> 3 \<and> (hd g = CHR ''0'' \<longrightarrow> g = ''0'' \<and> gs = []) \<and>
     list_all (\<lambda>x. length x = 3) gs \<and> set (g @ concat gs) \<subseteq> digit_char ` {..<10} \<and>
     parse_nat (g @ concat gs) = n"
proof (induction n rule: fmt_thousands.induct)
  case (1 n)
  show ?case
  proof (cases "n < 1000")
    case True
    have "length (py_str_nat n) \<le> 3" using True by (intro length_py_str_nat) simp_all
    moreover have "hd (py_str_nat n) = CHR ''0'' \<Longrightarrow> py_str_nat n = ''0''"
      using hd_py_str_nat_zero by (force simp: py_str_nat.simps [of 0])
    ultimately show ?thesis using True py_str_nat_digits
      by (intro exI [of _ "py_str_nat n"] exI [of _ "[]"]) (auto simp: fmt_thousands.simps [of n])
  next
    case False
    then obtain g gs where IH: "fmt_thousands (n div 1000) = g @ concat (map (\<lambda>x. CHR '','' # x) gs)"
      "g \<noteq> []" "length g \<le> 3" "hd g = CHR ''0'' \<longrightarrow> g = ''0'' \<and> gs = []"
      "list_all (\<lambda>x. length x = 3) gs" "set (g @ concat gs) \<subseteq> digit_char ` {..<10}"
      "parse_nat (g @ concat gs) = n div 1000"
      using "1.IH" by blast
    let ?z = "zfill 3 (py_str_nat (n mod 1000))"
    have lz: "length ?z = 3" by (rule length_zfill, rule length_py_str_nat) simp_all
    have dz: "set ?z \<subseteq> digit_char ` {..<10}"
      using set_zfill [of 3 "py_str_nat (n mod 1000)"] py_str_nat_digits zero_digit by blast
    have hd: "hd g \<noteq> CHR ''0''"
    proof
      assume "hd g = CHR ''0''"
      with IH(4) have "parse_nat (g @ concat gs) = 0" by simp
      with IH(7) False show False by simp
    qed
    have "parse_nat (g @ concat (gs @ [?z])) = n"
      using IH(7) lz by (simp add: parse_nat_append [of "g @ concat gs" ?z, simplified])
    then show ?thesis using IH lz dz hd False
      by (intro exI [of _ g] exI [of _ "gs @ [?z]"]) (simp add: fmt_thousands.simps [of n])
  qed
qed

lemma parse_decimal_fixed:
  assumes "0 < d"
  shows "parse_decimal (py_str_nat (m div 10 ^ d) @ ''.'' @ zfill d (py_str_nat (m mod 10 ^ d))) =
           of_nat m / 10 ^ d"
proof -
  have l: "length (zfill d (py_str_nat (m mod 10 ^ d))) = d"
    using assms by (intro length_zfill length_py_str_nat) simp_all
  have "takeWhile (\<lambda>c. c \<noteq> CHR ''.'') (py_str_nat (m div 10 ^ d) @ ''.'' @ zfill d (py_str_nat (m mod 10 ^ d)))
          = py_str_nat (m div 10 ^ d)"
    by (subst takeWhile_append2) auto
  moreover have "dropWhile (\<lambda>c. c \<noteq> CHR ''.'') (py_str_nat (m div 10 ^ d) @ ''.'' @ zfill d (py_str_nat (m mod 10 ^ d)))
          = ''.'' @ zfill d (py_str_nat (m mod 10 ^ d))"
    by (subst dropWhile_append2) auto
  moreover have "of_nat (m div 10 ^ d) + of_nat (m mod 10 ^ d) / 10 ^ d = (of_nat m / 10 ^ d :: rat)"
  proof -
    have "(of_nat m :: rat) = of_nat (m div 10 ^ d) * 10 ^ d + of_nat (m mod 10 ^ d)"
      by (metis div_mult_mod_eq of_nat_add of_nat_mult of_nat_numeral of_nat_power)
    then show ?thesis by (simp add: field_simps)
  qed
  ultimately show ?thesis using l by (simp add: parse_decimal_def Let_def)
qed

text \<open>
  C34: a non-negative number printed with \<open>d > 0\<close> decimals (\<open>f"{x:.2f}"\<close> of the
  churn rate and the average charge) reads back within half a unit of the last decimal.
\<close>

theorem fmt_fixed_error:
  assumes "0 \<le> a" "0 < d"
  shows "\<bar>parse_decimal (fmt_fixed d (Fin a)) - a\<bar> \<le> 1 / (2 * 10 ^ d)"
proof -
  let ?r = "round_half_even (a * 10 ^ d)"
  have "0 \<le> \<lfloor>a * 10 ^ d\<rfloor>" using assms(1) by simp
  then have r0: "0 \<le> ?r" using round_half_even_floor [of "a * 10 ^ d"] by linarith
  let ?m = "nat \<bar>?r\<bar>"
  have m: "(of_nat ?m :: rat) = of_int ?r" using r0 by simp
  have "fmt_fixed d (Fin a) = py_str_nat (?m div 10 ^ d) @ ''.'' @ zfill d (py_str_nat (?m mod 10 ^ d))"
    using assms by (simp add: fmt_fixed_def Let_def)
  then have p: "parse_decimal (fmt_fixed d (Fin a)) = of_int ?r / 10 ^ d"
    using parse_decimal_fixed [OF assms(2), of ?m] m by simp
  have "\<bar>a * 10 ^ d - of_int ?r\<bar> \<le> 1/2" by (rule round_half_even_dist)
  then have "\<bar>of_int ?r / 10 ^ d - a\<bar> * 10 ^ d \<le> 1/2"
    by (simp add: abs_minus_commute field_simps abs_mult)
  then show ?thesis unfolding p by (simp add: field_simps)
qed

end
