(* ===== verification/Metrics.thy ===== *)
theory Metrics
  imports GroupTables PyFormat
begin

text \<open>
  The metric panel of lines 22 to 25 as the strings it shows:
  \<open>f"{len(df):,}"\<close>, \<open>f"{df['ChurnBinary'].mean() * 100:.2f}%"\<close> and
  \<open>f"${df['MonthlyCharges'].mean():.2f}"\<close>, each beside its label.
\<close>

definition total_customers_metric :: "drow list \<Rightarrow> string" where
  "total_customers_metric df = fmt_thousands (total_customers df)"

definition churn_rate_metric :: "drow list \<Rightarrow> string" where
  "churn_rate_metric df = fmt_fixed 2 (churn_rate df) @ ''%''"

definition avg_monthly_metric :: "drow list \<Rightarrow> string" where
  "avg_monthly_metric df = ''$'' @ fmt_fixed 2 (avg_monthly_charges df)"

definition metric_panel :: "drow list \<Rightarrow> (string \<times> string) list" where
  "metric_panel df =
     [(''Total Customers'', total_customers_metric df), (''Churn Rate'', churn_rate_metric df),
      (''Avg. Monthly Charges'', avg_monthly_metric df)]"

lemma dot_in_fmt_fixed: "0 < d \<Longrightarrow> CHR ''.'' \<in> set (fmt_fixed d (Fin a))"
  by (simp add: fmt_fixed_def Let_def)

lemma fmt_fixed_Fin_not_nan: "0 < d \<Longrightarrow> fmt_fixed d (Fin a) @ s \<noteq> ''nan'' @ s"
  using dot_in_fmt_fixed [of d a] by auto

text \<open>
  C35: after loading, the churn-rate metric shows \<open>nan%\<close> exactly when no customer has
  churn value "Yes" or "No" (the mean of an all-missing flag column), and otherwise a
  number.
\<close>

theorem churn_rate_metric_nan:
  assumes "load_data df = Inr df'"
  shows "churn_rate_metric df' = ''nan%'' \<longleftrightarrow>
           \<not> (\<exists>r\<in>set df. Churn r = Some ''Yes'' \<or> Churn r = Some ''No'')"
proof (cases "churn_rate df'")
  case (Fin a)
  have "churn_rate_metric df' \<noteq> ''nan%''"
    using fmt_fixed_Fin_not_nan [of 2 a "''%''"] Fin by (simp add: churn_rate_metric_def)
  with Fin churn_rate_NaN_iff [OF assms] show ?thesis by simp
next
  case NaN
  with churn_rate_NaN_iff [OF assms] show ?thesis by (simp add: churn_rate_metric_def fmt_fixed_def)
next
  case PInf
  then show ?thesis by (simp add: churn_rate_def mean_skipna_def Let_def split: if_splits)
next
  case NInf
  then show ?thesis by (simp add: churn_rate_def mean_skipna_def Let_def split: if_splits)
qed

end
