(* ===== verification/Page.thy ===== *)
theory Page
  imports Metrics CrossTab Charts
begin

text \<open>
  The Streamlit script \<open>teleco_app.py\<close> as a program: a list of page commands run from
  top to bottom on a page state. Streamlit runs the script once per render; each
  \<open>st.*\<close> call appends an element to the container it writes to: the main column,
  or a column of a row made by \<open>st.columns\<close>, which the script enters with
  \<open>with colk:\<close> or addresses as \<open>colk.metric(...)\<close>. The state is the record
  \<open>page\<close>: the layout and style set at the top, the rows of columns made so far, the
  Python names bound to columns, the stack of \<open>with\<close> blocks and the elements emitted.
  \<open>exec_cmd\<close> is one command, \<open>run_script\<close> the whole run, which stops at the first
  exception and shows it on the page (Streamlit's handling of an uncaught exception),
  and \<open>step\<close> the same machine as a transition relation. \<open>wf_cmds\<close> is a static
  layout discipline (every column name used is bound, every \<open>with\<close> closed, every
  column spec valid, no exception raised) under which a run always finishes.
  Non-ASCII text is kept as the UTF-8 bytes the page receives.
\<close>

datatype colspec = NCols nat | Weights "rat list"

datatype script_error =
    NameError string | UnpackError | ColumnSpecError | UnbalancedWith
  | LoadFailed cut_error | HeatFailed heat_error | ZeroSizeReduction

datatype container = Main | Column nat nat

datatype table =
    StrTable "string list" "(string \<times> fval list) list"
  | IntTable "string list" "(int \<times> fval list) list"
  | StatTable "(string \<times> (string \<times> stat) list) list"
  | RangeTable "(nat \<times> string \<times> fval \<times> fval \<times> fval) list"
  | PairTable "string list" "(string \<times> fval) list"

datatype plot =
    CountPlot "string option" "(string \<times> string \<times> nat) list"
  | CountPlotInt "string option" "(int \<times> string \<times> nat) list"
  | BoxPlot string "(string \<times> box option) list"
  | RegPlot rat "(rat \<times> rat) list" "(rat \<times> rat) option"
  | HeatMap string "(string, string) pframe" "((string \<times> string) \<times> string) list"

record axes =
  ax_pos :: "nat \<times> nat"
  ax_plots :: "plot list"
  ax_title :: string
  ax_xlabel :: string
  ax_ylabel :: string
  ax_xrot :: rat

record figure =
  figsize :: "rat \<times> rat"
  fig_pad :: "rat option"
  fig_axes :: "axes list"

datatype element =
    PageTitle string | Metric string string | Subheader string
  | Dataframe table | Pyplot figure | Markdown string | ExceptionBox script_error

datatype cmd =
    SetPageConfig string | SnsSet string
  | Columns colspec "string list"
  | With string | EndWith
  | Emit element | EmitIn string element
  | Raise script_error

record page =
  layout :: string
  style :: "string option"
  rows :: "(container \<times> rat list) list"
  names :: "string \<Rightarrow> container option"
  targets :: "container list"
  blocks :: "(container \<times> element) list"

subsection \<open>Text: UTF-8 encoding of a code point\<close>

definition utf8_encode :: "nat \<Rightarrow> string" where
  "utf8_encode n =
     (if n < 128 then [char_of n]
      else if n < 2048 then [char_of (192 + n div 64), char_of (128 + n mod 64)]
      else if n < 65536 then
        [char_of (224 + n div 4096), char_of (128 + n div 64 mod 64), char_of (128 + n mod 64)]
      else [char_of (240 + n div 262144), char_of (128 + n div 4096 mod 64),
            char_of (128 + n div 64 mod 64), char_of (128 + n mod 64)])"

subsection \<open>Streamlit's page state machine\<close>

definition init_page :: page where
  "init_page = \<lparr>layout = ''centered'', style = None, rows = [], names = Map.empty,
                targets = [], blocks = []\<rparr>"

definition column_weights :: "colspec \<Rightarrow> rat list" where
  "column_weights spec = (case spec of NCols n \<Rightarrow> replicate n 1 | Weights ws \<Rightarrow> ws)"

definition column_spec_ok :: "colspec \<Rightarrow> bool" where
  "column_spec_ok spec = (column_weights spec \<noteq> [] \<and> list_all (\<lambda>w. 0 < w) (column_weights spec))"

definition cur_target :: "page \<Rightarrow> container" where
  "cur_target p = (case targets p of [] \<Rightarrow> Main | c # _ \<Rightarrow> c)"

fun exec_cmd :: "cmd \<Rightarrow> page \<Rightarrow> script_error + page" where
  "exec_cmd (SetPageConfig l) p = Inr (p\<lparr>layout := l\<rparr>)"
| "exec_cmd (SnsSet s) p = Inr (p\<lparr>style := Some s\<rparr>)"
| "exec_cmd (Columns spec ns) p =
     (if \<not> column_spec_ok spec then Inl ColumnSpecError
      else if length ns \<noteq> length (column_weights spec) then Inl UnpackError
      else Inr (p\<lparr>rows := rows p @ [(cur_target p, column_weights spec)],
                 names := (names p)(ns [\<mapsto>] map (Column (length (rows p))) [0..<length ns])\<rparr>))"
| "exec_cmd (With n) p =
     (case names p n of None \<Rightarrow> Inl (NameError n) | Some c \<Rightarrow> Inr (p\<lparr>targets := c # targets p\<rparr>))"
| "exec_cmd EndWith p =
     (case targets p of [] \<Rightarrow> Inl UnbalancedWith | _ # ts \<Rightarrow> Inr (p\<lparr>targets := ts\<rparr>))"
| "exec_cmd (Emit e) p = Inr (p\<lparr>blocks := blocks p @ [(cur_target p, e)]\<rparr>)"
| "exec_cmd (EmitIn n e) p =
     (case names p n of None \<Rightarrow> Inl (NameError n) | Some c \<Rightarrow> Inr (p\<lparr>blocks := blocks p @ [(c, e)]\<rparr>))"
| "exec_cmd (Raise e) p = Inl e"

fun run_script :: "cmd list \<Rightarrow> page \<Rightarrow> page \<times> script_error option" where
  "run_script [] p = (p, None)"
| "run_script (c # cs) p =
     (case exec_cmd c p of
        Inl e \<Rightarrow> (p\<lparr>blocks := blocks p @ [(Main, ExceptionBox e)]\<rparr>, Some e)
      | Inr p' \<Rightarrow> run_script cs p')"

inductive step :: "cmd list \<times> page \<Rightarrow> cmd list \<times> page \<Rightarrow> bool" where
  exec: "exec_cmd c p = Inr p' \<Longrightarrow> step (c # cs, p) (cs, p')"

text \<open>The layout discipline: names bound before use, \<open>with\<close> blocks balanced, column
  specs valid, nothing raised. \<open>\<Gamma>\<close> lists the bound column names, \<open>d\<close> counts the open
  \<open>with\<close> blocks.\<close>

fun wf_cmds :: "string list \<Rightarrow> nat \<Rightarrow> cmd list \<Rightarrow> bool" where
  "wf_cmds \<Gamma> d [] = (d = 0)"
| "wf_cmds \<Gamma> d (Columns spec ns # cs) =
     (column_spec_ok spec \<and> length ns = length (column_weights spec) \<and> wf_cmds (ns @ \<Gamma>) d cs)"
| "wf_cmds \<Gamma> d (With n # cs) = (n \<in> set \<Gamma> \<and> wf_cmds \<Gamma> (Suc d) cs)"
| "wf_cmds \<Gamma> d (EndWith # cs) = (0 < d \<and> wf_cmds \<Gamma> (d - 1) cs)"
| "wf_cmds \<Gamma> d (EmitIn n e # cs) = (n \<in> set \<Gamma> \<and> wf_cmds \<Gamma> d cs)"
| "wf_cmds \<Gamma> d (Raise e # cs) = False"
| "wf_cmds \<Gamma> d (SetPageConfig l # cs) = wf_cmds \<Gamma> d cs"
| "wf_cmds \<Gamma> d (SnsSet s # cs) = wf_cmds \<Gamma> d cs"
| "wf_cmds \<Gamma> d (Emit e # cs) = wf_cmds \<Gamma> d cs"

text \<open>The layout invariant: every container named, entered or written to is the main
  column or a column of a row that exists.\<close>

fun container_ok :: "(container \<times> rat list) list \<Rightarrow> container \<Rightarrow> bool" where
  "container_ok rs Main = True"
| "container_ok rs (Column r i) = (r < length rs \<and> i < length (snd (rs ! r)))"

definition page_ok :: "page \<Rightarrow> bool" where
  "page_ok p =
     ((\<forall>n c. names p n = Some c \<longrightarrow> container_ok (rows p) c) \<and>
      (\<forall>c \<in> set (targets p). container_ok (rows p) c) \<and>
      (\<forall>b \<in> set (blocks p). container_ok (rows p) (fst b)))"

subsection \<open>matplotlib figures and what seaborn draws on them\<close>

text \<open>A figure holds its axes in creation order; \<open>plt.subplots(n, m)\<close> makes the grid row
  by row, \<open>plt.figure()\<close> none, and the pyplot-level calls (\<open>plt.title\<close>,
  \<open>plt.xlabel\<close>, a seaborn call without \<open>ax=\<close>) work on the current axes, made on
  first use. A seaborn call adds its plot to the axes and labels them with its default
  labels (the variable names, \<open>count\<close> for a count plot, the index and column names of
  a heatmap's frame).\<close>

definition new_axes :: "nat \<times> nat \<Rightarrow> axes" where
  "new_axes pos = \<lparr>ax_pos = pos, ax_plots = [], ax_title = [], ax_xlabel = [], ax_ylabel = [], ax_xrot = 0\<rparr>"

definition plt_subplots :: "nat \<Rightarrow> nat \<Rightarrow> rat \<times> rat \<Rightarrow> figure" where
  "plt_subplots n m sz =
     \<lparr>figsize = sz, fig_pad = None, fig_axes = concat (map (\<lambda>i. map (\<lambda>j. new_axes (i, j)) [0..<m]) [0..<n])\<rparr>"

definition plt_figure :: "rat \<times> rat \<Rightarrow> figure" where
  "plt_figure sz = \<lparr>figsize = sz, fig_pad = None, fig_axes = []\<rparr>"

definition tight_layout :: "rat \<Rightarrow> figure \<Rightarrow> figure" where
  "tight_layout pad fig = fig\<lparr>fig_pad := Some pad\<rparr>"

definition on_axes :: "nat \<times> nat \<Rightarrow> (axes \<Rightarrow> axes) \<Rightarrow> figure \<Rightarrow> figure" where
  "on_axes pos g fig = fig\<lparr>fig_axes := map (\<lambda>a. if ax_pos a = pos then g a else a) (fig_axes fig)\<rparr>"

definition on_gca :: "(axes \<Rightarrow> axes) \<Rightarrow> figure \<Rightarrow> figure" where
  "on_gca g fig =
     (if fig_axes fig = [] then fig\<lparr>fig_axes := [g (new_axes (0, 0))]\<rparr>
      else fig\<lparr>fig_axes := butlast (fig_axes fig) @ [g (last (fig_axes fig))]\<rparr>)"

definition sns_draw :: "string \<Rightarrow> string \<Rightarrow> plot \<Rightarrow> axes \<Rightarrow> axes" where
  "sns_draw xl yl pl ax = ax\<lparr>ax_plots := ax_plots ax @ [pl], ax_xlabel := xl, ax_ylabel := yl\<rparr>"

definition set_title :: "string \<Rightarrow> axes \<Rightarrow> axes" where
  "set_title t ax = ax\<lparr>ax_title := t\<rparr>"

definition set_xlabel :: "string \<Rightarrow> axes \<Rightarrow> axes" where
  "set_xlabel t ax = ax\<lparr>ax_xlabel := t\<rparr>"

definition set_ylabel :: "string \<Rightarrow> axes \<Rightarrow> axes" where
  "set_ylabel t ax = ax\<lparr>ax_ylabel := t\<rparr>"

definition set_xrot :: "rat \<Rightarrow> axes \<Rightarrow> axes" where
  "set_xrot r ax = ax\<lparr>ax_xrot := r\<rparr>"

text \<open>\<open>sns.heatmap(t, annot=True, fmt=".1f")\<close>: seaborn masks the missing cells and
  writes \<open>format(v, ".1f")\<close> on every other cell, row by row.\<close>

definition heat_annotations :: "(string, string) pframe \<Rightarrow> ((string \<times> string) \<times> string) list" where
  "heat_annotations t =
     concat (map (\<lambda>(k, i). concat (map (\<lambda>(c, vs). if is_nan (vs ! k) then [] else [((i, c), fmt_fixed 1 (vs ! k))])
                                      (snd t)))
                 (enumerate 0 (fst t)))"

definition key_factors_figure :: "drow list \<Rightarrow> figure" where
  "key_factors_figure df =
     (let fig = tight_layout 4 (plt_subplots 2 3 (18, 10));
          fig = on_axes (0, 0) (sns_draw ''Churn'' ''count'' (CountPlot (Some ''Set1'') (churn_count_plot df))) fig;
          fig = on_axes (0, 0) (set_title ''Customers Churn Count'') fig;
          fig = on_axes (0, 1) (sns_draw ''CitizensStatus'' ''count'' (CountPlotInt (Some ''Set2'') (citizenship_plot df))) fig;
          fig = on_axes (0, 1) (set_title ''Churn by Citizenship'') fig;
          fig = on_axes (0, 2) (sns_draw ''Contract'' ''count'' (CountPlot (Some ''Set3'') (contract_plot df))) fig;
          fig = on_axes (0, 2) (set_title ''Churn by Contract'') fig;
          fig = on_axes (1, 0) (sns_draw ''TechSupport'' ''count'' (CountPlot None (tech_plot df))) fig;
          fig = on_axes (1, 0) (set_title ''Churn by Tech Support'') fig;
          fig = on_axes (1, 1) (sns_draw ''InternetService'' ''count'' (CountPlot (Some ''Paired'') (internet_plot df))) fig;
          fig = on_axes (1, 1) (set_title ''Churn by Internet Service'') fig;
          fig = on_axes (1, 2) (sns_draw ''Churn'' ''MonthlyCharges'' (BoxPlot ''Set1'' (monthly_box_plot df))) fig;
          fig = on_axes (1, 2) (set_title ''MonthlyCharges vs Churn'') fig
      in on_axes (1, 2) (set_xrot 45) fig)"

definition charge_range_figure :: "drow list \<Rightarrow> figure" where
  "charge_range_figure df =
     (let fig = plt_figure (8, 4);
          fig = on_gca (sns_draw ''ChargeRange'' ''count'' (CountPlot (Some ''Dark2'') (charge_range_plot df))) fig;
          fig = on_gca (set_title ''Churn by Monthly Charge Range'') fig
      in on_gca (set_xrot 45) fig)"

definition regression_figure :: "drow list \<Rightarrow> figure" where
  "regression_figure df =
     (let fig = plt_figure (6, 3);
          fig = on_gca (sns_draw ''MonthlyCharges'' ''ChurnBinary'' (RegPlot (1/5) (reg_points df) (regression_line df))) fig;
          fig = on_gca (set_title ''Churn Probability vs. Monthly Charges'') fig;
          fig = on_gca (set_ylabel ''Churn Probability'') fig
      in on_gca (set_xlabel ''Monthly Charges'') fig)"

text \<open>\<open>sns.heatmap\<close> takes the colour range from \<open>np.nanmin\<close> and \<open>np.nanmax\<close> of the
  cells, which raise \<open>ValueError\<close> (a reduction over a zero-size array) when the frame
  has no row or no column; the figure is then never shown.\<close>

definition heat_figure :: "(string, string) pframe \<Rightarrow> script_error + figure" where
  "heat_figure t =
     (let fig = plt_figure (7, 6)
      in if fst t = [] \<or> snd t = [] then Inl ZeroSizeReduction
         else Inr (let fig = on_gca (sns_draw [] ''TotalChargeRange'' (HeatMap ''coolwarm'' t (heat_annotations t))) fig;
                       fig = on_gca (set_title ''Churn % Heatmap by Contract Type and TotalChargeRange'') fig;
                       fig = on_gca (set_ylabel ''TotalChargeRange'') fig
                   in on_gca (set_xlabel ''Contract Type'') fig))"

subsection \<open>The script, section by section\<close>

text \<open>Lines 7 and 8: the page configuration and the seaborn style.\<close>

definition page_setup_cmds :: "cmd list" where
  "page_setup_cmds = [SetPageConfig ''wide'', SnsSet ''whitegrid'']"

text \<open>Lines 22 to 26: title and the metric panel in the three columns of a first row.\<close>

definition metrics_cmds :: "drow list \<Rightarrow> cmd list" where
  "metrics_cmds df =
     [Emit (PageTitle (utf8_encode 128202 @ '' Telco Customer Churn Dashboard'')),
      Columns (NCols 3) [''col1'', ''col2'', ''col3''],
      EmitIn ''col1'' (Metric ''Total Customers'' (total_customers_metric df)),
      EmitIn ''col2'' (Metric ''Churn Rate'' (churn_rate_metric df)),
      EmitIn ''col3'' (Metric ''Avg. Monthly Charges'' (avg_monthly_metric df))]"

text \<open>A \<open>with col:\<close> block holding a subheader and a table.\<close>

definition table_block :: "string \<Rightarrow> string \<Rightarrow> table \<Rightarrow> cmd list" where
  "table_block col title t = [With col, Emit (Subheader title), Emit (Dataframe t), EndWith]"

text \<open>Lines 29 to 40: the churn distribution and the descriptive statistics.\<close>

definition distribution_cmds :: "drow list \<Rightarrow> cmd list" where
  "distribution_cmds df =
     Columns (NCols 2) [''col1'', ''col2''] #
     table_block ''col1'' ''Churn Distribution'' (StrTable [''Count'', ''Percentage''] (churn_summary df)) @
     table_block ''col2'' ''Descriptive Statistics'' (StatTable (describe_table df))"

text \<open>Lines 43 to 92: the six "Churn by" tables in two rows of three columns.\<close>

definition group_table_cmds :: "drow list \<Rightarrow> cmd list" where
  "group_table_cmds df =
     (let memo = utf8_encode 128221; pct = [''Total'', ''Churned'', ''Percentage%''] in
      Columns (NCols 3) [''col1'', ''col2'', ''col3''] #
      table_block ''col1'' (memo @ '' Churn by Gender'')
        (StrTable [''Count'', ''Churned'', ''Not Churned''] (gender_table df)) @
      table_block ''col2'' (memo @ '' Churn by Citizenship'') (IntTable pct (citizenship_table df)) @
      table_block ''col3'' (memo @ '' Churn by Contract'') (StrTable pct (contract_table df)) @
      Columns (NCols 3) [''col1'', ''col2'', ''col3''] #
      table_block ''col1'' (memo @ '' Churn by Tech Support'') (StrTable pct (tech_table df)) @
      table_block ''col2'' (memo @ '' Churn by Internet Service'') (StrTable pct (internet_table df)) @
      table_block ''col3'' (memo @ '' Churn by Payment Method'') (StrTable pct (pay_table df)))"

text \<open>Lines 95 to 118: the grid of six charts.\<close>

definition key_factors_cmds :: "drow list \<Rightarrow> cmd list" where
  "key_factors_cmds df =
     [Emit (Subheader (utf8_encode 128269 @ '' Churn Analysis - Key Factors'')),
      Emit (Pyplot (key_factors_figure df))]"

text \<open>Lines 121 to 137: the monthly charge range table and its chart.\<close>

definition charge_range_cmds :: "drow list \<Rightarrow> cmd list" where
  "charge_range_cmds df =
     [Emit (Subheader (utf8_encode 128221 @ '' Churn by Monthly Charge Range'')),
      Columns (Weights [1, 1]) [''col1'', ''col3''],
      With ''col1'', Emit (Dataframe (RangeTable (charge_range_summary df))), EndWith,
      With ''col3'', Emit (Pyplot (charge_range_figure df)), EndWith]"

text \<open>Lines 140 to 170: the regression plot and the heatmap, whose panel raises if
  \<open>range\<close> or \<open>pd.cut\<close> does, and whose drawing raises on an empty frame.\<close>

definition reg_heat_cmds :: "drow list \<Rightarrow> cmd list" where
  "reg_heat_cmds df =
     [Columns (Weights [1, 1/10, 1]) [''col1'', ''col2'', ''col3''],
      With ''col1'', Emit (Subheader (utf8_encode 128200 @ '' Churn Probability vs. Monthly Charges'')),
      Emit (Pyplot (regression_figure df)), EndWith,
      With ''col3'', Emit (Subheader (utf8_encode 128293 @ '' Heatmap: Churn % by TotalCharges & Contract'')),
      (case heat_panel df of
         Inl e \<Rightarrow> Raise (HeatFailed e)
       | Inr t \<Rightarrow> (case heat_figure t of Inl e \<Rightarrow> Raise e | Inr fig \<Rightarrow> Emit (Pyplot fig))),
      EndWith]"

text \<open>Line 184 as written: the copyright sign (U+00A9) is preceded by U+00C2, a capital A
  with circumflex; the two are the UTF-8 bytes of the copyright sign read back as Latin-1.\<close>

definition footer_text :: string where
  "footer_text = ''Built by [Chile Okwuodu] | '' @ utf8_encode 194 @ utf8_encode 169 @ '' 2025''"

text \<open>Lines 173 to 184: the total charges summary and the footer.\<close>

definition summary_footer_cmds :: "drow list \<Rightarrow> cmd list" where
  "summary_footer_cmds df =
     [Columns (Weights [1, 1/100, 1/100]) [''col5'', ''_'', ''_''],
      With ''col5'', Emit (Subheader (utf8_encode 128221 @ '' TotalCharges Summary'')),
      Emit (Dataframe (PairTable [''Statistic'', ''TotalCharges''] (total_charge_summary df))), EndWith,
      Emit (Markdown ''---''), Emit (Markdown footer_text)]"

text \<open>The whole script: setup, then \<open>df = load_data()\<close> (line 19), which raises when
  \<open>pd.cut\<close> does, then the sections in source order.\<close>

definition dashboard_body :: "drow list \<Rightarrow> cmd list" where
  "dashboard_body df =
     metrics_cmds df @ distribution_cmds df @ group_table_cmds df @ key_factors_cmds df @
     charge_range_cmds df @ reg_heat_cmds df @ summary_footer_cmds df"

definition dashboard_cmds :: "customer list \<Rightarrow> cmd list" where
  "dashboard_cmds raw =
     page_setup_cmds @ (case load_data raw of Inl e \<Rightarrow> [Raise (LoadFailed e)] | Inr df \<Rightarrow> dashboard_body df)"

subsection \<open>The layout invariant is kept\<close>


lemma container_ok_append [simp]: "container_ok rs c \<Longrightarrow> container_ok (rs @ xs) c"
  by (cases c) (auto simp: nth_append)

lemma map_upds_SomeD: "(m(xs [\<mapsto>] ys)) n = Some c \<Longrightarrow> m n = Some c \<or> c \<in> set ys"
  by (auto simp: map_upds_def map_add_Some_iff dest!: map_of_SomeD dest: set_zip_rightD)

lemma cur_target_ok: "page_ok p \<Longrightarrow> container_ok (rows p) (cur_target p)"
  by (auto simp: page_ok_def cur_target_def split: list.splits)

lemma page_ok_blocks:
  "page_ok p \<Longrightarrow> container_ok (rows p) c \<Longrightarrow> page_ok (p\<lparr>blocks := blocks p @ [(c, e)]\<rparr>)"
  by (auto simp: page_ok_def)

lemma exec_cmd_page_ok:
  assumes "page_ok p" "exec_cmd c p = Inr p'"
  shows "page_ok p'"
proof (cases c)
  case (Columns spec ns)
  let ?rs = "rows p @ [(cur_target p, column_weights spec)]"
  from Columns assms(2) have l: "length ns = length (column_weights spec)"
    and p': "p' = p\<lparr>rows := ?rs, names := (names p)(ns [\<mapsto>] map (Column (length (rows p))) [0..<length ns])\<rparr>"
    by (auto split: if_splits)
  have "container_ok ?rs c'" if "names p' n = Some c'" for n c'
    using map_upds_SomeD [OF that [unfolded p', simplified]] assms(1) l
    by (auto simp: page_ok_def)
  with assms(1) show ?thesis by (auto simp: page_ok_def p')
next
  case (Emit e)
  with assms show ?thesis by (auto intro: page_ok_blocks cur_target_ok)
next
  case (EmitIn n e)
  with assms(2) obtain c' where n: "names p n = Some c'" and p': "p' = p\<lparr>blocks := blocks p @ [(c', e)]\<rparr>"
    by (auto split: option.splits)
  from assms(1) n have "container_ok (rows p) c'" by (simp add: page_ok_def)
  with assms(1) show ?thesis unfolding p' by (rule page_ok_blocks)
qed (use assms in \<open>force simp: page_ok_def split: option.splits list.splits\<close>)+

lemma run_script_page_ok: "page_ok p \<Longrightarrow> run_script cs p = (p', r) \<Longrightarrow> page_ok p'"
proof (induction cs arbitrary: p)
  case (Cons c cs)
  show ?case
  proof (cases "exec_cmd c p")
    case (Inl e)
    with Cons.prems show ?thesis by (auto intro: page_ok_blocks)
  next
    case (Inr p1)
    with Cons show ?thesis by (auto intro: exec_cmd_page_ok)
  qed
qed simp

lemma wf_run_complete:
  "wf_cmds \<Gamma> d cs \<Longrightarrow> d = length (targets p) \<Longrightarrow> set \<Gamma> \<subseteq> dom (names p) \<Longrightarrow>
     \<exists>p'. run_script cs p = (p', None) \<and> targets p' = []"
proof (induction \<Gamma> d cs arbitrary: p rule: wf_cmds.induct)
  case (2 \<Gamma> d spec ns cs)
  let ?p1 = "p\<lparr>rows := rows p @ [(cur_target p, column_weights spec)],
               names := (names p)(ns [\<mapsto>] map (Column (length (rows p))) [0..<length ns])\<rparr>"
  from 2 have "exec_cmd (Columns spec ns) p = Inr ?p1" by simp
  moreover from 2 have "set (ns @ \<Gamma>) \<subseteq> dom (names ?p1)" by (auto simp: dom_map_upds)
  ultimately show ?case using 2 by simp
next
  case (3 \<Gamma> d n cs)
  then have "n \<in> dom (names p)" by auto
  then obtain c where "names p n = Some c" by auto
  with 3 show ?case by auto
next
  case (4 \<Gamma> d cs)
  then obtain t ts where "targets p = t # ts" by (cases "targets p") auto
  with 4 show ?case by auto
next
  case (5 \<Gamma> d n e cs)
  then have "n \<in> dom (names p)" by auto
  then obtain c where "names p n = Some c" by auto
  with 5 show ?case by auto
qed auto

subsection \<open>The interpreter and the transition relation\<close>

inductive_cases step_ConsE: "step (c # cs, p) y"
inductive_cases step_NilE: "step ([], p) y"

lemma steps_Cons_iff:
  "step\<^sup>*\<^sup>* (c # cs, p) y \<longleftrightarrow>
     y = (c # cs, p) \<or> (\<exists>p1. exec_cmd c p = Inr p1 \<and> step\<^sup>*\<^sup>* (cs, p1) y)"
proof
  assume "step\<^sup>*\<^sup>* (c # cs, p) y"
  then show "y = (c # cs, p) \<or> (\<exists>p1. exec_cmd c p = Inr p1 \<and> step\<^sup>*\<^sup>* (cs, p1) y)"
    by (cases rule: converse_rtranclpE) (auto elim: step_ConsE)
next
  assume "y = (c # cs, p) \<or> (\<exists>p1. exec_cmd c p = Inr p1 \<and> step\<^sup>*\<^sup>* (cs, p1) y)"
  then show "step\<^sup>*\<^sup>* (c # cs, p) y"
    by (auto intro: converse_rtranclp_into_rtranclp step.exec)
qed

lemma steps_Nil_iff: "step\<^sup>*\<^sup>* ([], p) y \<longleftrightarrow> y = ([], p)"
  by (auto elim: converse_rtranclpE step_NilE)

lemma run_script_None_iff: "run_script cs p = (p', None) \<longleftrightarrow> step\<^sup>*\<^sup>* (cs, p) ([], p')"
  by (induction cs arbitrary: p) (auto simp: steps_Cons_iff steps_Nil_iff split: sum.splits)

lemma run_script_append:
  "run_script (xs @ ys) p = (case run_script xs p of (q, None) \<Rightarrow> run_script ys q | r \<Rightarrow> r)"
  by (induction xs arbitrary: p) (auto split: sum.splits)

subsection \<open>The dashboard script\<close>

lemma column_spec_ok_NCols [simp]: "column_spec_ok (NCols n) = (0 < n)"
  by (auto simp: column_spec_ok_def column_weights_def list_all_iff)

lemma column_spec_ok_Weights [simp]: "column_spec_ok (Weights ws) = (ws \<noteq> [] \<and> list_all (\<lambda>w. 0 < w) ws)"
  by (simp add: column_spec_ok_def column_weights_def)

lemma column_weights_simps [simp]:
  "column_weights (NCols n) = replicate n 1" "column_weights (Weights ws) = ws"
  by (simp_all add: column_weights_def)

lemma heat_panel_Inr: "\<exists>t. heat_panel df = Inr t"
proof -
  obtain bins where b: "heat_bins = Inr bins" using heat_bins_eq by blast
  show ?thesis by (simp add: heat_panel_def b add_total_charge_range_ok [OF b])
qed

lemmas dashboard_script_defs =
  dashboard_cmds_def load_data_ok dashboard_body_def page_setup_cmds_def metrics_cmds_def
  distribution_cmds_def group_table_cmds_def table_block_def key_factors_cmds_def
  charge_range_cmds_def reg_heat_cmds_def summary_footer_cmds_def Let_def

lemma map2_map_same: "map2 f xs (map g xs) = map (\<lambda>x. f x (g x)) xs"
  by (induction xs) auto

lemma heat_cut_label:
  "cut_value (map of_int (map (\<lambda>i. 500 * int i) [0..<19])) (heat_labels (map (\<lambda>i. 500 * int i) [0..<19])) x
     \<in> Some ` set (heat_labels (map (\<lambda>i. 500 * int i) [0..<19])) \<longleftrightarrow> (\<exists>v. x = Some v \<and> 0 < v \<and> v \<le> 9000)"
proof (cases x)
  case (Some v)
  let ?B = "map (\<lambda>i. 500 * int i) [0..<19]"
  have s: "sorted_wrt (<) (map (of_int :: int \<Rightarrow> rat) ?B)"
    using heat_bins_props(1) [OF heat_bins_eq] by (rule sorted_wrt_of_int)
  have len: "Suc (length (heat_labels ?B)) = length ?B"
    by (rule heat_labels_length [OF heat_bins_eq])
  have lbl: "l \<in> set (heat_labels ?B)" if "cut_value (map of_int ?B) (heat_labels ?B) (Some v) = Some l" for l
  proof -
    from cut_value_Some_iff [OF s, THEN iffD1, OF that] obtain i
      where "Suc i < length (map (of_int :: int \<Rightarrow> rat) ?B)" "l = heat_labels ?B ! i" by blast
    with len show ?thesis by (simp del: map_map)
  qed
  show ?thesis
  proof
    assume "cut_value (map of_int ?B) (heat_labels ?B) x \<in> Some ` set (heat_labels ?B)"
    then have "cut_value (map of_int ?B) (heat_labels ?B) (Some v) \<noteq> None" using Some by (auto simp del: map_map)
    with Some heat_cut_defined [of v] show "\<exists>v. x = Some v \<and> 0 < v \<and> v \<le> 9000" by (simp del: map_map)
  next
    assume "\<exists>v. x = Some v \<and> 0 < v \<and> v \<le> 9000"
    with Some heat_cut_defined [of v] obtain l where "cut_value (map of_int ?B) (heat_labels ?B) (Some v) = Some l"
      by (auto simp del: map_map)
    with lbl Some show "cut_value (map of_int ?B) (heat_labels ?B) x \<in> Some ` set (heat_labels ?B)" by (auto simp del: map_map)
  qed
qed simp

text \<open>The heatmap can be drawn exactly when some customer has a contract and a total
  charge in \<open>(0, 9000]\<close>, the span of the bins.\<close>

lemma heat_figure_loaded:
  "\<exists>t. heat_panel (map2 derive_row raw (map (\<lambda>r. cut_value charge_bins charge_labels (MonthlyCharges r)) raw)) = Inr t \<and>
     (heat_figure t = Inl ZeroSizeReduction \<longleftrightarrow>
        \<not> (\<exists>r\<in>set raw. Contract r \<noteq> None \<and> (\<exists>v. TotalCharges r = Some v \<and> 0 < v \<and> v \<le> 9000))) \<and>
     (heat_figure t \<noteq> Inl ZeroSizeReduction \<longrightarrow> (\<exists>fig. heat_figure t = Inr fig))"
proof -
  let ?B = "map (\<lambda>i. 500 * int i) [0..<19]"
  let ?df = "map2 derive_row raw (map (\<lambda>r. cut_value charge_bins charge_labels (MonthlyCharges r)) raw)"
  let ?hdf = "map2 (\<lambda>r t. drow.extend r (hrow.fields t)) ?df
                (map (\<lambda>r. cut_value (map of_int ?B) (heat_labels ?B) (TotalCharges r)) ?df)"
  let ?t = "heat_churn_pct (heat_labels ?B) ?hdf"
  have p: "heat_panel ?df = Inr ?t"
    by (simp only: heat_panel_def heat_bins_eq add_total_charge_range_ok [OF heat_bins_eq] sum.case)
  have "(\<exists>r\<in>set ?hdf. TotalChargeRange r \<in> Some ` set (heat_labels ?B) \<and> Contract r \<noteq> None) \<longleftrightarrow>
        (\<exists>r\<in>set raw. Contract r \<noteq> None \<and> (\<exists>v. TotalCharges r = Some v \<and> 0 < v \<and> v \<le> 9000))"
    by (simp only: map2_map_same) (auto simp: heat_cut_label simp del: map_map)
  then have "(fst ?t = [] \<or> snd ?t = []) \<longleftrightarrow>
        \<not> (\<exists>r\<in>set raw. Contract r \<noteq> None \<and> (\<exists>v. TotalCharges r = Some v \<and> 0 < v \<and> v \<le> 9000))"
    by (simp only: heat_churn_pct_empty_iff)
  then show ?thesis using p by (auto simp: heat_figure_def Let_def)
qed

lemma dashboard_cmds_footer:
  assumes "\<exists>r\<in>set raw. Contract r \<noteq> None \<and> (\<exists>v. TotalCharges r = Some v \<and> 0 < v \<and> v \<le> 9000)"
  shows "\<exists>front. dashboard_cmds raw = front @ [Emit (Markdown ''---''), Emit (Markdown footer_text)] \<and>
     wf_cmds [] 0 front"
proof -
  obtain t fig where t: "heat_panel (map2 derive_row raw (map (\<lambda>r. cut_value charge_bins charge_labels (MonthlyCharges r)) raw)) = Inr t"
    and f: "heat_figure t = Inr fig"
    using heat_figure_loaded [of raw] assms by blast
  show ?thesis
    by (simp add: dashboard_script_defs t f)
qed

lemma dashboard_cmds_heat_raise:
  assumes "\<not> (\<exists>r\<in>set raw. Contract r \<noteq> None \<and> (\<exists>v. TotalCharges r = Some v \<and> 0 < v \<and> v \<le> 9000))"
  shows "\<exists>pre post. dashboard_cmds raw =
            page_setup_cmds @ Emit (PageTitle (utf8_encode 128202 @ '' Telco Customer Churn Dashboard'')) #
            pre @ Raise ZeroSizeReduction # post \<and>
          wf_cmds [] 0 (page_setup_cmds @ Emit (PageTitle (utf8_encode 128202 @ '' Telco Customer Churn Dashboard'')) #
            pre @ [EndWith]) \<and>
          Emit (Markdown footer_text) \<notin> set pre \<and> (\<forall>n. EmitIn n (Markdown footer_text) \<notin> set pre)"
proof -
  let ?df = "map2 derive_row raw (map (\<lambda>r. cut_value charge_bins charge_labels (MonthlyCharges r)) raw)"
  obtain t where t: "heat_panel ?df = Inr t" and f: "heat_figure t = Inl ZeroSizeReduction"
    using heat_figure_loaded [of raw] assms by blast
  let ?pre = "tl (metrics_cmds ?df) @ distribution_cmds ?df @ group_table_cmds ?df @ key_factors_cmds ?df @
              charge_range_cmds ?df @ take 7 (reg_heat_cmds ?df)"
  show ?thesis
    by (rule exI [of _ ?pre], rule exI [of _ "EndWith # summary_footer_cmds ?df"])
      (simp add: dashboard_script_defs t f)
qed

lemma run_script_append_None: "run_script (xs @ ys) p = (q, None) \<Longrightarrow> \<exists>q'. run_script xs p = (q', None)"
  by (auto simp: run_script_append split: prod.splits option.splits)

lemma run_script_blocks_prefix: "run_script cs p = (q, r) \<Longrightarrow> \<exists>bs. blocks q = blocks p @ bs"
proof (induction cs arbitrary: p)
  case (Cons c cs)
  then show ?case
  proof (cases "exec_cmd c p")
    case (Inr p1)
    have "\<exists>bs. blocks p1 = blocks p @ bs"
      using Inr by (cases c) (auto split: if_splits option.splits list.splits)
    with Cons Inr show ?thesis by fastforce
  qed auto
qed simp

lemma run_script_elements:
  "run_script cs p = (q, None) \<Longrightarrow> x \<in> set (blocks q) \<Longrightarrow>
     x \<in> set (blocks p) \<or> Emit (snd x) \<in> set cs \<or> (\<exists>n. EmitIn n (snd x) \<in> set cs)"
proof (induction cs arbitrary: p)
  case (Cons c cs)
  then obtain p1 where p1: "exec_cmd c p = Inr p1" "run_script cs p1 = (q, None)"
    by (auto split: sum.splits)
  with Cons.IH Cons.prems(2) have "x \<in> set (blocks p1) \<or> Emit (snd x) \<in> set cs \<or> (\<exists>n. EmitIn n (snd x) \<in> set cs)"
    by blast
  moreover have "x \<in> set (blocks p1) \<Longrightarrow> x \<in> set (blocks p) \<or> c = Emit (snd x) \<or> (\<exists>n. c = EmitIn n (snd x))"
    using p1(1) by (cases c) (auto split: if_splits option.splits list.splits)
  ultimately show ?case by auto
qed simp

subsection \<open>Properties of the page\<close>

text \<open>
  C18: when no customer has both a contract and a total charge in \<open>(0, 9000]\<close> (an
  empty table among others), the heatmap frame is empty and \<open>sns.heatmap\<close> raises
  \<open>ValueError\<close>: the script stops there. The page keeps what was emitted before (it
  still opens with the title) and ends with the exception; the total charges summary and
  the footer are never shown.
\<close>

theorem dashboard_heatmap_error:
  assumes "\<not> (\<exists>r\<in>set raw. Contract r \<noteq> None \<and> (\<exists>v. TotalCharges r = Some v \<and> 0 < v \<and> v \<le> 9000))"
  shows "\<exists>p. run_script (dashboard_cmds raw) init_page = (p, Some ZeroSizeReduction) \<and>
           hd (blocks p) = (Main, PageTitle (utf8_encode 128202 @ '' Telco Customer Churn Dashboard'')) \<and>
           last (blocks p) = (Main, ExceptionBox ZeroSizeReduction) \<and>
           Markdown footer_text \<notin> snd ` set (blocks p)"
proof -
  let ?title = "PageTitle (utf8_encode 128202 @ '' Telco Customer Churn Dashboard'')"
  obtain pre post where d: "dashboard_cmds raw = page_setup_cmds @ Emit ?title # pre @ Raise ZeroSizeReduction # post"
    and w: "wf_cmds [] 0 (page_setup_cmds @ Emit ?title # pre @ [EndWith])"
    and nf: "Emit (Markdown footer_text) \<notin> set pre" "\<forall>n. EmitIn n (Markdown footer_text) \<notin> set pre"
    using dashboard_cmds_heat_raise [OF assms] by blast
  let ?p1 = "init_page\<lparr>layout := ''wide'', style := Some ''whitegrid'', blocks := [(Main, ?title)]\<rparr>"
  have s: "run_script (page_setup_cmds @ Emit ?title # xs) init_page = run_script xs ?p1" for xs
    by (simp add: page_setup_cmds_def init_page_def cur_target_def)
  obtain q0 where "run_script (page_setup_cmds @ Emit ?title # pre @ [EndWith]) init_page = (q0, None)"
    using wf_run_complete [OF w, of init_page] by (auto simp: init_page_def)
  then obtain q where q: "run_script pre ?p1 = (q, None)"
    unfolding s by (blast dest: run_script_append_None)
  let ?p = "q\<lparr>blocks := blocks q @ [(Main, ExceptionBox ZeroSizeReduction)]\<rparr>"
  have r: "run_script (dashboard_cmds raw) init_page = (?p, Some ZeroSizeReduction)"
    unfolding d s by (simp add: run_script_append q)
  obtain bs where bs: "blocks q = (Main, ?title) # bs"
    using run_script_blocks_prefix [OF q] by auto
  have "(c, Markdown footer_text) \<notin> set (blocks q)" for c
  proof
    assume "(c, Markdown footer_text) \<in> set (blocks q)"
    from run_script_elements [OF q this] nf show False by auto
  qed
  then have "Markdown footer_text \<notin> snd ` set (blocks ?p)" by force
  with r bs show ?thesis by auto
qed

text \<open>
  C36: when some customer has both a contract and a total charge in \<open>(0, 9000]\<close>, the
  dashboard's run reaches its end: the steps from the empty page execute every command,
  the layout stays consistent, and the last element on the page is the footer, in the
  main column. With C18 this is exact: the footer is reached for just these tables.
\<close>

theorem dashboard_reaches_footer:
  assumes "\<exists>r\<in>set raw. Contract r \<noteq> None \<and> (\<exists>v. TotalCharges r = Some v \<and> 0 < v \<and> v \<le> 9000)"
  shows "\<exists>p. step\<^sup>*\<^sup>* (dashboard_cmds raw, init_page) ([], p) \<and> page_ok p \<and>
       last (blocks p) = (Main, Markdown footer_text)"
proof -
  obtain front where f: "dashboard_cmds raw = front @ [Emit (Markdown ''---''), Emit (Markdown footer_text)]"
      "wf_cmds [] 0 front"
    using dashboard_cmds_footer [OF assms] by blast
  have ok0: "page_ok init_page" by (simp add: page_ok_def init_page_def)
  obtain q where q: "run_script front init_page = (q, None)" "targets q = []"
    using wf_run_complete [OF f(2), of init_page] by (auto simp: init_page_def)
  let ?p = "q\<lparr>blocks := blocks q @ [(Main, Markdown ''---'')] @ [(Main, Markdown footer_text)]\<rparr>"
  have r: "run_script (dashboard_cmds raw) init_page = (?p, None)"
    using q by (simp add: f(1) run_script_append cur_target_def)
  have "page_ok ?p" by (rule run_script_page_ok [OF ok0 r])
  with r show ?thesis using run_script_None_iff by fastforce
qed

end
