(* ===== verification/Scenarios.thy ===== *)
theory Scenarios
  imports GroupTables CrossTab Describe Charts Metrics Page
begin

text \<open>
  Concrete tables on which the theorems of the component theories are applied, with
  every hypothesis discharged by evaluation in the kernel (\<open>simp\<close>, \<open>code_simp\<close>).
  \<open>sample_customers\<close> has five customers: two on two-year contracts who stayed, two on
  month-to-month contracts of whom one churned, and one on a one-year contract whose
  churn value "Maybe" is outside the churn dictionary and whose monthly charge is
  missing. \<open>sample_frame\<close> is what \<open>load_data\<close> makes of it.
\<close>

definition mk_customer ::
  "string \<Rightarrow> string \<Rightarrow> string \<Rightarrow> rat option \<Rightarrow> rat option \<Rightarrow> string option \<Rightarrow> customer"
where
  "mk_customer cid g contract mc tc churn =
     \<lparr>customerID = Some cid, gender = Some g, CitizensStatus = 0, tenure = 1,
      Contract = Some contract, TechSupport = Some ''No'', InternetService = Some ''DSL'',
      PaymentMethod = Some ''Electronic check'', MonthlyCharges = mc, TotalCharges = tc,
      Churn = churn\<rparr>"

definition sample_customers :: "customer list" where
  "sample_customers =
     [mk_customer ''0001'' ''Female'' ''Two year'' (Some 25) (Some 25) (Some ''No''),
      mk_customer ''0002'' ''Male'' ''Two year'' (Some 15) (Some 300) (Some ''No''),
      mk_customer ''0003'' ''Male'' ''Month-to-month'' (Some 85) (Some 4000) (Some ''Yes''),
      mk_customer ''0004'' ''Female'' ''Month-to-month'' (Some 120) (Some 9100) (Some ''No''),
      mk_customer ''0005'' ''Female'' ''One year'' None (Some 500) (Some ''Maybe'')]"

definition sample_frame :: "drow list" where
  "sample_frame =
     map2 derive_row sample_customers
       (map (\<lambda>r. cut_value charge_bins charge_labels (MonthlyCharges r)) sample_customers)"

definition sample_hframe :: "hrow list" where
  "sample_hframe =
     map2 (\<lambda>r t. drow.extend r (hrow.fields t)) sample_frame
       [Some ''0-500'', Some ''0-500'', Some ''3500-4000'', None, Some ''0-500'']"

lemma sample_load: "load_data sample_customers = Inr sample_frame"
  by (simp add: load_data_ok sample_frame_def)

lemma sample_length: "length sample_customers = 5"
  by (simp add: sample_customers_def)

lemma sample_heat: "add_total_charge_range sample_frame = Inr sample_hframe"
  unfolding add_total_charge_range_ok [OF heat_bins_eq] heat_labels_eq by code_simp

lemma sample_heat_frame:
  "heat_churn_pct (heat_labels (map (\<lambda>i. 500 * int i) [0..<19])) sample_hframe =
     ([''0-500'', ''3500-4000''],
      [(''Month-to-month'', [NaN, Fin 100]), (''One year'', [Fin 0, NaN]), (''Two year'', [Fin 0, NaN])])"
  unfolding heat_labels_eq by code_simp

lemma sample_contracts: "\<forall>r\<in>set sample_hframe. \<forall>c. Contract r = Some c \<longrightarrow> \<not> str_contains ''Churn'' c"
  by (simp add: sample_hframe_def sample_frame_def sample_customers_def mk_customer_def)

subsection \<open>Witnesses\<close>

theorem churn_pct_percent_bounds_witness:
  "(''Month-to-month'', [Fin 2, Fin 1, Fin 50]) \<in> set (churn_pct_table Contract sample_frame) \<and>
   fin_within 0 100 (Fin 50)"
proof -
  have h: "(''Month-to-month'', [Fin 2, Fin 1, Fin 50]) \<in> set (churn_pct_table Contract sample_frame)"
    by code_simp
  from churn_pct_percent_bounds [OF h] h show ?thesis by simp
qed

theorem churn_pct_total_sum_witness:
  "None \<notin> Contract ` set sample_frame \<and>
   sum_list (map (\<lambda>(k, vals). group_count Contract sample_frame k) (churn_pct_table Contract sample_frame)) = 5"
proof -
  have h: "\<forall>r\<in>set sample_frame. Contract r \<noteq> None"
    by (simp add: sample_frame_def sample_customers_def mk_customer_def)
  have l: "length sample_frame = 5"
    by (simp add: sample_frame_def sample_customers_def)
  from churn_pct_total_sum [OF h] h l show ?thesis by auto
qed

theorem charge_range_interval_witness:
  "load_data sample_customers = Inr sample_frame \<and> 0 < length sample_customers \<and>
   ChargeRange (sample_frame ! 0) = Some ''21-40''"
proof -
  have h: "0 < length sample_customers" by (simp add: sample_length)
  have "\<exists>v j. MonthlyCharges (sample_customers ! 0) = Some v \<and> j < 6 \<and>
          20 * of_nat j < v \<and> v \<le> 20 * of_nat (Suc j) \<and> ''21-40'' = charge_labels ! j"
    by (rule exI [of _ 25], rule exI [of _ 1])
      (simp add: sample_customers_def mk_customer_def charge_labels_def)
  with charge_range_interval [OF sample_load h] sample_load h show ?thesis by simp
qed

theorem searchsorted_left_count_witness:
  "sorted [0, 20, 40, 60, 80, 100, 120 :: rat] \<and> searchsorted_left [0, 20, 40, 60, 80, 100, 120] 25 = 2"
proof -
  have h: "sorted [0, 20, 40, 60, 80, 100, 120 :: rat]" by simp
  from searchsorted_left_count [OF h, of 25] h show ?thesis by simp
qed

theorem pd_cut_refines_intervals_witness:
  "sorted_wrt (<) charge_bins \<and> distinct charge_labels \<and> Suc (length charge_labels) = length charge_bins \<and>
   pd_cut charge_bins charge_labels [Some 25, None, Some 0, Some 120, Some 121] =
     Inr [Some ''21-40'', None, None, Some ''101-120'', None]"
proof -
  have h1: "sorted_wrt (<) charge_bins" and h2: "distinct charge_labels"
    and h3: "Suc (length charge_labels) = length charge_bins"
    by (simp_all add: charge_bins_def charge_labels_def)
  from pd_cut_refines_intervals [OF h1 h2 h3] h1 h2 h3 show ?thesis
    by (simp add: charge_bins_def charge_labels_def)
qed

theorem churn_binary_unmapped_witness:
  "load_data sample_customers = Inr sample_frame \<and> 4 < length sample_customers \<and>
   ChurnBinary (sample_frame ! 4) = None \<and> ChurnBinary (sample_frame ! 2) = Some 1"
proof -
  have h4: "4 < length sample_customers" and h2: "2 < length sample_customers"
    by (simp_all add: sample_length)
  have c4: "Churn (sample_customers ! 4) = Some ''Maybe''" and c2: "Churn (sample_customers ! 2) = Some ''Yes''"
    by (simp_all add: sample_customers_def mk_customer_def)
  from churn_binary_unmapped [OF sample_load h4] churn_binary_unmapped [OF sample_load h2] c4 c2
  have "ChurnBinary (sample_frame ! 4) = None" "ChurnBinary (sample_frame ! 2) = Some 1"
    by simp_all
  with sample_load h4 show ?thesis by simp
qed

theorem churn_rate_formula_witness:
  "load_data sample_customers = Inr sample_frame \<and> churn_rate sample_frame = Fin 25"
proof -
  from churn_rate_formula [OF sample_load] have
    "churn_rate sample_frame =
       (let y = length (filter (\<lambda>r. Churn r = Some ''Yes'') sample_customers);
            n = length (filter (\<lambda>r. Churn r = Some ''No'') sample_customers)
        in if y + n = 0 then NaN else Fin (of_nat y / of_nat (y + n) * 100))" .
  then have "churn_rate sample_frame = Fin 25"
    by (simp add: sample_customers_def mk_customer_def)
  with sample_load show ?thesis by simp
qed

theorem churn_pct_rows_sorted_witness:
  "map fst (value_counts (map Contract (churned sample_frame))) \<noteq> [] \<and>
   map fst (value_counts (map Contract (churned sample_frame))) \<noteq> map fst (value_counts (map Contract sample_frame)) \<and>
   map fst (value_counts (map Contract sample_frame)) = [''Two year'', ''Month-to-month'', ''One year''] \<and>
   map fst (churn_pct_table Contract sample_frame) = [''Month-to-month'', ''One year'', ''Two year'']"
proof -
  have vc: "map fst (value_counts (map Contract sample_frame)) = [''Two year'', ''Month-to-month'', ''One year'']"
    and vch: "map fst (value_counts (map Contract (churned sample_frame))) = [''Month-to-month'']"
    by code_simp+
  have h1: "map fst (value_counts (map Contract (churned sample_frame))) \<noteq> []"
    and h2: "map fst (value_counts (map Contract (churned sample_frame))) \<noteq> map fst (value_counts (map Contract sample_frame))"
    by (simp_all add: vc vch)
  have S: "{k. Some k \<in> Contract ` set sample_frame} = set [''Month-to-month'', ''One year'', ''Two year'']"
    by (auto simp: sample_frame_def sample_customers_def mk_customer_def)
  have "sorted_list_of_set {k. Some k \<in> Contract ` set sample_frame} = [''Month-to-month'', ''One year'', ''Two year'']"
    unfolding S sorted_list_of_set_sort_remdups by simp
  with churn_pct_rows_sorted [OF h1 h2] h1 h2 vc show ?thesis by simp
qed

theorem gender_table_split_witness:
  "list_all (\<lambda>r. Churn r = Some ''Yes'' \<or> Churn r = Some ''No'') (take 4 sample_frame) \<and>
   (''Female'', [Fin 2, NaN, Fin 2]) \<in> set (gender_table (take 4 sample_frame)) \<and>
   group_count gender (take 4 sample_frame) ''Female'' =
     group_count gender (churned (take 4 sample_frame)) ''Female'' +
     group_count gender (not_churned (take 4 sample_frame)) ''Female''"
proof -
  have h1: "\<forall>r\<in>set (take 4 sample_frame). Churn r = Some ''Yes'' \<or> Churn r = Some ''No''"
    by (simp add: sample_frame_def sample_customers_def mk_customer_def)
  have h2: "(''Female'', [Fin 2, NaN, Fin 2]) \<in> set (gender_table (take 4 sample_frame))"
    by code_simp
  from gender_table_split [OF h1 h2] h1 h2 show ?thesis by (simp add: list_all_iff)
qed

theorem fround_nearest_even_witness:
  "fround 2 (Fin (1/8)) = Fin (3/25) \<and> \<bar>1/8 * 10 ^ 2 - 12\<bar> = (1/2 :: rat) \<and> even (12 :: int)"
proof -
  have h: "fround 2 (Fin (1/8)) = Fin (3/25)" by code_simp
  obtain k where k: "fround 2 (Fin (1/8)) = Fin (of_int k / 10 ^ 2)" "\<bar>1/8 * 10 ^ 2 - of_int k\<bar> \<le> (1/2 :: rat)"
    "\<bar>1/8 * 10 ^ 2 - of_int k\<bar> = (1/2 :: rat) \<longrightarrow> even k"
    using fround_nearest_even [of 2 "1/8"] by blast
  from k(1) h have "(of_int k :: rat) = 12" by simp
  then have k12: "k = 12" by linarith
  with k(3) have "even (12 :: int)" by simp
  with h show ?thesis by simp
qed

theorem avg_monthly_between_witness:
  "avg_monthly_charges sample_frame = Fin (245/4) \<and>
   Min (set (dropna (map MonthlyCharges sample_frame))) \<le> 245/4 \<and>
   245/4 \<le> Max (set (dropna (map MonthlyCharges sample_frame)))"
proof -
  have h: "avg_monthly_charges sample_frame = Fin (245/4)" by code_simp
  from avg_monthly_between [OF h] h show ?thesis by simp
qed

theorem total_charge_summary_extremes_witness:
  "total_charge_summary sample_frame = [(''Minimum'', Fin 25), (''Maximum'', Fin 9100)] \<and>
   Some 25 \<in> set (map TotalCharges sample_frame) \<and> Some 9100 \<in> set (map TotalCharges sample_frame)"
proof -
  have h: "total_charge_summary sample_frame = [(''Minimum'', Fin 25), (''Maximum'', Fin 9100)]"
    by code_simp
  from total_charge_summary_extremes [THEN iffD1, OF h] h show ?thesis by simp
qed

theorem heat_churn_pct_cells_witness:
  "list_all (\<lambda>r. pred_option (\<lambda>c. \<not> str_contains ''Churn'' c) (Contract r)) sample_hframe \<and>
   map Churn (filter (\<lambda>r. TotalChargeRange r = Some ''0-500'' \<and> Contract r = Some ''One year'') sample_hframe) =
     [Some ''Maybe''] \<and>
   Fin 0 = (let g = filter (\<lambda>r. TotalChargeRange r = Some ''0-500'' \<and> Contract r = Some ''One year'') sample_hframe
            in if g = [] then NaN
               else fround 1 (Fin (of_nat (length (filter (\<lambda>r. Churn r = Some ''Yes'') g)) / of_nat (length g) * 100)))"
proof -
  have m: "(''One year'', [Fin 0, NaN]) \<in> set (snd (heat_churn_pct (heat_labels (map (\<lambda>i. 500 * int i) [0..<19])) sample_hframe))"
    by (simp add: sample_heat_frame)
  from heat_churn_pct_cells [OF sample_contracts prod.collapse [symmetric] m, of 0]
  have "Fin 0 = (let g = filter (\<lambda>r. TotalChargeRange r = Some ''0-500'' \<and> Contract r = Some ''One year'') sample_hframe
            in if g = [] then NaN
               else fround 1 (Fin (of_nat (length (filter (\<lambda>r. Churn r = Some ''Yes'') g)) / of_nat (length g) * 100)))"
    by (simp add: sample_heat_frame)
  moreover have "list_all (\<lambda>r. pred_option (\<lambda>c. \<not> str_contains ''Churn'' c) (Contract r)) sample_hframe"
    "map Churn (filter (\<lambda>r. TotalChargeRange r = Some ''0-500'' \<and> Contract r = Some ''One year'') sample_hframe) = [Some ''Maybe'']"
    by (simp_all add: sample_hframe_def sample_frame_def sample_customers_def mk_customer_def)
  ultimately show ?thesis by blast
qed

theorem heat_churn_pct_shape_witness:
  "list_all (\<lambda>r. pred_option (\<lambda>c. \<not> str_contains ''Churn'' c) (Contract r)) sample_hframe \<and>
   filter (\<lambda>l. \<exists>r\<in>set sample_hframe. TotalChargeRange r = Some l \<and> Contract r \<noteq> None)
     (heat_labels (map (\<lambda>i. 500 * int i) [0..<19])) = [''0-500'', ''3500-4000''] \<and>
   sort (remdups (dropna (map Contract (filter (\<lambda>r. TotalChargeRange r \<noteq> None) sample_hframe)))) =
     [''Month-to-month'', ''One year'', ''Two year'']"
proof -
  have l: "list_all (\<lambda>r. pred_option (\<lambda>c. \<not> str_contains ''Churn'' c) (Contract r)) sample_hframe"
    by (simp add: sample_hframe_def sample_frame_def sample_customers_def mk_customer_def)
  from heat_churn_pct_shape [OF sample_contracts, of "heat_labels (map (\<lambda>i. 500 * int i) [0..<19])"] l
  show ?thesis by (simp add: sample_heat_frame)
qed

theorem heat_count_total_witness:
  "distinct (heat_labels (map (\<lambda>i. 500 * int i) [0..<19])) \<and>
   grid_sum (heat_count_table (heat_labels (map (\<lambda>i. 500 * int i) [0..<19])) sample_hframe) = 4"
proof -
  have d: "distinct (heat_labels (map (\<lambda>i. 500 * int i) [0..<19]))" by (simp add: heat_labels_eq)
  have "length (filter (\<lambda>r. TotalChargeRange r \<in> Some ` set (heat_labels (map (\<lambda>i. 500 * int i) [0..<19])) \<and>
           Contract r \<noteq> None \<and> customerID r \<noteq> None) sample_hframe) = 4"
    by (simp add: heat_labels_eq sample_hframe_def sample_frame_def sample_customers_def mk_customer_def)
  with heat_count_total [OF d, of sample_hframe] d show ?thesis by simp
qed

theorem describe_quantiles_ordered_witness:
  "dropna (map MonthlyCharges sample_frame) \<noteq> [] \<and>
   drop 3 (map snd (describe_col (map MonthlyCharges sample_frame))) =
     [Num (Fin 15), Num (Fin (45/2)), Num (Fin 55), Num (Fin (375/4)), Num (Fin 120)] \<and>
   (\<exists>a b c d e. drop 3 (map snd (describe_col (map MonthlyCharges sample_frame))) =
       [Num (Fin a), Num (Fin b), Num (Fin c), Num (Fin d), Num (Fin e)] \<and>
     a \<le> b \<and> b \<le> c \<and> c \<le> d \<and> d \<le> e)"
proof -
  have h: "dropna (map MonthlyCharges sample_frame) \<noteq> []"
    by (simp add: sample_frame_def sample_customers_def mk_customer_def)
  have "drop 3 (map snd (describe_col (map MonthlyCharges sample_frame))) =
     [Num (Fin 15), Num (Fin (45/2)), Num (Fin 55), Num (Fin (375/4)), Num (Fin 120)]"
    by code_simp
  with describe_quantiles_ordered [OF h] h show ?thesis by blast
qed

theorem quantile_half_median_witness:
  "[4, 1, 3, 2 :: rat] \<noteq> [] \<and> quantile_linear [4, 1, 3, 2] (1/2) = Fin (median_ref [4, 1, 3, 2]) \<and>
   median_ref [4, 1, 3, 2] = 5/2"
proof -
  have h: "[4, 1, 3, 2 :: rat] \<noteq> []" by simp
  have "median_ref [4, 1, 3, 2] = 5/2" by code_simp
  with quantile_half_median [OF h] h show ?thesis by simp
qed

theorem std_skipna_cases_witness:
  "std_skipna [Some 1, Some 2, None, Some 3, Some 4] = SqrtOf (5/3) \<and> 0 \<le> (5/3 :: rat) \<and>
   (\<exists>x\<in>set (dropna [Some 1, Some 2, None, Some 3, Some (4 :: rat)]). x \<noteq> hd (dropna [Some 1, Some 2, None, Some 3, Some 4]))"
proof -
  have s: "std_skipna [Some 1, Some 2, None, Some 3, Some 4] = SqrtOf (5/3)" by code_simp
  from std_skipna_cases [of "[Some 1, Some 2, None, Some 3, Some 4]"] s
  have "0 \<le> (5/3 :: rat) \<and> ((5/3 :: rat) = 0 \<longleftrightarrow>
          (\<forall>x\<in>set (dropna [Some 1, Some 2, None, Some 3, Some (4 :: rat)]). x = hd (dropna [Some 1, Some 2, None, Some 3, Some 4])))"
    by blast
  with s show ?thesis by auto
qed

theorem contract_plot_matches_table_witness:
  "(''Month-to-month'', ''Yes'', 1) \<in> set (contract_plot sample_frame) \<and>
   (\<exists>vals. map_of (contract_table sample_frame) ''Month-to-month'' = Some vals \<and> vals ! 1 = Fin 1)"
proof -
  have h: "(''Month-to-month'', ''Yes'', 1) \<in> set (contract_plot sample_frame)" by code_simp
  from contract_plot_matches_table [OF h] h show ?thesis by (simp add: count_cell_def)
qed

theorem boxplot_stats_ordered_witness:
  "boxplot_stats [1, 2, 3, 4, 100] =
     Some \<lparr>q1 = 2, med = 3, q3 = 4, whislo = 1, whishi = 4, fliers = [100]\<rparr> \<and>
   Min (set [1, 2, 3, 4, 100 :: rat]) \<le> 1 \<and> (4 :: rat) \<le> Max (set [1, 2, 3, 4, 100 :: rat])"
proof -
  have h: "boxplot_stats [1, 2, 3, 4, 100] =
     Some \<lparr>q1 = 2, med = 3, q3 = 4, whislo = 1, whishi = 4, fliers = [100]\<rparr>" by code_simp
  from boxplot_stats_ordered [OF h] h show ?thesis by simp
qed

theorem regplot_least_squares_witness:
  "regplot_fit (reg_points sample_frame) = Some (66/1195, 19/5975) \<and>
   sse (reg_points sample_frame) (66/1195) (19/5975) \<le> sse (reg_points sample_frame) 0 0 \<and>
   66/1195 + 19/5975 * mean_of (map fst (reg_points sample_frame)) = mean_of (map snd (reg_points sample_frame))"
proof -
  have h: "regplot_fit (reg_points sample_frame) = Some (66/1195, 19/5975)" by code_simp
  from regplot_least_squares [OF h] h show ?thesis by blast
qed

theorem fmt_fixed_error_witness:
  "fmt_fixed 2 (Fin (1/3)) = ''0.33'' \<and> \<bar>parse_decimal ''0.33'' - 1/3\<bar> \<le> (1 / (2 * 10 ^ 2) :: rat)"
proof -
  have r: "round_half_even (100/3) = 33" by code_simp
  have p: "py_str_nat 0 = ''0''" "py_str_nat 33 = ''33''" by (simp_all add: py_str_nat.simps)
  have f: "fmt_fixed 2 (Fin (1/3)) = ''0.33''"
    by (simp add: fmt_fixed_def Let_def r zfill_def p)
  from fmt_fixed_error [of "1/3" 2] f show ?thesis by simp
qed

theorem churn_rate_metric_nan_witness:
  "load_data sample_customers = Inr sample_frame \<and> churn_rate_metric sample_frame \<noteq> ''nan%''"
proof -
  have "\<exists>r\<in>set sample_customers. Churn r = Some ''Yes'' \<or> Churn r = Some ''No''"
    by (simp add: sample_customers_def mk_customer_def)
  with churn_rate_metric_nan [OF sample_load] sample_load show ?thesis by blast
qed

theorem churn_pct_nobody_churned_witness:
  "churned [sample_frame ! 0, sample_frame ! 1, sample_frame ! 3] = [] \<and>
   Contract (sample_frame ! 0) = Some ''Two year'' \<and>
   churn_pct_table Contract [sample_frame ! 0, sample_frame ! 1, sample_frame ! 3] =
     [(''Month-to-month'', [Fin 1, NaN, NaN]), (''Two year'', [Fin 2, NaN, NaN])]"
proof -
  let ?F = "[sample_frame ! 0, sample_frame ! 1, sample_frame ! 3]"
  have h1: "\<forall>r\<in>set (churned ?F). Contract r = None"
    by (simp add: churned_def sample_frame_def sample_customers_def mk_customer_def)
  have h2: "\<exists>r\<in>set ?F. Contract r \<noteq> None"
    by (simp add: sample_frame_def sample_customers_def mk_customer_def)
  have k: "{k. Some k \<in> Contract ` set ?F} = {''Month-to-month'', ''Two year''}"
    by (auto simp: sample_frame_def sample_customers_def mk_customer_def)
  have g: "group_count Contract ?F ''Month-to-month'' = 1" "group_count Contract ?F ''Two year'' = 2"
    by (simp_all add: group_count_def sample_frame_def sample_customers_def mk_customer_def)
  have "sorted_list_of_set {''Month-to-month'', ''Two year''} = [''Month-to-month'', ''Two year'']"
    by code_simp
  have e: "churned ?F = []" "Contract (sample_frame ! 0) = Some ''Two year''"
    by (simp_all add: churned_def sample_frame_def sample_customers_def mk_customer_def)
  with churn_pct_nobody_churned [OF h1 h2] k g show ?thesis by simp
qed


theorem fmt_thousands_groups_witness:
  "fmt_thousands 1234567 = ''1,234,567'' \<and>
   (\<exists>g gs. fmt_thousands 1234567 = g @ concat (map (\<lambda>x. CHR '','' # x) gs) \<and>
     g \<noteq> [] \<and> length g \<le> 3 \<and> hd g \<noteq> CHR ''0'' \<and>
     list_all (\<lambda>x. length x = 3) gs \<and> set (g @ concat gs) \<subseteq> digit_char ` {..<10} \<and>
     parse_nat (g @ concat gs) = 1234567)"
proof -
  have h: "fmt_thousands 1234567 = ''1,234,567''"
    by (simp add: fmt_thousands.simps py_str_nat.simps zfill_def)
  obtain g gs where g: "fmt_thousands 1234567 = g @ concat (map (\<lambda>x. CHR '','' # x) gs)"
    "g \<noteq> []" "length g \<le> 3" "hd g = CHR ''0'' \<longrightarrow> g = ''0'' \<and> gs = []"
    "list_all (\<lambda>x. length x = 3) gs" "set (g @ concat gs) \<subseteq> digit_char ` {..<10}"
    "parse_nat (g @ concat gs) = 1234567"
    using fmt_thousands_groups [of 1234567] by blast
  have "hd g \<noteq> CHR ''0''"
  proof
    assume "hd g = CHR ''0''"
    with g(4) have "parse_nat (g @ concat gs) = 0" by simp
    with g(7) show False by simp
  qed
  with h g show ?thesis by blast
qed

theorem dashboard_heatmap_error_witness:
  "(\<exists>p. run_script (dashboard_cmds []) init_page = (p, Some ZeroSizeReduction) \<and>
        hd (blocks p) = (Main, PageTitle (utf8_encode 128202 @ '' Telco Customer Churn Dashboard'')) \<and>
        last (blocks p) = (Main, ExceptionBox ZeroSizeReduction) \<and>
        Markdown footer_text \<notin> snd ` set (blocks p))"
proof -
  have h: "\<not> (\<exists>r\<in>set ([] :: customer list). Contract r \<noteq> None \<and> (\<exists>v. TotalCharges r = Some v \<and> 0 < v \<and> v \<le> 9000))"
    by simp
  from dashboard_heatmap_error [OF h] show ?thesis .
qed

theorem dashboard_reaches_footer_witness:
  "Contract (hd sample_customers) = Some ''Two year'' \<and> TotalCharges (hd sample_customers) = Some 25 \<and>
   (\<exists>p. step\<^sup>*\<^sup>* (dashboard_cmds sample_customers, init_page) ([], p) \<and> page_ok p \<and>
        last (blocks p) = (Main, Markdown footer_text))"
proof -
  have h: "\<exists>r\<in>set sample_customers. Contract r \<noteq> None \<and> (\<exists>v. TotalCharges r = Some v \<and> 0 < v \<and> v \<le> 9000)"
    by (simp add: sample_customers_def mk_customer_def)
  have "Contract (hd sample_customers) = Some ''Two year''" "TotalCharges (hd sample_customers) = Some 25"
    by (simp_all add: sample_customers_def mk_customer_def)
  with dashboard_reaches_footer [OF h] show ?thesis by blast
qed

end
