(* ===== verification/Spec2Isabelle.thy ===== *)
theory Spec2Isabelle
  imports Scenarios
begin

text \<open>
  \<^bold>\<open>A verification model of the Telco churn dashboard\<close>
  (\<open>src/streamlit_dash/teleco_app.py\<close>, a Streamlit page over one pandas DataFrame).

  \<^bold>\<open>The program.\<close> The page loads \<open>telecom_churned_data.csv\<close> once (\<open>load_data\<close>,
  lines 11 to 17, cached by Streamlit), derives a churn flag and a monthly-charge range,
  and then renders independent panels from that one frame: three metrics (lines 22 to
  26), the churn distribution and a \<open>describe()\<close> table (lines 28 to 40), six
  "Churn by ..." tables (lines 42 to 92), a grid of seaborn charts (lines 94 to 118),
  the monthly-charge-range table and chart (lines 120 to 137), a regression plot and a
  heatmap of churn by total charges and contract (lines 139 to 170, which add the
  column \<open>TotalChargeRange\<close> to the frame), and a total-charges summary (lines 172 to
  180), then a markdown footer (lines 182 to 184). Data flows one way, loader to
  derivation to aggregation to rendering; the only other state is Streamlit's page, which
  each statement extends in source order, and there is no concurrency.

  \<^bold>\<open>Library layout.\<close>
  \<^item> \<open>Prelude\<close>: columns as \<open>'a option list\<close> (\<open>None\<close> is a missing cell), \<open>dropna\<close>,
    \<open>unique\<close> (distinct values in order of first appearance, pandas' hash-table order),
    and the shared counting lemmas (collection \<open>count_simps\<close>).
  \<^item> \<open>PyFloat\<close>: float64 results as \<open>fval\<close> (an exact rational, \<open>NaN\<close>, or an
    infinity), IEEE division and multiplication, numpy's half-to-even \<open>round\<close>.
  \<^item> \<open>PdSeries\<close>: the pandas Series operations the code calls: \<open>value_counts\<close> (object
    and Categorical columns, normalised), index alignment (\<open>index_union\<close>, the sorted
    union pandas uses when two indexes differ), element-wise division, scaling and
    rounding, and \<open>pd.DataFrame\<close> from a dict of Series (\<open>frame_of\<close>, whose row
    index is \<open>union_indexes\<close>: the common index, or the sorted union as soon as the
    columns' indexes are not all equal, an empty one included).
  \<^item> \<open>Cut\<close>: \<open>pd.cut\<close> with its four \<open>ValueError\<close>s as \<open>Inl\<close> values and numpy's
    binary \<open>searchsorted\<close>, against the interval specification \<open>bucket_of\<close>.
  \<^item> \<open>PyBuiltins\<close>: \<open>range\<close> (with \<open>ValueError\<close> for a zero step), \<open>str\<close> of an
    integer, the f-string labels with their parser, \<open>in\<close> and \<open>str.replace\<close> on strings.
  \<^item> \<open>PyFormat\<close>: \<open>f"{n:,}"\<close> and \<open>f"{x:.2f}"\<close>, with the reader of a printed decimal.
  \<^item> \<open>Frame\<close>: the row record \<open>customer\<close> (the CSV's columns), \<open>load_data\<close> giving
    \<open>drow\<close>s with \<open>ChurnBinary\<close> and \<open>ChargeRange\<close>, and the heatmap's
    \<open>add_total_charge_range\<close> giving \<open>hrow\<close>s; the mutation of the shared frame is
    modelled as the frame returned extended.
  \<^item> \<open>Stats\<close>: \<open>mean\<close>, \<open>min\<close>, \<open>max\<close> with \<open>skipna\<close>.
  \<^item> \<open>GroupTables\<close>: the metric values, the churn distribution, the gender table, the five
    percentage tables (one definition \<open>churn_pct_table\<close> instantiated per dimension, as the
    code repeats one pattern), the monthly-charge-range table and the total-charges summary.
  \<^item> \<open>Metrics\<close>: the metric panel as the strings it shows (lines 24 to 26).
  \<^item> \<open>Describe\<close>: \<open>describe()\<close> (line 40) with pandas' linear-interpolation quartiles
    and the sample standard deviation, kept exact as \<open>SqrtOf v\<close>, the square root of the
    rational variance \<open>v\<close>.
  \<^item> \<open>CrossTab\<close>: the heatmap panel (lines 150 to 163): both \<open>pivot_table\<close>s with
    \<open>observed=True\<close>, the column renaming, \<open>pd.concat\<close>, \<open>round(1)\<close>, the column selection
    by the substring "Churn" and the suffix removal.
  \<^item> \<open>Charts\<close>: the data the charts draw: count-plot bar heights in seaborn's level order
    (lines 99 to 111 and 134), matplotlib's box statistics (line 114) and the coefficients
    of seaborn's regression line (line 144, a pseudo-inverse fit, drawn only with at
    least two points).
  \<^item> \<open>Page\<close>: the script itself as a program over Streamlit's page state (record
    \<open>page\<close>): \<open>exec_cmd\<close> runs one statement (\<open>st.set_page_config\<close>, \<open>sns.set\<close>,
    an \<open>st.columns\<close> row unpacked into names, entering and leaving a \<open>with\<close> block, a
    title, metric, subheader, dataframe, pyplot or markdown call, a raised exception),
    \<open>run_script\<close> runs a statement list and stops at the first exception, which Streamlit
    shows on the page, and \<open>step\<close> is the same machine as a transition relation. The
    figures are matplotlib figures of axes carrying the seaborn plots (the data of
    \<open>Charts\<close> and \<open>CrossTab\<close>), titles, axis labels and tick rotation as the script
    sets them, and the heatmap's \<open>".1f"\<close> annotations on the unmasked cells;
    \<open>sns.heatmap\<close> raises \<open>ValueError\<close> on a frame with no row or no column. The script
    is \<open>dashboard_cmds\<close>: one definition per section, in source order, from
    \<open>page_setup_cmds\<close> (lines 7 and 8) to \<open>summary_footer_cmds\<close> (lines 173 to 184).
    \<open>wf_cmds\<close> is a static layout discipline (names bound before use, balanced
    \<open>with\<close> blocks, valid column specs, nothing raised) and \<open>page_ok\<close> the layout
    invariant (every container used exists).
  \<^item> \<open>Scenarios\<close>: concrete frames on which the theorems are applied (the witnesses).

  \<^bold>\<open>What is proved.\<close> For the percentage tables (C1 to C3, C12, C13): each row's
  cells as functions of the group counts on every branch, the percentage NaN exactly when
  nobody in the group churned and otherwise within [0, 100], the totals summing to the
  number of customers, and the row order pandas' alignment imposes: ascending labels as
  soon as the churned counts are ordered differently from the totals or nobody churned.
  For the bins (C4 to C6, C10): the binary search computes the count it stands for,
  \<open>pd.cut\<close> refines the interval specification, the monthly ranges are the right-closed
  intervals \<open>(20j, 20j + 20]\<close>, and the heatmap has 18 ranges covering \<open>(0, 9000]\<close>.
  For loading and metrics (C7 to C9, C16, C33 to C35): \<open>load_data\<close> never raises,
  unmapped churn values become missing flags, the churn rate is the share of "Yes" among
  "Yes"/"No" and prints \<open>nan%\<close> exactly when there is none, the average charge lies
  between the extremes, the count is printed in comma-separated groups of three digits
  that read back as the count, and a two-decimal number reads back within half a unit of
  its last decimal. For pandas and numpy themselves (C11, C15): what \<open>value_counts\<close>
  returns, and that \<open>round\<close> picks the nearest multiple with ties to even. C14, C17,
  C19 and C20 characterise the gender, monthly-charge, churn-distribution and
  total-charges tables. For the heatmap (C21 to C24): each cell's value, the rows and
  columns present (observed pairs only), that its \<open>range\<close> and \<open>pd.cut\<close> never raise,
  and that the count grid drops customers without a range or contract. For
  \<open>describe()\<close> (C25 to C27): the quartiles are ordered between min and max, the 50\%
  row is the textbook median, and the std is NaN below two values and zero exactly for
  constant columns. For the charts (C28 to C32): the count plot accounts for every
  customer and agrees with the tables, the boxes are ordered, the regression line is a
  least-squares line through the mean point, and it is drawn exactly when at least two
  customers have both values. For the page (C18, C36): when no customer has both a
  contract and a total charge in \<open>(0, 9000]\<close> (an empty table among others) the heatmap
  raises and the script stops there, the page ending with the exception and without the
  total-charges summary and the footer; otherwise the run reaches its end with a
  consistent layout and the footer last in the main body. Below, the specification's
  ten-customer example is run through loading, the range table and the metric panel.

  \<^bold>\<open>Modelling choices and what is left out.\<close> Floats are exact rationals: binary
  rounding error and the sign of zero are not modelled, so results are those of exact
  arithmetic followed by numpy's or Python's rounding; a standard deviation, irrational in
  general, is kept as the square root of its exact variance. Ties in \<open>value_counts\<close>
  keep first-occurrence order, which numpy's sort gives on the few groups the data has.
  No loop of the program can diverge; every recursion is structural except the binary
  search, \<open>str.replace\<close> and the digit grouping, whose termination is proved with a
  measure, so no fuel is needed. Not modelled: CSV parsing and Streamlit's cache
  (\<open>st.cache_data\<close>), which only deliver the parsed rows; colours, legends and the
  rendering of tables and charts in the browser (pixels), of which the model keeps the
  data drawn, the labels and the layout. The run of the page needs no fuel either: a
  statement list is consumed one statement per step. Non-ASCII text (the emoji of the
  titles, the footer) is kept as the UTF-8 bytes the page receives; the footer literal
  is modelled as written, with its stray U+00C2 before the copyright sign.
\<close>

definition spec_customer :: "rat \<Rightarrow> string \<Rightarrow> customer" where
  "spec_customer charge churn = mk_customer ''c'' ''Female'' ''Month-to-month'' (Some charge) (Some charge) (Some churn)"

definition spec_example :: "customer list" where
  "spec_example = replicate 3 (spec_customer 25 ''Yes'') @ replicate 7 (spec_customer 15 ''No'')"

text \<open>
  The specification's example, ten customers of whom three churned with a monthly
  charge of 25 and seven stayed with a charge of 15, loaded and summarised by the
  monthly-charge-range table: range "0-20" has 7 customers, 0 churned, 0.0 percent;
  range "21-40" has 3, all churned, 100.0 percent; the four empty ranges are listed with
  count 0 and a NaN percentage.
\<close>

theorem spec_example_charge_summary:
  "map_sum id charge_range_summary (load_data spec_example) =
     Inr [(1, ''0-20'', Fin 7, Fin 0, Fin 0), (2, ''21-40'', Fin 3, Fin 3, Fin 100),
          (3, ''41-60'', Fin 0, Fin 0, NaN), (4, ''61-80'', Fin 0, Fin 0, NaN),
          (5, ''81-100'', Fin 0, Fin 0, NaN), (6, ''101-120'', Fin 0, Fin 0, NaN)]"
  by code_simp

text \<open>
  The same example through the metric panel: "10" customers, a churn rate of
  "30.00%" and average monthly charges of "$18.00", as the page prints them.
\<close>

theorem spec_example_metrics:
  "map_sum id metric_panel (load_data spec_example) =
     Inr [(''Total Customers'', ''10''), (''Churn Rate'', ''30.00%''), (''Avg. Monthly Charges'', ''$18.00'')]"
proof -
  let ?df = "map2 derive_row spec_example
               (map (\<lambda>r. cut_value charge_bins charge_labels (MonthlyCharges r)) spec_example)"
  have l: "load_data spec_example = Inr ?df" by (rule load_data_ok)
  have c: "churn_rate ?df = Fin 30" and a: "avg_monthly_charges ?df = Fin 18" and t: "total_customers ?df = 10"
    by code_simp+
  have r: "round_half_even 3000 = 3000" "round_half_even 1800 = 1800" by code_simp+
  have p: "py_str_nat 0 = ''0''" "py_str_nat 10 = ''10''" "py_str_nat 30 = ''30''" "py_str_nat 18 = ''18''"
    by (simp_all add: py_str_nat.simps)
  show ?thesis
    by (simp add: l metric_panel_def total_customers_metric_def churn_rate_metric_def avg_monthly_metric_def
          c a t fmt_thousands.simps fmt_fixed_def Let_def r p zfill_def)
qed
end
